theory Spec2Isabelle
  imports Complex_Main
begin

section \<open>Replication layer: \<^verbatim>\<open>src/lib/multiplayer/sync.js\<close>\<close>

text \<open>
  The wire-level event \<^verbatim>\<open>{ type, timestamp, senderId, data }\<close>. The payload is kept
  polymorphic: \<^verbatim>\<open>handleSyncEvent\<close> only passes it on. \<^verbatim>\<open>Date.now()\<close> is a parameter
  \<open>now\<close> (milliseconds) of every function that reads the clock.
\<close>

record 'd event =
  evtype :: string
  timestamp :: nat
  senderId :: string
  payload :: 'd

text \<open>The table \<^verbatim>\<open>SYNC_EVENTS\<close> of \<^verbatim>\<open>src/lib/constants.js\<close>.\<close>

definition SPAWN :: string where "SPAWN = ''spawn''"
definition FORCE :: string where "FORCE = ''force''"
definition TOOL :: string where "TOOL = ''tool''"
definition GRAVITY :: string where "GRAVITY = ''gravity''"
definition CURSOR :: string where "CURSOR = ''cursor''"

definition SYNC_EVENTS :: "string list" where
  "SYNC_EVENTS = [SPAWN, FORCE, TOOL, GRAVITY, CURSOR]"

text \<open>The module variable \<^verbatim>\<open>localPlayerId\<close>: \<^verbatim>\<open>null\<close> is \<open>None\<close>.\<close>

record sync_state =
  localPlayerId :: "string option"

definition setPlayerId :: "string option \<Rightarrow> sync_state \<Rightarrow> sync_state" where
  "setPlayerId pid s = s\<lparr>localPlayerId := pid\<rparr>"

text \<open>The decimal digits of a number, as the template string \<^verbatim>\<open>`player_${Date.now()}`\<close> prints them.\<close>

definition digit :: "nat \<Rightarrow> char" where
  "digit d = ''0123456789'' ! d"

fun decimal :: "nat \<Rightarrow> string" where
  "decimal n = (if n < 10 then [digit n] else decimal (n div 10) @ [digit (n mod 10)])"

declare decimal.simps [simp del]

text \<open>
  \<^verbatim>\<open>localPlayerId || `player_${Date.now()}`\<close>: JavaScript's \<^verbatim>\<open>||\<close> takes the right
  operand when the left one is falsy, which for this variable is \<^verbatim>\<open>null\<close> or the
  empty string.
\<close>

definition getPlayerId :: "sync_state \<Rightarrow> nat \<Rightarrow> string" where
  "getPlayerId s now =
     (case localPlayerId s of
        None \<Rightarrow> ''player_'' @ decimal now
      | Some pid \<Rightarrow> if pid = [] then ''player_'' @ decimal now else pid)"

definition createEvent :: "sync_state \<Rightarrow> nat \<Rightarrow> string \<Rightarrow> 'd \<Rightarrow> 'd event" where
  "createEvent s now ty d =
     \<lparr>evtype = ty, timestamp = now, senderId = getPlayerId s now, payload = d\<rparr>"

text \<open>
  The five handler slots. A handler is a callback of the caller; what the model keeps of
  a call is that it happened, with which arguments, and whether the callback threw.
  A missing slot (\<^verbatim>\<open>undefined\<close>) is \<open>None\<close>.
\<close>

datatype slot = OnSpawn | OnForce | OnTool | OnGravity | OnCursor

datatype completion = Returned | Threw

type_synonym 'd handler = "'d \<Rightarrow> string \<Rightarrow> completion"

record 'd handlers =
  onSpawn :: "'d handler option"
  onForce :: "'d handler option"
  onTool :: "'d handler option"
  onGravity :: "'d handler option"
  onCursor :: "'d handler option"

text \<open>What one call of \<^verbatim>\<open>handleSyncEvent\<close> does, in order.\<close>

datatype 'd effect =
    Invoked slot 'd string
  | Warned string

text \<open>One \<^verbatim>\<open>case\<close> arm: \<^verbatim>\<open>if (handlers.onX) { handlers.onX(event.data, event.senderId); } break;\<close>\<close>

definition dispatch :: "slot \<Rightarrow> 'd handler option \<Rightarrow> 'd event \<Rightarrow> 'd effect list \<times> completion" where
  "dispatch sl h ev =
     (case h of
        None \<Rightarrow> ([], Returned)
      | Some f \<Rightarrow> ([Invoked sl (payload ev) (senderId ev)], f (payload ev) (senderId ev)))"

definition handleSyncEvent ::
  "sync_state \<Rightarrow> nat \<Rightarrow> 'd event \<Rightarrow> 'd handlers \<Rightarrow> 'd effect list \<times> completion" where
  "handleSyncEvent s now ev hs =
     (if senderId ev = getPlayerId s now then ([], Returned)
      else if evtype ev = SPAWN then dispatch OnSpawn (onSpawn hs) ev
      else if evtype ev = FORCE then dispatch OnForce (onForce hs) ev
      else if evtype ev = TOOL then dispatch OnTool (onTool hs) ev
      else if evtype ev = GRAVITY then dispatch OnGravity (onGravity hs) ev
      else if evtype ev = CURSOR then dispatch OnCursor (onCursor hs) ev
      else ([Warned (evtype ev)], Returned))"

text \<open>The handler calls among the effects.\<close>

fun is_call :: "'d effect \<Rightarrow> bool" where
  "is_call (Invoked _ _ _) = True"
| "is_call (Warned _) = False"

definition calls :: "'d effect list \<times> completion \<Rightarrow> 'd effect list" where
  "calls r = filter is_call (fst r)"

definition warnings :: "'d effect list \<times> completion \<Rightarrow> 'd effect list" where
  "warnings r = filter (\<lambda>e. \<not> is_call e) (fst r)"

text \<open>A handler table with all five slots filled, one of which throws.\<close>

definition all_handlers :: "unit handlers" where
  "all_handlers =
     \<lparr>onSpawn = Some (\<lambda>_ _. Returned), onForce = Some (\<lambda>_ _. Threw),
      onTool = Some (\<lambda>_ _. Returned), onGravity = Some (\<lambda>_ _. Returned),
      onCursor = Some (\<lambda>_ _. Returned)\<rparr>"

section \<open>The physics library as the program sees it\<close>

text \<open>
  The program calls Matter.js for vectors and bodies. JavaScript numbers are taken as
  real numbers throughout: rounding, infinities and \<^verbatim>\<open>NaN\<close> are outside the model.
  A vector \<^verbatim>\<open>{x, y}\<close> is a pair.
\<close>

type_synonym vector = "real \<times> real"

definition Vector_sub :: "vector \<Rightarrow> vector \<Rightarrow> vector" where
  "Vector_sub a b = (fst a - fst b, snd a - snd b)"

definition Vector_magnitude :: "vector \<Rightarrow> real" where
  "Vector_magnitude v = sqrt (fst v * fst v + snd v * snd v)"

text \<open>\<^verbatim>\<open>Vector.normalise\<close> returns the zero vector for the zero vector.\<close>

definition Vector_normalise :: "vector \<Rightarrow> vector" where
  "Vector_normalise v =
     (let m = Vector_magnitude v in if m = 0 then (0, 0) else (fst v / m, snd v / m))"

text \<open>
  A body. \<open>bodyId\<close> is Matter's own \<^verbatim>\<open>body.id\<close> and stands for the identity of the
  JavaScript object: two references are the same object exactly when the ids agree.
  \<open>customId\<close> is the application's identifier. \<open>force\<close> is the accumulator that
  \<^verbatim>\<open>Body.applyForce\<close> adds to. Fields that are \<^verbatim>\<open>undefined\<close> on most bodies are options.
\<close>

record body =
  bodyId :: nat
  label :: string
  customId :: string
  position :: vector
  velocity :: vector
  angularVelocity :: real
  force :: vector
  bounds :: "vector \<times> vector"
  isStatic :: bool
  isExplosive :: bool
  isFloaty :: bool
  explosionForce :: "real option"
  explosionRadius :: "real option"
  customScale :: "real option"
  friction :: real
  frictionAir :: real
  restitution :: real
  density :: real
  fillStyle :: string

text \<open>\<^verbatim>\<open>Body.applyForce(body, body.position, f)\<close>: the force is applied at the centre, so it
  only adds to the force accumulator.\<close>

definition Body_applyForce :: "body \<Rightarrow> vector \<Rightarrow> body" where
  "Body_applyForce b f = b\<lparr>force := (fst (force b) + fst f, snd (force b) + snd f)\<rparr>"

definition Body_setVelocity :: "body \<Rightarrow> vector \<Rightarrow> body" where
  "Body_setVelocity b v = b\<lparr>velocity := v\<rparr>"

definition Body_setAngularVelocity :: "body \<Rightarrow> real \<Rightarrow> body" where
  "Body_setAngularVelocity b w = b\<lparr>angularVelocity := w\<rparr>"

definition Body_setPosition :: "body \<Rightarrow> vector \<Rightarrow> body" where
  "Body_setPosition b p = b\<lparr>position := p\<rparr>"

text \<open>\<^verbatim>\<open>Body.scale\<close> scales the shape about the body's position; of the shape the model
  keeps the bounding box.\<close>

definition Body_scale :: "body \<Rightarrow> real \<Rightarrow> real \<Rightarrow> body" where
  "Body_scale b sx sy =
     (let p = position b; lo = fst (bounds b); hi = snd (bounds b)
      in b\<lparr>bounds := ((fst p + (fst lo - fst p) * sx, snd p + (snd lo - snd p) * sy),
                       (fst p + (fst hi - fst p) * sx, snd p + (snd hi - snd p) * sy))\<rparr>)"

definition Bounds_contains :: "vector \<times> vector \<Rightarrow> vector \<Rightarrow> bool" where
  "Bounds_contains bb p =
     (fst p \<ge> fst (fst bb) \<and> fst p \<le> fst (snd bb) \<and> snd p \<ge> snd (fst bb) \<and> snd p \<le> snd (snd bb))"

text \<open>\<^verbatim>\<open>World.remove(world, body)\<close> takes out the first entry that is this object.\<close>

fun World_remove :: "body \<Rightarrow> body list \<Rightarrow> body list" where
  "World_remove b [] = []"
| "World_remove b (c # cs) = (if bodyId c = bodyId b then cs else c # World_remove b cs)"

text \<open>JavaScript's \<^verbatim>\<open>v || d\<close> on an optional number: \<^verbatim>\<open>undefined\<close> and \<^verbatim>\<open>0\<close> are falsy.\<close>

definition or_else :: "real option \<Rightarrow> real \<Rightarrow> real" where
  "or_else v d = (case v of None \<Rightarrow> d | Some a \<Rightarrow> if a = 0 then d else a)"

text \<open>A parameter with a default value: the default is taken when the argument is
  \<^verbatim>\<open>undefined\<close>.\<close>

definition with_default :: "'a option \<Rightarrow> 'a \<Rightarrow> 'a" where
  "with_default v d = (case v of None \<Rightarrow> d | Some a \<Rightarrow> a)"

section \<open>The state of the program\<close>

text \<open>
  What the program does to its surroundings is kept as a trace: calls of the feedback
  hooks on \<^verbatim>\<open>window\<close>, calls of the callbacks registered with the chaos module, and the
  library call \<^verbatim>\<open>Body.scale\<close>.
\<close>

datatype fx =
    WinParticles real real nat string
  | WinShake real
  | WinStatus string
  | CbParticles real real nat string
  | CbShake real
  | CbStatus string
  | ScaleBody nat real real
  | ConsoleError string

text \<open>The repeating timers of the chaos module (\<^verbatim>\<open>setInterval\<close>) and the one-shot timers of
  the chain reaction (\<^verbatim>\<open>setTimeout\<close>), each named by what its callback does.\<close>

datatype tick =
    FloodTick nat
  | RulesTick
  | ExplosionCheck

datatype task =
    Rescan vector real
  | Explode body
  | LaterParticles real real nat string

text \<open>A black hole of the special-effects module. \<open>bh_body\<close> is its static sensor body,
  \<open>consumedBodies\<close> the references (ids) of the bodies that came close.\<close>

record blackhole =
  bh_body :: "body option"
  pullRadius :: real
  pullStrength :: real
  createdAt :: nat
  lifetime :: real
  bh_x :: real
  bh_y :: real
  consumedBodies :: "nat list"
  eventHorizon :: real

text \<open>The engine with its world. Every \<^verbatim>\<open>World.add\<close> of the program adds bodies or constraints to the
  world itself, never a composite, so \<^verbatim>\<open>Composite.allBodies(world)\<close> is the list of the
  world's own bodies in the order they were added.\<close>

record engine_t =
  bodies :: "body list"
  gravity :: vector
  timeScale :: real

text \<open>
  All module-level variables of the physics, tools, objects, chaos and special-effects
  modules (of the last one, the black holes), together
  with the host: the clock (\<^verbatim>\<open>Date.now()\<close>, milliseconds), the stream of
  \<^verbatim>\<open>Math.random()\<close> draws and how many were taken, the timer tables, and the seed of
  Matter's own generator (\<^verbatim>\<open>Common._seed\<close>). An interval entry is (handle, period,
  callback); a timeout entry is (due time, callback).
\<close>

record game =
  engine :: "engine_t option"
  nextBodyId :: nat
  clock :: nat
  random :: "nat \<Rightarrow> real"
  drawn :: nat
  nextTimer :: nat
  intervals :: "(nat \<times> nat \<times> tick) list"
  timeouts :: "(nat \<times> task) list"
  trace :: "fx list"
  window_spawnParticles :: bool
  window_triggerScreenShake :: bool
  window_showChaosStatus :: bool
  objectIdCounter :: nat
  matterSeed :: nat
  chaosEnabled :: bool
  objectFloodEnabled :: bool
  suddenRulesEnabled :: bool
  autoExplodeEnabled :: bool
  floodInterval :: "nat option"
  rulesInterval :: "nat option"
  explosionCheckInterval :: "nat option"
  screenShakeCallback :: bool
  particleCallback :: bool
  statusCallback :: bool
  currentRule :: "nat option"
  activeBlackHoles :: "blackhole list"
  exploded :: "nat list"

text \<open>\<open>exploded\<close> is not a variable of the program: it lists, in order, the \<open>bodyId\<close> of
  every body \<^verbatim>\<open>explodeBody\<close> was called on, so that explosions can be counted.\<close>

text \<open>\<^verbatim>\<open>Math.random()\<close> returns a number from 0 up to but not including 1: the stream may
  be any sequence of reals, and a draw is the fractional part of its next entry.\<close>

definition Math_random :: "game \<Rightarrow> real \<times> game" where
  "Math_random g = (frac (random g (drawn g)), g\<lparr>drawn := drawn g + 1\<rparr>)"

text \<open>Matter's \<^verbatim>\<open>Common.random()\<close> steps its seed by a linear congruence and returns
  \<^verbatim>\<open>seed / 233280\<close>; \<^verbatim>\<open>Common.choose(choices)\<close> is
  \<^verbatim>\<open>choices[Math.floor(Common.random() * choices.length)]\<close>, and the seed is below
  233280, so the index is below the length.\<close>

definition Common_random :: "game \<Rightarrow> real \<times> game" where
  "Common_random g =
     (let seed = (matterSeed g * 9301 + 49297) mod 233280
      in (real seed / 233280, g\<lparr>matterSeed := seed\<rparr>))"

definition Common_choose :: "'a list \<Rightarrow> game \<Rightarrow> 'a \<times> game" where
  "Common_choose choices g =
     (let (u, g1) = Common_random g
      in (choices ! nat \<lfloor>u * real (length choices)\<rfloor>, g1))"

definition emit :: "fx \<Rightarrow> game \<Rightarrow> game" where
  "emit e g = g\<lparr>trace := trace g @ [e]\<rparr>"

text \<open>\<^verbatim>\<open>if (window.spawnParticles) window.spawnParticles(...)\<close> and its two siblings.\<close>

definition win_particles :: "real \<Rightarrow> real \<Rightarrow> nat \<Rightarrow> string \<Rightarrow> game \<Rightarrow> game" where
  "win_particles px py n col g =
     (if window_spawnParticles g then emit (WinParticles px py n col) g else g)"

definition win_shake :: "real \<Rightarrow> game \<Rightarrow> game" where
  "win_shake i g = (if window_triggerScreenShake g then emit (WinShake i) g else g)"

definition win_status :: "string \<Rightarrow> game \<Rightarrow> game" where
  "win_status m g = (if window_showChaosStatus g then emit (WinStatus m) g else g)"

section \<open>World adapter: \<^verbatim>\<open>src/lib/physics/engine.js\<close>\<close>

definition PHYSICS_GRAVITY :: vector where
  "PHYSICS_GRAVITY = (0, 1)"

definition getAllBodies :: "game \<Rightarrow> body list" where
  "getAllBodies g = (case engine g of None \<Rightarrow> [] | Some e \<Rightarrow> bodies e)"

text \<open>The program mutates body objects in place; in the model the mutated objects are
  written back to the world they were read from.\<close>

definition putBodies :: "body list \<Rightarrow> game \<Rightarrow> game" where
  "putBodies bs g =
     (case engine g of None \<Rightarrow> g | Some e \<Rightarrow> g\<lparr>engine := Some (e\<lparr>bodies := bs\<rparr>)\<rparr>)"

definition clearWorld :: "game \<Rightarrow> game" where
  "clearWorld g =
     (case engine g of
        None \<Rightarrow> g
      | Some e \<Rightarrow>
          (let toRemove = filter (\<lambda>b. \<not> isStatic b) (bodies e)
           in g\<lparr>engine := Some (e\<lparr>bodies := foldl (\<lambda>w b. World_remove b w) (bodies e) toRemove\<rparr>)\<rparr>))"

definition setGravity :: "vector \<Rightarrow> game \<Rightarrow> game" where
  "setGravity v g =
     (case engine g of None \<Rightarrow> g | Some e \<Rightarrow> g\<lparr>engine := Some (e\<lparr>gravity := v\<rparr>)\<rparr>)"

text \<open>\<^verbatim>\<open>flipGravity\<close> returns \<^verbatim>\<open>undefined\<close> (here \<open>None\<close>) when there is no engine.\<close>

definition flipGravity :: "game \<Rightarrow> vector option \<times> game" where
  "flipGravity g =
     (case engine g of
        None \<Rightarrow> (None, g)
      | Some e \<Rightarrow>
          (let v = (fst (gravity e), snd (gravity e) * (- 1))
           in (Some v, g\<lparr>engine := Some (e\<lparr>gravity := v\<rparr>)\<rparr>)))"

definition getGravity :: "game \<Rightarrow> vector" where
  "getGravity g = (case engine g of None \<Rightarrow> PHYSICS_GRAVITY | Some e \<Rightarrow> gravity e)"

definition getBodyAtPosition :: "vector \<Rightarrow> game \<Rightarrow> body option" where
  "getBodyAtPosition p g =
     (case engine g of
        None \<Rightarrow> None
      | Some e \<Rightarrow> find (\<lambda>b. if isStatic b then False else Bounds_contains (bounds b) p) (bodies e))"

definition addBody :: "body \<Rightarrow> game \<Rightarrow> game" where
  "addBody b g =
     (case engine g of None \<Rightarrow> g | Some e \<Rightarrow> g\<lparr>engine := Some (e\<lparr>bodies := bodies e @ [b]\<rparr>)\<rparr>)"

definition removeBody :: "body \<Rightarrow> game \<Rightarrow> game" where
  "removeBody b g =
     (case engine g of
        None \<Rightarrow> g
      | Some e \<Rightarrow> g\<lparr>engine := Some (e\<lparr>bodies := World_remove b (bodies e)\<rparr>)\<rparr>)"

definition applyForce :: "body \<Rightarrow> vector \<Rightarrow> body" where
  "applyForce b f = Body_applyForce b f"

text \<open>\<^verbatim>\<open>scaleBody\<close> changes the object and is recorded in the trace.\<close>

definition scaleBody :: "body \<Rightarrow> real \<Rightarrow> real \<Rightarrow> game \<Rightarrow> body \<times> game" where
  "scaleBody b sx sy g = (Body_scale b sx sy, emit (ScaleBody (bodyId b) sx sy) g)"

text \<open>Writing one mutated object back: every world entry that is this object shows the
  change.\<close>

definition updateBody :: "body \<Rightarrow> game \<Rightarrow> game" where
  "updateBody b g = putBodies (map (\<lambda>c. if bodyId c = bodyId b then b else c) (getAllBodies g)) g"

section \<open>Object registry: the objects module (\<^verbatim>\<open>src/unnamed/part_003\<close>, first file)\<close>

text \<open>
  An archetype of the table \<^verbatim>\<open>OBJECTS\<close> in \<^verbatim>\<open>src/lib/constants.js\<close>. The table's entries
  have different keys; a key an archetype does not have is given as 0 here and is never
  read by the creator of that archetype.
\<close>

record archetype =
  atype :: string
  awidth :: real
  aheight :: real
  aradius :: real
  asize :: real
  acolor :: string
  afriction :: real
  arestitution :: real
  adensity :: real
  aexplosionForce :: real
  aexplosionRadius :: real

definition blank :: archetype where
  "blank = \<lparr>atype = [], awidth = 0, aheight = 0, aradius = 0, asize = 0, acolor = [],
      afriction = 0, arestitution = 0, adensity = 0, aexplosionForce = 0, aexplosionRadius = 0\<rparr>"

definition OBJECTS_BOX :: archetype where
  "OBJECTS_BOX = blank\<lparr>atype := ''box'', awidth := 50, aheight := 50, acolor := ''#ff6b6b'',
      afriction := 5 / 10, arestitution := 3 / 10, adensity := 1 / 1000\<rparr>"

definition OBJECTS_CIRCLE :: archetype where
  "OBJECTS_CIRCLE = blank\<lparr>atype := ''circle'', aradius := 25, acolor := ''#4ecdc4'',
      afriction := 1 / 10, arestitution := 6 / 10, adensity := 1 / 1000\<rparr>"

definition OBJECTS_TRIANGLE :: archetype where
  "OBJECTS_TRIANGLE = blank\<lparr>atype := ''triangle'', asize := 50, acolor := ''#ffe66d'',
      afriction := 4 / 10, arestitution := 2 / 10, adensity := 1 / 1000\<rparr>"

definition OBJECTS_PLANK :: archetype where
  "OBJECTS_PLANK = blank\<lparr>atype := ''plank'', awidth := 150, aheight := 20, acolor := ''#95afc0'',
      afriction := 8 / 10, arestitution := 1 / 10, adensity := 2 / 1000\<rparr>"

definition OBJECTS_BALLOON :: archetype where
  "OBJECTS_BALLOON = blank\<lparr>atype := ''balloon'', aradius := 30, acolor := ''#ff9ff3'',
      afriction := 1 / 10, arestitution := 8 / 10, adensity := 1 / 10000\<rparr>"

definition OBJECTS_EXPLOSIVE :: archetype where
  "OBJECTS_EXPLOSIVE = blank\<lparr>atype := ''explosive'', awidth := 40, aheight := 60,
      acolor := ''#ff4757'', afriction := 6 / 10, arestitution := 2 / 10, adensity := 2 / 1000,
      aexplosionForce := 5 / 10, aexplosionRadius := 200\<rparr>"

definition OBJECTS_JELLY :: archetype where
  "OBJECTS_JELLY = blank\<lparr>atype := ''jelly'', awidth := 60, aheight := 60, acolor := ''#7bed9f'',
      afriction := 2 / 10, arestitution := 9 / 10, adensity := 8 / 10000\<rparr>"

definition OBJECTS_ANVIL :: archetype where
  "OBJECTS_ANVIL = blank\<lparr>atype := ''anvil'', awidth := 70, aheight := 50, acolor := ''#57606f'',
      afriction := 9 / 10, arestitution := 5 / 100, adensity := 1 / 100\<rparr>"

text \<open>The free-form override object \<^verbatim>\<open>options\<close>: a key that is absent is \<open>None\<close>.\<close>

record options =
  opt_width :: "real option"
  opt_height :: "real option"
  opt_radius :: "real option"
  opt_size :: "real option"
  opt_color :: "string option"
  opt_friction :: "real option"
  opt_restitution :: "real option"
  opt_density :: "real option"
  opt_explosionForce :: "real option"
  opt_explosionRadius :: "real option"

definition no_options :: options where
  "no_options = \<lparr>opt_width = None, opt_height = None, opt_radius = None, opt_size = None,
      opt_color = None, opt_friction = None, opt_restitution = None, opt_density = None,
      opt_explosionForce = None, opt_explosionRadius = None\<rparr>"

text \<open>\<^verbatim>\<open>{ ...OBJECTS.X, ...options }\<close>: a key of \<^verbatim>\<open>options\<close> wins over the archetype's.\<close>

definition spread :: "archetype \<Rightarrow> options \<Rightarrow> archetype" where
  "spread a opts =
     a\<lparr>awidth := with_default (opt_width opts) (awidth a),
       aheight := with_default (opt_height opts) (aheight a),
       aradius := with_default (opt_radius opts) (aradius a),
       asize := with_default (opt_size opts) (asize a),
       acolor := with_default (opt_color opts) (acolor a),
       afriction := with_default (opt_friction opts) (afriction a),
       arestitution := with_default (opt_restitution opts) (arestitution a),
       adensity := with_default (opt_density opts) (adensity a),
       aexplosionForce := with_default (opt_explosionForce opts) (aexplosionForce a),
       aexplosionRadius := with_default (opt_explosionRadius opts) (aexplosionRadius a)\<rparr>"

text \<open>\<^verbatim>\<open>`obj_${Date.now()}_${objectIdCounter++}`\<close>\<close>

definition generateId :: "game \<Rightarrow> string \<times> game" where
  "generateId g =
     (''obj_'' @ decimal (clock g) @ ''_'' @ decimal (objectIdCounter g),
      g\<lparr>objectIdCounter := objectIdCounter g + 1\<rparr>)"

subsection \<open>Matter's factories, as far as the program reads their result\<close>

text \<open>
  A factory of Matter (\<^verbatim>\<open>Bodies.rectangle\<close>, \<^verbatim>\<open>circle\<close>, \<^verbatim>\<open>polygon\<close>, \<^verbatim>\<open>trapezoid\<close>)
  builds a list of vertices and hands it to \<^verbatim>\<open>Body.create\<close>, which moves the vertices so
  that their centre of mass lies at the body's position and takes the bounding box of the
  result. The program reads the bounding box (\<^verbatim>\<open>getBodyAtPosition\<close>), so the geometry is
  modelled up to there.
\<close>

definition Vector_cross :: "vector \<Rightarrow> vector \<Rightarrow> real" where
  "Vector_cross a b = fst a * snd b - snd a * fst b"

definition Vector_rotate :: "vector \<Rightarrow> real \<Rightarrow> vector" where
  "Vector_rotate v angle =
     (fst v * cos angle - snd v * sin angle, fst v * sin angle + snd v * cos angle)"

text \<open>\<^verbatim>\<open>Vertices.area(vertices, true)\<close>: the loop pairs every vertex with the one before it,
  the first with the last.\<close>

definition Vertices_area :: "vector list \<Rightarrow> real" where
  "Vertices_area vs =
     (if vs = [] then 0
      else sum_list (map (\<lambda>(a, b). (fst a - fst b) * (snd a + snd b))
                         (zip (last vs # butlast vs) vs)) / 2)"

text \<open>\<^verbatim>\<open>Vertices.centre\<close>: the loop pairs every vertex with the one after it, the last with
  the first.\<close>

definition Vertices_centre :: "vector list \<Rightarrow> vector" where
  "Vertices_centre vs =
     (let area = Vertices_area vs;
          summands = map (\<lambda>(a, b). ((fst a + fst b) * Vector_cross a b,
                                  (snd a + snd b) * Vector_cross a b))
                      (zip vs (rotate1 vs))
      in (sum_list (map fst summands) / (6 * area), sum_list (map snd summands) / (6 * area)))"

text \<open>\<^verbatim>\<open>Bounds.create\<close> takes the least and the greatest coordinate of the vertices. Every
  factory below gives at least_of three vertices; for no vertex at all Matter's bounds are
  infinite, which is written 0 here.\<close>

fun least_of :: "real list \<Rightarrow> real" where
  "least_of [] = 0"
| "least_of [a] = a"
| "least_of (a # b # cs) = min a (least_of (b # cs))"

fun greatest_of :: "real list \<Rightarrow> real" where
  "greatest_of [] = 0"
| "greatest_of [a] = a"
| "greatest_of (a # b # cs) = max a (greatest_of (b # cs))"

definition Bounds_create :: "vector list \<Rightarrow> vector \<times> vector" where
  "Bounds_create vs =
     ((least_of (map fst vs), least_of (map snd vs)), (greatest_of (map fst vs), greatest_of (map snd vs)))"

text \<open>\<^verbatim>\<open>Body.create\<close> with Matter's defaults, for a position and the vertices of a factory:
  a dynamic body at rest with a fresh id. The vertices are translated by the centre of mass
  and then by the position (\<^verbatim>\<open>Body.setVertices\<close>); the angle and the velocity are zero, so
  nothing else moves the bounding box.\<close>

definition Body_create :: "nat \<Rightarrow> vector \<Rightarrow> vector list \<Rightarrow> body" where
  "Body_create i p vs =
     (let c = Vertices_centre vs
      in \<lparr>bodyId = i, label = ''Body'', customId = [], position = p, velocity = (0, 0),
          angularVelocity = 0, force = (0, 0),
          bounds = Bounds_create (map (\<lambda>v. (fst v - fst c + fst p, snd v - snd c + snd p)) vs),
          isStatic = False, isExplosive = False, isFloaty = False, explosionForce = None,
          explosionRadius = None, customScale = None, friction = 1 / 10, frictionAir = 1 / 100,
          restitution = 0, density = 1 / 1000, fillStyle = []\<rparr>)"

text \<open>\<^verbatim>\<open>Bodies.rectangle\<close>: the path \<^verbatim>\<open>L 0 0 L w 0 L w h L 0 h\<close>.\<close>

definition rectangle_path :: "real \<Rightarrow> real \<Rightarrow> vector list" where
  "rectangle_path w h = [(0, 0), (w, 0), (w, h), (0, h)]"

text \<open>\<^verbatim>\<open>Number.prototype.toFixed(3)\<close>, read back by \<^verbatim>\<open>Vertices.fromPath\<close>: the nearest
  multiple of 0.001, a tie going away from zero.\<close>

definition toFixed3 :: "real \<Rightarrow> real" where
  "toFixed3 a = sgn a * (of_int \<lfloor>\<bar>a\<bar> * 1000 + 1 / 2\<rfloor> / 1000)"

text \<open>\<^verbatim>\<open>Bodies.circle\<close> approximates the circle by a polygon with an even number of sides:
  \<^verbatim>\<open>Math.ceil(Math.max(10, Math.min(25, radius)))\<close>, plus one when that is odd.\<close>

definition circle_sides :: "real \<Rightarrow> nat" where
  "circle_sides radius =
     (let sides = nat \<lceil>max 10 (min 25 radius)\<rceil>
      in if sides mod 2 = 1 then sides + 1 else sides)"

text \<open>\<^verbatim>\<open>Bodies.polygon\<close>: the vertices lie on a circle, the first half a step from the
  x axis, each coordinate written with three decimals. With fewer than three sides it
  hands over to \<^verbatim>\<open>Bodies.circle\<close>.\<close>

definition polygon_path :: "nat \<Rightarrow> real \<Rightarrow> vector list" where
  "polygon_path sides radius =
     (let n = (if sides < 3 then circle_sides radius else sides);
          theta = 2 * pi / real n;
          offset = theta * (1 / 2)
      in map (\<lambda>i. (toFixed3 (cos (offset + real i * theta) * radius),
                    toFixed3 (sin (offset + real i * theta) * radius))) [0..<n])"

definition circle_path :: "real \<Rightarrow> vector list" where
  "circle_path radius = polygon_path (circle_sides radius) radius"

text \<open>\<^verbatim>\<open>Bodies.trapezoid\<close>: the base from 0 to the width on the x axis, the roof one height
  above it (towards negative y), narrower by the slope.\<close>

definition trapezoid_path :: "real \<Rightarrow> real \<Rightarrow> real \<Rightarrow> vector list" where
  "trapezoid_path w h slope0 =
     (let slope = slope0 * (1 / 2);
          roof = (1 - slope * 2) * w;
          x1 = w * slope;
          x2 = x1 + roof;
          x3 = x2 + x1
      in if slope < 1 / 2 then [(0, 0), (x1, - h), (x2, - h), (x3, 0)]
         else [(0, 0), (x2, - h), (x3, 0)])"

text \<open>\<^verbatim>\<open>Vertices.chamfer(vertices, radius)\<close> with the default quality: every corner is
  replaced by points of an arc that starts on the edge before the corner. The number of
  points is the number of \<open>j = 0, 1, \<dots>\<close> below the precision, which is
  \<^verbatim>\<open>radius ^ 0.32 * 1.75\<close> clamped to 2 and 14 and raised by one when it is odd.\<close>

definition chamfer_precision :: "real \<Rightarrow> real" where
  "chamfer_precision radius =
     (let q = radius powr (32 / 100) * (175 / 100);
          c = (if q < 2 then 2 else if q > 14 then 14 else q)
      in if c = 2 * of_int \<lfloor>c / 2\<rfloor> + 1 then c + 1 else c)"

definition chamfer_corner :: "real \<Rightarrow> vector \<Rightarrow> vector \<Rightarrow> vector \<Rightarrow> vector list" where
  "chamfer_corner radius prevVertex vertex nextVertex =
     (if radius = 0 then [vertex]
      else
        (let prevNormal = Vector_normalise (snd vertex - snd prevVertex, fst prevVertex - fst vertex);
             nextNormal = Vector_normalise (snd nextVertex - snd vertex, fst vertex - fst nextVertex);
             diagonalRadius = sqrt (2 * (radius * radius));
             radiusVector = (fst prevNormal * radius, snd prevNormal * radius);
             midNormal = Vector_normalise ((fst prevNormal + fst nextNormal) * (1 / 2),
                                           (snd prevNormal + snd nextNormal) * (1 / 2));
             scaledVertex = (fst vertex - fst midNormal * diagonalRadius,
                             snd vertex - snd midNormal * diagonalRadius);
             precision = chamfer_precision radius;
             alpha = arccos (fst prevNormal * fst nextNormal + snd prevNormal * snd nextNormal);
             theta = alpha / precision
         in map (\<lambda>j. (fst (Vector_rotate radiusVector (theta * real j)) + fst scaledVertex,
                       snd (Vector_rotate radiusVector (theta * real j)) + snd scaledVertex))
                [0..<nat \<lceil>precision\<rceil>]))"

definition Vertices_chamfer :: "vector list \<Rightarrow> real \<Rightarrow> vector list" where
  "Vertices_chamfer vs radius =
     (if vs = [] then []
      else concat (map (\<lambda>(prevVertex, vertex, nextVertex).
                          chamfer_corner radius prevVertex vertex nextVertex)
                       (zip (last vs # butlast vs) (zip vs (rotate1 vs)))))"

text \<open>The fill colour Matter gives a dynamic body whose \<^verbatim>\<open>render.fillStyle\<close> is falsy. The
  choice is made, and the seed stepped, for every dynamic body, also when the colour is
  not needed.\<close>

definition palette :: "string list" where
  "palette = [''#f19648'', ''#f5d259'', ''#f55a3c'', ''#063e7b'', ''#ececd1'']"

text \<open>
  The example bodies of this development: a body with Matter's defaults whose bounding box
  is the rectangle with the given half extents about its position. It is what
  \<^verbatim>\<open>Body.create\<close> gives for a rectangle (\<open>Body_create_rectangle\<close> below).
\<close>

definition Bodies_new :: "nat \<Rightarrow> vector \<Rightarrow> vector \<Rightarrow> body" where
  "Bodies_new i p half =
     \<lparr>bodyId = i, label = ''Body'', customId = [], position = p, velocity = (0, 0),
      angularVelocity = 0, force = (0, 0),
      bounds = ((fst p - fst half, snd p - snd half), (fst p + fst half, snd p + snd half)),
      isStatic = False, isExplosive = False, isFloaty = False, explosionForce = None,
      explosionRadius = None, customScale = None, friction = 1 / 10, frictionAir = 1 / 100,
      restitution = 0, density = 1 / 1000, fillStyle = []\<rparr>"

subsection \<open>The eight creators\<close>

text \<open>The part all eight creators share: the identifier is generated while the options
  literal is built, then the factory allocates the body with the vertices \<open>vs\<close>. The
  caller's \<^verbatim>\<open>render.fillStyle\<close> is kept unless it is falsy (the empty string here).\<close>

definition create :: "string \<Rightarrow> archetype \<Rightarrow> vector \<Rightarrow> vector list \<Rightarrow> game \<Rightarrow> body \<times> game" where
  "create lbl config p vs g =
     (let (cid, g1) = generateId g;
          (defaultFillStyle, g2) = Common_choose palette g1;
          b = (Body_create (nextBodyId g2) p vs)
                \<lparr>label := lbl, customId := cid, friction := afriction config,
                 restitution := arestitution config, density := adensity config,
                 fillStyle := (if acolor config = [] then defaultFillStyle else acolor config)\<rparr>
      in (b, g2\<lparr>nextBodyId := nextBodyId g2 + 1\<rparr>))"

definition createBox :: "real \<Rightarrow> real \<Rightarrow> options \<Rightarrow> game \<Rightarrow> body \<times> game" where
  "createBox px py opts g =
     (let config = spread OBJECTS_BOX opts
      in create ''box'' config (px, py) (rectangle_path (awidth config) (aheight config)) g)"

definition createCircle :: "real \<Rightarrow> real \<Rightarrow> options \<Rightarrow> game \<Rightarrow> body \<times> game" where
  "createCircle px py opts g =
     (let config = spread OBJECTS_CIRCLE opts
      in create ''circle'' config (px, py) (circle_path (aradius config)) g)"

definition createTriangle :: "real \<Rightarrow> real \<Rightarrow> options \<Rightarrow> game \<Rightarrow> body \<times> game" where
  "createTriangle px py opts g =
     (let config = spread OBJECTS_TRIANGLE opts
      in create ''triangle'' config (px, py) (polygon_path 3 (asize config / 2)) g)"

definition createPlank :: "real \<Rightarrow> real \<Rightarrow> options \<Rightarrow> game \<Rightarrow> body \<times> game" where
  "createPlank px py opts g =
     (let config = spread OBJECTS_PLANK opts
      in create ''plank'' config (px, py) (rectangle_path (awidth config) (aheight config)) g)"

definition createBalloon :: "real \<Rightarrow> real \<Rightarrow> options \<Rightarrow> game \<Rightarrow> body \<times> game" where
  "createBalloon px py opts g =
     (let config = spread OBJECTS_BALLOON opts;
          (b, g1) = create ''balloon'' config (px, py) (circle_path (aradius config)) g
      in (b\<lparr>isFloaty := True\<rparr>, g1))"

definition createExplosive :: "real \<Rightarrow> real \<Rightarrow> options \<Rightarrow> game \<Rightarrow> body \<times> game" where
  "createExplosive px py opts g =
     (let config = spread OBJECTS_EXPLOSIVE opts;
          (b, g1) = create ''explosive'' config (px, py)
                      (rectangle_path (awidth config) (aheight config)) g
      in (b\<lparr>isExplosive := True, explosionForce := Some (aexplosionForce config),
             explosionRadius := Some (aexplosionRadius config)\<rparr>, g1))"

text \<open>The jelly: a rectangle with \<^verbatim>\<open>chamfer: { radius: 10 }\<close>.\<close>

definition createJelly :: "real \<Rightarrow> real \<Rightarrow> options \<Rightarrow> game \<Rightarrow> body \<times> game" where
  "createJelly px py opts g =
     (let config = spread OBJECTS_JELLY opts
      in create ''jelly'' config (px, py)
           (Vertices_chamfer (rectangle_path (awidth config) (aheight config)) 10) g)"

text \<open>The anvil: a trapezoid of slope 0.4 with \<^verbatim>\<open>config.width * 1.5 || 100\<close>,
  \<^verbatim>\<open>config.height * 1.3 || 65\<close>, \<^verbatim>\<open>config.density || 0.015\<close>, and a fixed fill colour.\<close>

definition createAnvil :: "real \<Rightarrow> real \<Rightarrow> options \<Rightarrow> game \<Rightarrow> body \<times> game" where
  "createAnvil px py opts g =
     (let config = spread OBJECTS_ANVIL opts;
          w = or_else (Some (awidth config * (15 / 10))) 100;
          h = or_else (Some (aheight config * (13 / 10))) 65;
          (b, g1) = create ''anvil'' config (px, py) (trapezoid_path w h (4 / 10)) g
      in (b\<lparr>density := or_else (Some (adensity config)) (15 / 1000),
             fillStyle := ''#2c3e50''\<rparr>, g1))"

text \<open>The \<^verbatim>\<open>switch\<close> of \<^verbatim>\<open>createObject\<close>, arm by arm, with its \<^verbatim>\<open>default\<close>.\<close>

definition createObject :: "string \<Rightarrow> real \<Rightarrow> real \<Rightarrow> options \<Rightarrow> game \<Rightarrow> body \<times> game" where
  "createObject ty px py opts g =
     (if ty = ''box'' then createBox px py opts g
      else if ty = ''circle'' then createCircle px py opts g
      else if ty = ''triangle'' then createTriangle px py opts g
      else if ty = ''plank'' then createPlank px py opts g
      else if ty = ''balloon'' then createBalloon px py opts g
      else if ty = ''explosive'' then createExplosive px py opts g
      else if ty = ''jelly'' then createJelly px py opts g
      else if ty = ''anvil'' then createAnvil px py opts g
      else createBox px py opts g)"

text \<open>The eight archetype tags.\<close>

definition archetype_tags :: "string list" where
  "archetype_tags = map atype [OBJECTS_BOX, OBJECTS_CIRCLE, OBJECTS_TRIANGLE, OBJECTS_PLANK,
      OBJECTS_BALLOON, OBJECTS_EXPLOSIVE, OBJECTS_JELLY, OBJECTS_ANVIL]"

section \<open>Tool executor: the tools module (\<^verbatim>\<open>src/unnamed/part_003\<close>, second file)\<close>

text \<open>The entries of the table \<^verbatim>\<open>TOOLS\<close> in \<^verbatim>\<open>src/lib/constants.js\<close> that the tools read.\<close>

definition TOOLS_PUSH_force :: real where "TOOLS_PUSH_force = 5 / 100"
definition TOOLS_EXPLODE_force :: real where "TOOLS_EXPLODE_force = 3 / 10"
definition TOOLS_EXPLODE_radius :: real where "TOOLS_EXPLODE_radius = 150"
definition TOOLS_SCALE_scaleFactor :: real where "TOOLS_SCALE_scaleFactor = 15 / 10"

text \<open>A \<^verbatim>\<open>forEach\<close> over the bodies whose callback changes the body it is given and draws
  one random number for each body it changes.\<close>

fun forEach_draw ::
  "(body \<Rightarrow> bool) \<Rightarrow> (real \<Rightarrow> body \<Rightarrow> body) \<Rightarrow> body list \<Rightarrow> game \<Rightarrow> body list \<times> game" where
  "forEach_draw P f [] g = ([], g)"
| "forEach_draw P f (b # bs) g =
     (if P b
      then (let (u, g1) = Math_random g; (bs', g2) = forEach_draw P f bs g1 in (f u b # bs', g2))
      else (let (bs', g2) = forEach_draw P f bs g in (b # bs', g2)))"

subsection \<open>\<^verbatim>\<open>toolPush\<close>\<close>

record push_result =
  pr_position :: vector
  pr_direction :: vector
  pr_force :: real
  pr_affectedCount :: nat

text \<open>The test and the body of the loop in \<^verbatim>\<open>toolPush\<close>; the radius is the constant 120.\<close>

definition pushed :: "vector \<Rightarrow> body \<Rightarrow> bool" where
  "pushed pos b = (\<not> isStatic b \<and> Vector_magnitude (Vector_sub (position b) pos) < 120)"

definition push :: "vector \<Rightarrow> vector \<Rightarrow> real \<Rightarrow> body \<Rightarrow> body" where
  "push pos direction f b =
     (let distance = Vector_magnitude (Vector_sub (position b) pos);
          falloff = 1 - distance / 120;
          pushForce = (fst direction * f * falloff * (15 / 10), snd direction * f * falloff * (15 / 10))
      in applyForce b pushForce)"

definition toolPush :: "vector \<Rightarrow> vector \<Rightarrow> real option \<Rightarrow> game \<Rightarrow> push_result \<times> game" where
  "toolPush pos direction fopt g =
     (let f = with_default fopt TOOLS_PUSH_force;
          bs = getAllBodies g;
          affectedCount = length (filter (pushed pos) bs);
          g1 = putBodies (map (\<lambda>b. if pushed pos b then push pos direction f b else b) bs) g;
          g2 = (if affectedCount > 0
                then win_shake (2 / 10) (win_particles (fst pos) (snd pos) 8 ''#6c5ce7'' g1)
                else g1)
      in (\<lparr>pr_position = pos, pr_direction = direction, pr_force = f,
           pr_affectedCount = affectedCount\<rparr>, g2))"

subsection \<open>\<^verbatim>\<open>toolExplode\<close>\<close>

record explode_result =
  er_position :: vector
  er_force :: real
  er_radius :: real
  er_affectedCount :: nat

definition hit :: "vector \<Rightarrow> real \<Rightarrow> body \<Rightarrow> bool" where
  "hit pos r b =
     (\<not> isStatic b \<and>
      (let distance = Vector_magnitude (Vector_sub (position b) pos)
       in distance < r \<and> distance > 0))"

definition blast :: "vector \<Rightarrow> real \<Rightarrow> real \<Rightarrow> real \<Rightarrow> body \<Rightarrow> body" where
  "blast pos f r u b =
     (let direction = Vector_sub (position b) pos;
          distance = Vector_magnitude direction;
          falloff = 1 - distance / r;
          normalizedDir = Vector_normalise direction;
          explosionForce = (fst normalizedDir * f * falloff * (12 / 10),
                            snd normalizedDir * f * falloff * (12 / 10))
      in Body_setAngularVelocity (applyForce b explosionForce) ((u - 5 / 10) * (8 / 10) * falloff))"

definition toolExplode :: "vector \<Rightarrow> real option \<Rightarrow> real option \<Rightarrow> game \<Rightarrow> explode_result \<times> game" where
  "toolExplode pos fopt ropt g =
     (let f = with_default fopt TOOLS_EXPLODE_force;
          r = with_default ropt TOOLS_EXPLODE_radius;
          bs = getAllBodies g;
          affectedCount = length (filter (hit pos r) bs);
          (bs', g1) = forEach_draw (hit pos r) (blast pos f r) bs g;
          g2 = putBodies bs' g1;
          g3 = win_shake (12 / 10) (win_particles (fst pos) (snd pos) 25 ''#ff6b6b'' g2)
      in (\<lparr>er_position = pos, er_force = f, er_radius = r, er_affectedCount = affectedCount\<rparr>, g3))"

subsection \<open>\<^verbatim>\<open>toolScale\<close>\<close>

record scale_result =
  sr_bodyId :: string
  sr_scale :: real
  sr_grow :: bool

text \<open>\<^verbatim>\<open>grow ? TOOLS.SCALE.scaleFactor : 1 / TOOLS.SCALE.scaleFactor\<close>\<close>

definition scale_factor :: "bool \<Rightarrow> real" where
  "scale_factor grow = (if grow then TOOLS_SCALE_scaleFactor else 1 / TOOLS_SCALE_scaleFactor)"

text \<open>\<^verbatim>\<open>body.customScale || 1\<close>: the cumulative scale the tool tracks for a body.\<close>

definition currentScale :: "body \<Rightarrow> real" where
  "currentScale b = or_else (customScale b) 1"

definition toolScale :: "vector \<Rightarrow> bool option \<Rightarrow> game \<Rightarrow> scale_result option \<times> game" where
  "toolScale pos gopt g =
     (let grow = with_default gopt True
      in case getBodyAtPosition pos g of
           None \<Rightarrow> (None, g)
         | Some b \<Rightarrow>
             if \<not> isStatic b
             then (let factor = scale_factor grow;
                       newScale = currentScale b * factor
                   in if newScale \<ge> 3 / 10 \<and> newScale \<le> 3
                      then (let (b1, g1) = scaleBody b factor factor g;
                                b2 = b1\<lparr>customScale := Some newScale\<rparr>;
                                g2 = updateBody b2 g1;
                                g3 = win_particles (fst (position b2)) (snd (position b2)) 8
                                       (if grow then ''#00cec9'' else ''#ff9ff3'') g2
                            in (Some \<lparr>sr_bodyId = customId b2, sr_scale = newScale, sr_grow = grow\<rparr>, g3))
                      else (None, g))
             else (None, g))"

subsection \<open>\<^verbatim>\<open>toolSpawn\<close>\<close>

record spawn_result =
  sp_type :: string
  sp_position :: vector
  sp_id :: string

text \<open>\<^verbatim>\<open>body.render?.fillStyle || '#4ecdc4'\<close>: the empty string is falsy.\<close>

definition toolSpawn :: "string \<Rightarrow> vector \<Rightarrow> options \<Rightarrow> game \<Rightarrow> spawn_result \<times> game" where
  "toolSpawn ty pos opts g =
     (let (b, g1) = createObject ty (fst pos) (snd pos) opts g;
          g2 = addBody b g1;
          col = (if fillStyle b = [] then ''#4ecdc4'' else fillStyle b);
          g3 = win_particles (fst pos) (snd pos) 5 col g2
      in (\<lparr>sp_type = ty, sp_position = pos, sp_id = customId b\<rparr>, g3))"

section \<open>Notions used to state the properties\<close>

text \<open>A world in which equal ids mean the same object: every entry with a given
  \<open>bodyId\<close> shows the same state.\<close>

definition same_object_same_state :: "body list \<Rightarrow> bool" where
  "same_object_same_state w = (\<forall>a\<in>set w. \<forall>b\<in>set w. bodyId a = bodyId b \<longrightarrow> a = b)"

text \<open>The force a call added to a body: the accumulator after, minus the accumulator
  before.\<close>

definition received :: "body \<Rightarrow> body \<Rightarrow> vector" where
  "received before after = Vector_sub (force after) (force before)"

text \<open>\<open>u\<close> points along \<open>v\<close>: the two are parallel and have the same sense.\<close>

definition along :: "vector \<Rightarrow> vector \<Rightarrow> bool" where
  "along u v = (fst u * snd v - snd u * fst v = 0 \<and> fst u * fst v + snd u * snd v > 0)"

text \<open>A sequence of \<^verbatim>\<open>toolScale\<close> calls, each with its cursor position and its
  \<^verbatim>\<open>grow\<close> argument.\<close>

fun toolScale_calls :: "(vector \<times> bool option) list \<Rightarrow> game \<Rightarrow> game" where
  "toolScale_calls [] g = g"
| "toolScale_calls (c # cs) g = toolScale_calls cs (snd (toolScale (fst c) (snd c) g))"

text \<open>Every body of the world has its tracked scale within the tool's limits.\<close>

definition scales_bounded :: "game \<Rightarrow> bool" where
  "scales_bounded g = (\<forall>b\<in>set (getAllBodies g). 3 / 10 \<le> currentScale b \<and> currentScale b \<le> 3)"

section \<open>Example worlds\<close>

text \<open>A small world to run the program on: the static ground, a box and two explosive
  barrels; no draws taken, no timers, every feedback hook installed.\<close>

definition ground :: body where
  "ground = (Bodies_new 1 (600, 830) (650, 30))\<lparr>label := ''ground'', isStatic := True\<rparr>"

definition crate :: body where
  "crate = (Bodies_new 2 (100, 100) (25, 25))\<lparr>label := ''box'', customId := ''obj_0_0''\<rparr>"

definition barrel :: "nat \<Rightarrow> real \<Rightarrow> body" where
  "barrel i px = (Bodies_new i (px, 0) (20, 30))
     \<lparr>label := ''explosive'', isExplosive := True, explosionForce := Some (5 / 10),
      explosionRadius := Some 200\<rparr>"

definition world_of :: "body list \<Rightarrow> game" where
  "world_of bs =
     \<lparr>engine = Some \<lparr>bodies = bs, gravity = PHYSICS_GRAVITY, timeScale = 1\<rparr>,
      nextBodyId = 100, clock = 0, random = (\<lambda>_. 0), drawn = 0, nextTimer = 0,
      intervals = [], timeouts = [], trace = [],
      window_spawnParticles = True, window_triggerScreenShake = True,
      window_showChaosStatus = True, objectIdCounter = 0, matterSeed = 0,
      chaosEnabled = False, objectFloodEnabled = False, suddenRulesEnabled = False,
      autoExplodeEnabled = False, floodInterval = None, rulesInterval = None,
      explosionCheckInterval = None, screenShakeCallback = True, particleCallback = True,
      statusCallback = True, currentRule = None, activeBlackHoles = [], exploded = []\<rparr>"

text \<open>The distance of a body from a point, as the tools compute it.\<close>

definition distance_from :: "vector \<Rightarrow> body \<Rightarrow> real" where
  "distance_from c b = Vector_magnitude (Vector_sub (position b) c)"

definition scaled_crate :: body where
  "scaled_crate = crate\<lparr>customScale := Some (9 / 4)\<rparr>"

section \<open>Chaos orchestrator: the chaos module (\<^verbatim>\<open>src/unnamed/part_002\<close>)\<close>

subsection \<open>Host timers\<close>

text \<open>\<^verbatim>\<open>setInterval\<close> returns a fresh handle, an integer greater than zero, and registers the
  callback; \<^verbatim>\<open>clearInterval\<close> drops the entries with the handle.\<close>

definition setInterval :: "tick \<Rightarrow> nat \<Rightarrow> game \<Rightarrow> nat \<times> game" where
  "setInterval cb ms g =
     (let h = nextTimer g + 1
      in (h, g\<lparr>nextTimer := h, intervals := intervals g @ [(h, ms, cb)]\<rparr>))"

definition clearInterval :: "nat \<Rightarrow> game \<Rightarrow> game" where
  "clearInterval h g = g\<lparr>intervals := filter (\<lambda>t. fst t \<noteq> h) (intervals g)\<rparr>"

text \<open>\<^verbatim>\<open>setTimeout(cb, ms)\<close>: the callback is due \<open>ms\<close> milliseconds from now. The program
  never cancels a timeout, so the model keeps no handle for it.\<close>

definition setTimeout :: "task \<Rightarrow> nat \<Rightarrow> game \<Rightarrow> game" where
  "setTimeout cb ms g = g\<lparr>timeouts := timeouts g @ [(clock g + ms, cb)]\<rparr>"

text \<open>\<^verbatim>\<open>if (handle)\<close> on a variable that is \<^verbatim>\<open>null\<close> or a number: 0 is falsy.\<close>

definition held :: "nat option \<Rightarrow> bool" where
  "held v = (case v of None \<Rightarrow> False | Some h \<Rightarrow> h \<noteq> 0)"

text \<open>\<^verbatim>\<open>if (v) clearInterval(v)\<close>\<close>

definition clear_if_held :: "nat option \<Rightarrow> game \<Rightarrow> game" where
  "clear_if_held v g = (case v of None \<Rightarrow> g | Some h \<Rightarrow> if h \<noteq> 0 then clearInterval h g else g)"

subsection \<open>Feedback callbacks\<close>

definition triggerScreenShake :: "real \<Rightarrow> game \<Rightarrow> game" where
  "triggerScreenShake intensity g = (if screenShakeCallback g then emit (CbShake intensity) g else g)"

definition showStatus :: "string \<Rightarrow> game \<Rightarrow> game" where
  "showStatus message g = (if statusCallback g then emit (CbStatus message) g else g)"

definition spawnParticles :: "real \<Rightarrow> real \<Rightarrow> nat \<Rightarrow> string \<Rightarrow> game \<Rightarrow> game" where
  "spawnParticles px py n col g = (if particleCallback g then emit (CbParticles px py n col) g else g)"

subsection \<open>Object flood\<close>

definition startObjectFlood :: "nat \<Rightarrow> nat \<Rightarrow> game \<Rightarrow> game" where
  "startObjectFlood intensity intervalMs g =
     (let g1 = clear_if_held (floodInterval g) g;
          g2 = showStatus ''OBJECT FLOOD ACTIVATED!'' (g1\<lparr>objectFloodEnabled := True\<rparr>);
          (h, g3) = setInterval (FloodTick intensity) intervalMs g2
      in g3\<lparr>floodInterval := Some h\<rparr>)"

definition stopObjectFlood :: "game \<Rightarrow> game" where
  "stopObjectFlood g =
     (let g1 = (if held (floodInterval g)
                then (clear_if_held (floodInterval g) g)\<lparr>floodInterval := None\<rparr> else g)
      in g1\<lparr>objectFloodEnabled := False\<rparr>)"

subsection \<open>Rule actions\<close>

text \<open>\<^verbatim>\<open>Math.floor(Math.random() * n)\<close>, an index into a list of length \<open>n\<close>.\<close>

definition random_index :: "nat \<Rightarrow> game \<Rightarrow> nat \<times> game" where
  "random_index n g = (let (u, g1) = Math_random g in (nat \<lfloor>u * real n\<rfloor>, g1))"

definition dynamic :: "body \<Rightarrow> bool" where
  "dynamic b = (\<not> isStatic b)"

definition flipGravityRule :: "game \<Rightarrow> game" where
  "flipGravityRule g = (let v = getGravity g in setGravity (fst v, - snd v) g)"

definition spinAllObjects :: "game \<Rightarrow> game" where
  "spinAllObjects g =
     (let (bs, g1) = forEach_draw dynamic
            (\<lambda>u b. Body_setAngularVelocity b ((u - 5 / 10) * 1)) (getAllBodies g) g
      in putBodies bs g1)"

definition explodeRandomObject :: "game \<Rightarrow> game" where
  "explodeRandomObject g =
     (let bs = filter dynamic (getAllBodies g)
      in if length bs > 0
         then (let (i, g1) = random_index (length bs) g;
                   randomBody = bs ! i;
                   (res, g2) = toolExplode (position randomBody) (Some (3 / 10)) (Some 150) g1;
                   g3 = triggerScreenShake 1 g2
               in spawnParticles (fst (position randomBody)) (snd (position randomBody)) 15
                    ''#ffeaa7'' g3)
         else g)"

definition makeEverythingFloaty :: "game \<Rightarrow> game" where
  "makeEverythingFloaty g =
     putBodies (map (\<lambda>b. if dynamic b then applyForce b (0, - (1 / 100)) else b) (getAllBodies g)) g"

definition makeEverythingBouncy :: "game \<Rightarrow> game" where
  "makeEverythingBouncy g =
     putBodies (map (\<lambda>b. if dynamic b then b\<lparr>restitution := 95 / 100\<rparr> else b) (getAllBodies g)) g"

definition removeFriction :: "game \<Rightarrow> game" where
  "removeFriction g =
     putBodies (map (\<lambda>b. if dynamic b then b\<lparr>friction := 0, frictionAir := 0\<rparr> else b)
        (getAllBodies g)) g"

definition launchEverythingUp :: "game \<Rightarrow> game" where
  "launchEverythingUp g =
     (let (bs, g1) = forEach_draw dynamic
            (\<lambda>u b. Body_setVelocity b (fst (velocity b), - 15 - u * 10)) (getAllBodies g) g
      in triggerScreenShake (15 / 10) (putBodies bs g1))"

text \<open>The table \<^verbatim>\<open>RULES\<close>; the names are given without their leading emoji.\<close>

definition RULES :: "(string \<times> (game \<Rightarrow> game)) list" where
  "RULES =
     [(''GRAVITY FLIP!'', flipGravityRule),
      (''SIDEWAYS GRAVITY!'', setGravity (1, 2 / 10)),
      (''LOW GRAVITY!'', setGravity (0, 2 / 10)),
      (''HEAVY GRAVITY!'', setGravity (0, 3)),
      (''CHAOS SPIN!'', spinAllObjects),
      (''EVERYTHING EXPLODES!'', explodeRandomObject),
      (''FLOATY TIME!'', makeEverythingFloaty),
      (''SUPER BOUNCY!'', makeEverythingBouncy),
      (''FRICTION OFF!'', removeFriction),
      (''LAUNCH PARTY!'', launchEverythingUp)]"

subsection \<open>Sudden rules\<close>

definition applyRandomRule :: "game \<Rightarrow> game" where
  "applyRandomRule g =
     (let (i, g1) = random_index (length RULES) g;
          rule = RULES ! i;
          g2 = showStatus (fst rule) (g1\<lparr>currentRule := Some i\<rparr>)
      in snd rule g2)"

definition startSuddenRules :: "nat \<Rightarrow> game \<Rightarrow> game" where
  "startSuddenRules intervalMs g =
     (let g1 = clear_if_held (rulesInterval g) g;
          g2 = showStatus ''SUDDEN RULES MODE!'' (g1\<lparr>suddenRulesEnabled := True\<rparr>);
          g3 = applyRandomRule g2;
          (h, g4) = setInterval RulesTick intervalMs g3
      in g4\<lparr>rulesInterval := Some h\<rparr>)"

definition stopSuddenRules :: "game \<Rightarrow> game" where
  "stopSuddenRules g =
     (let g1 = (if held (rulesInterval g)
                then (clear_if_held (rulesInterval g) g)\<lparr>rulesInterval := None\<rparr> else g)
      in setGravity (0, 1) (g1\<lparr>suddenRulesEnabled := False\<rparr>))"

subsection \<open>Chain reaction explosions\<close>

definition startExplosionChain :: "game \<Rightarrow> game" where
  "startExplosionChain g =
     (let g1 = clear_if_held (explosionCheckInterval g) g;
          (h, g2) = setInterval ExplosionCheck 100 (g1\<lparr>autoExplodeEnabled := True\<rparr>)
      in g2\<lparr>explosionCheckInterval := Some h\<rparr>)"

definition stopExplosionChain :: "game \<Rightarrow> game" where
  "stopExplosionChain g =
     (let g1 = (if held (explosionCheckInterval g)
                then (clear_if_held (explosionCheckInterval g) g)\<lparr>explosionCheckInterval := None\<rparr>
                else g)
      in g1\<lparr>autoExplodeEnabled := False\<rparr>)"

text \<open>
  The object a reference points to. A callback keeps a reference to a body; the state it
  reads is the object's state when it runs. While the object is in the world that is the
  world's entry with its id; once it has been removed nothing changes the object any more,
  and the state is the one the reference was taken with.
\<close>

definition deref :: "body \<Rightarrow> game \<Rightarrow> body" where
  "deref b g = (case find (\<lambda>c. bodyId c = bodyId b) (getAllBodies g) of None \<Rightarrow> b | Some c \<Rightarrow> c)"

text \<open>The test of the delayed rescan: an explosive dynamic body closer to \<open>pos\<close> than 0.8
  times the radius.\<close>

definition nearby :: "vector \<Rightarrow> real \<Rightarrow> body \<Rightarrow> bool" where
  "nearby pos r other =
     (isExplosive other \<and> \<not> isStatic other \<and>
      Vector_magnitude (Vector_sub (position other) pos) < r * (8 / 10))"

text \<open>The rescan, 50 ms after an explosion: every nearby body gets its own timeout with a
  delay of \<^verbatim>\<open>100 + Math.random() * 200\<close> milliseconds (the host takes the integer part).\<close>

fun rescan_each :: "vector \<Rightarrow> real \<Rightarrow> body list \<Rightarrow> game \<Rightarrow> game" where
  "rescan_each pos r [] g = g"
| "rescan_each pos r (other # rest) g =
     (if nearby pos r other
      then (let (u, g1) = Math_random g
            in rescan_each pos r rest (setTimeout (Explode other) (nat \<lfloor>100 + u * 200\<rfloor>) g1))
      else rescan_each pos r rest g)"

definition rescan :: "vector \<Rightarrow> real \<Rightarrow> game \<Rightarrow> game" where
  "rescan pos r g = rescan_each pos r (getAllBodies g) g"

definition explodeBody :: "body \<Rightarrow> game \<Rightarrow> game" where
  "explodeBody ref g =
     (let b = deref ref g;
          pos = position b;
          f = or_else (explosionForce b) (5 / 10);
          r = or_else (explosionRadius b) 200;
          g1 = spawnParticles (fst pos) (snd pos) 20 ''#ff4757''
                 (triggerScreenShake (f * 2) (g\<lparr>exploded := exploded g @ [bodyId b]\<rparr>));
          (res, g2) = toolExplode pos (Some f) (Some r) g1;
          g3 = removeBody b g2
      in setTimeout (Rescan pos r) 50 g3)"

text \<open>The callback of the 100 ms poll: every explosive dynamic body faster than 15 explodes.
  The list of bodies is read once, before the loop.\<close>

fun explosion_check_each :: "body list \<Rightarrow> game \<Rightarrow> game" where
  "explosion_check_each [] g = g"
| "explosion_check_each (b # rest) g =
     (let c = deref b g
      in if isExplosive c \<and> \<not> isStatic c \<and> Vector_magnitude (velocity c) > 15
         then explosion_check_each rest (explodeBody b g)
         else explosion_check_each rest g)"

definition explosionCheck :: "game \<Rightarrow> game" where
  "explosionCheck g = explosion_check_each (getAllBodies g) g"

subsection \<open>Master toggle\<close>

definition enableChaos :: "game \<Rightarrow> game" where
  "enableChaos g =
     showStatus ''CHAOS MODE ENABLED!''
       (startExplosionChain (startSuddenRules 12000 (startObjectFlood 3 3000
          (g\<lparr>chaosEnabled := True\<rparr>))))"

definition disableChaos :: "game \<Rightarrow> game" where
  "disableChaos g =
     showStatus ''Chaos disabled''
       (stopExplosionChain (stopSuddenRules (stopObjectFlood (g\<lparr>chaosEnabled := False\<rparr>))))"

definition toggleChaos :: "game \<Rightarrow> bool \<times> game" where
  "toggleChaos g =
     (let g1 = (if chaosEnabled g then disableChaos g else enableChaos g)
      in (chaosEnabled g1, g1))"

subsection \<open>Running the pending timeouts\<close>

text \<open>The host runs the timeout that is due first; among timeouts due at the same
  millisecond, the one registered first.\<close>

fun earliest :: "nat \<times> task \<Rightarrow> (nat \<times> task) list \<Rightarrow> nat \<times> task" where
  "earliest t [] = t"
| "earliest t (c # cs) = earliest (if fst c < fst t then c else t) cs"

definition run_task :: "task \<Rightarrow> game \<Rightarrow> game" where
  "run_task t g =
     (case t of
        Rescan pos r \<Rightarrow> rescan pos r g
      | Explode b \<Rightarrow> explodeBody b g
      | LaterParticles px py n col \<Rightarrow> emit (WinParticles px py n col) g)"

definition fire_next :: "game \<Rightarrow> game" where
  "fire_next g =
     (case timeouts g of
        [] \<Rightarrow> g
      | t # ts \<Rightarrow>
          (let e = earliest t ts
           in run_task (snd e)
                (g\<lparr>timeouts := remove1 e (timeouts g), clock := max (clock g) (fst e)\<rparr>)))"

text \<open>Running timeouts until none is pending. Each callback may register further
  timeouts, so the run is given fuel: \<open>None\<close> means that timeouts were still pending
  when the fuel ran out.\<close>

fun run_timeouts :: "nat \<Rightarrow> game \<Rightarrow> game option" where
  "run_timeouts n g =
     (if timeouts g = [] then Some g
      else (case n of 0 \<Rightarrow> None | Suc k \<Rightarrow> run_timeouts k (fire_next g)))"

declare run_timeouts.simps [simp del]

section \<open>Special effects: black holes (\<^verbatim>\<open>src/unnamed/part_004\<close>)\<close>

definition removeBodyInternal :: "body option \<Rightarrow> game \<Rightarrow> game" where
  "removeBodyInternal bo g = (case bo of None \<Rightarrow> g | Some b \<Rightarrow> removeBody b g)"

text \<open>The callback of the loop in \<^verbatim>\<open>updateBlackHoles\<close>, for one body: \<open>bhPos\<close> is the
  position of the black hole's body, \<open>cs\<close> its \<^verbatim>\<open>consumedBodies\<close>. The result is the
  body, the list and the state after the callback.\<close>

definition pull_one :: "vector \<Rightarrow> body \<Rightarrow> nat list \<Rightarrow> game \<Rightarrow> body \<times> nat list \<times> game" where
  "pull_one bhPos b cs g =
     (if isStatic b \<or> label b = ''blackhole'' then (b, cs, g)
      else
        (let direction = Vector_sub bhPos (position b);
             distance = Vector_magnitude direction
         in if distance < 20
            then (Body_setVelocity b (0, 0),
                  (if bodyId b \<in> set cs then cs else cs @ [bodyId b]), g)
            else
              (let normalizedDir = Vector_normalise direction;
                   pull = min 8 (400 / distance);
                   vel = velocity b;
                   newVelX = fst vel + fst normalizedDir * pull * (3 / 10);
                   newVelY = snd vel + snd normalizedDir * pull * (3 / 10);
                   b1 = Body_setVelocity b (newVelX, newVelY);
                   cs1 = (if distance < 80 \<and> bodyId b \<notin> set cs then cs @ [bodyId b] else cs)
               in if distance < 250
                  then (let (u, g1) = Math_random g
                        in (Body_setAngularVelocity b1
                              (angularVelocity b1 + (u - 5 / 10) * (15 / 100)), cs1, g1))
                  else (b1, cs1, g))))"

fun pull_each :: "vector \<Rightarrow> body list \<Rightarrow> nat list \<Rightarrow> game \<Rightarrow> body list \<times> nat list \<times> game" where
  "pull_each bhPos [] cs g = ([], cs, g)"
| "pull_each bhPos (b # bs) cs g =
     (let (b', cs1, g1) = pull_one bhPos b cs g;
          (bs', cs2, g2) = pull_each bhPos bs cs1 g1
      in (b' # bs', cs2, g2))"

text \<open>The callback of the loop in \<^verbatim>\<open>explodeBlackHole\<close>, for one body.\<close>

definition expel_one :: "blackhole \<Rightarrow> body \<Rightarrow> game \<Rightarrow> body \<times> game" where
  "expel_one bh b g =
     (if isStatic b \<or> label b = ''blackhole'' then (b, g)
      else
        (let pos = (bh_x bh, bh_y bh);
             wasConsumed = (bodyId b \<in> set (consumedBodies bh));
             (u1, g1) = Math_random g;
             randomAngle = u1 * pi * 2;
             randomDir = (cos randomAngle, sin randomAngle);
             direction = Vector_sub (position b) pos;
             distance = Vector_magnitude direction
         in if wasConsumed \<or> distance < pullRadius bh * 2
            then
              (let explosionPower = (if wasConsumed then 25 / 100
                                     else (15 / 100) * (1 - distance / (pullRadius bh * 2)));
                   outwardDir = (if distance > 0 then Vector_normalise direction else randomDir);
                   chaosDir = (fst outwardDir * (3 / 10) + fst randomDir * (7 / 10),
                               snd outwardDir * (3 / 10) + snd randomDir * (7 / 10));
                   b1 = Body_applyForce b (fst chaosDir * explosionPower, snd chaosDir * explosionPower);
                   (u2, g2) = Math_random g1;
                   b2 = Body_setAngularVelocity b1 ((u2 - 5 / 10) * 4)
               in if wasConsumed
                  then (let (u3, g3) = Math_random g2;
                            scatterDist = 50 + u3 * 100;
                            b3 = Body_setPosition b2 (fst pos + fst randomDir * scatterDist,
                                                      snd pos + snd randomDir * scatterDist)
                        in (Body_setVelocity b3 (fst chaosDir * 30, snd chaosDir * 30), g3))
                  else (b2, g2))
            else (b, g1)))"

fun expel_each :: "blackhole \<Rightarrow> body list \<Rightarrow> game \<Rightarrow> body list \<times> game" where
  "expel_each bh [] g = ([], g)"
| "expel_each bh (b # bs) g =
     (let (b', g1) = expel_one bh b g; (bs', g2) = expel_each bh bs g1 in (b' # bs', g2))"

text \<open>Two black-hole records are the same object when their bodies are.\<close>

definition same_hole :: "blackhole \<Rightarrow> blackhole \<Rightarrow> bool" where
  "same_hole a b = (map_option bodyId (bh_body a) = map_option bodyId (bh_body b))"

definition explodeBlackHole :: "blackhole \<Rightarrow> game \<Rightarrow> game" where
  "explodeBlackHole bh g =
     (case bh_body bh of
        None \<Rightarrow> g
      | Some hb \<Rightarrow>
          (let (bs, g1) = expel_each bh (getAllBodies g) g;
               g2 = win_shake 5 (putBodies bs g1);
               g3 = (if window_spawnParticles g2
                     then setTimeout (LaterParticles (bh_x bh) (bh_y bh) 30 ''#ff6b6b'') 100
                            (setTimeout (LaterParticles (bh_x bh) (bh_y bh) 40 ''#e056fd'') 50
                               (emit (WinParticles (bh_x bh) (bh_y bh) 60 ''#9b59b6'') g2))
                     else g2);
               g4 = win_status ''SUPERNOVA EXPLOSION!'' g3;
               g5 = removeBodyInternal (bh_body bh) g4
           in g5\<lparr>activeBlackHoles := filter (\<lambda>c. \<not> same_hole c bh) (activeBlackHoles g5)\<rparr>))"

text \<open>The callback of the \<^verbatim>\<open>filter\<close> in \<^verbatim>\<open>updateBlackHoles\<close>, over the list of active
  black holes: \<open>now\<close> is the clock reading taken before the loop. A kept black hole
  carries the consumed bodies its loop added. The loop over the bodies goes through the
  objects of the world in their order and changes them in place. The program reads the
  array of bodies once, before the \<^verbatim>\<open>filter\<close>; the only objects that leave the world
  during it are the bodies of exploded black holes, which \<^verbatim>\<open>createBlackHole\<close> makes static
  with the label \<^verbatim>\<open>blackhole\<close> and which the callback therefore skips, so going through the
  world as it is at each black hole's turn does the same to every body.\<close>

fun update_each :: "nat \<Rightarrow> blackhole list \<Rightarrow> game \<Rightarrow> blackhole list \<times> game" where
  "update_each now [] g = ([], g)"
| "update_each now (bh # rest) g =
     (case bh_body bh of
        None \<Rightarrow> update_each now rest g
      | Some hb \<Rightarrow>
          if real now - real (createdAt bh) > lifetime bh
          then update_each now rest (explodeBlackHole bh g)
          else (let (bs, cs, g1) = pull_each (position hb) (getAllBodies g) (consumedBodies bh) g;
                    (kept, g2) = update_each now rest (putBodies bs g1)
                in (bh\<lparr>consumedBodies := cs\<rparr> # kept, g2)))"

definition updateBlackHoles :: "game \<Rightarrow> game" where
  "updateBlackHoles g =
     (if getAllBodies g = [] then g
      else (let (kept, g1) = update_each (clock g) (activeBlackHoles g) g
            in g1\<lparr>activeBlackHoles := kept\<rparr>))"

text \<open>An example: a black hole at (500, 300), created at time 0 with the default lifetime,
  and two boxes, one 10 and one 100 away from it. The pull reads positions, flags and
  labels; the bounding boxes of the example bodies play no part in it.\<close>

definition hole_body :: body where
  "hole_body = (Bodies_new 9 (500, 300) (40, 40))\<lparr>label := ''blackhole'', isStatic := True\<rparr>"

definition hole :: blackhole where
  "hole = \<lparr>bh_body = Some hole_body, pullRadius = 350, pullStrength = 8 / 1000, createdAt = 0,
     lifetime = 6000, bh_x = 500, bh_y = 300, consumedBodies = [], eventHorizon = 60\<rparr>"

definition box_at :: "nat \<Rightarrow> real \<Rightarrow> body" where
  "box_at i px = (Bodies_new i (px, 300) (25, 25))\<lparr>label := ''box'', velocity := (1, 2)\<rparr>"

definition hole_world :: game where
  "hole_world = (world_of [hole_body, box_at 1 510, box_at 2 600])\<lparr>activeBlackHoles := [hole]\<rparr>"

text \<open>A world with a second black hole at (700, 300) behind the first, and a stream of
  random numbers 0, 0.25, 0.5, 0.75, \<dots>\<close>

definition hole2_body :: body where
  "hole2_body = (Bodies_new 8 (700, 300) (40, 40))\<lparr>label := ''blackhole'', isStatic := True\<rparr>"

definition hole2 :: blackhole where
  "hole2 = hole\<lparr>bh_body := Some hole2_body, bh_x := 700\<rparr>"

definition two_hole_world :: game where
  "two_hole_world =
     (world_of [hole_body, hole2_body, box_at 1 510, box_at 2 600])
       \<lparr>activeBlackHoles := [hole, hole2], random := (\<lambda>k. real k / 4)\<rparr>"

text \<open>The same world 7000 ms after the black hole was created: its lifetime of 6000 ms has
  run out, and it is still in the list of active black holes.\<close>

definition late_hole_world :: game where
  "late_hole_world = hole_world\<lparr>clock := 7000\<rparr>"

section \<open>Notions used to state the properties of the chaos module\<close>

text \<open>The part of the state the master toggle is about: the active repeating timers, the
  last handle given out, the three handle variables, the chaos flag and whether a status
  callback is registered.\<close>

definition chaos_view ::
  "game \<Rightarrow> (nat \<times> nat \<times> tick) list \<times> nat \<times> nat option \<times> nat option \<times> nat option \<times> bool \<times> bool" where
  "chaos_view g = (intervals g, nextTimer g, floodInterval g, rulesInterval g,
     explosionCheckInterval g, chaosEnabled g, statusCallback g)"

text \<open>The timers left after \<^verbatim>\<open>if (v) clearInterval(v)\<close>.\<close>

definition drop_held :: "nat option \<Rightarrow> (nat \<times> nat \<times> tick) list \<Rightarrow> (nat \<times> nat \<times> tick) list" where
  "drop_held v ts = (case v of None \<Rightarrow> ts | Some h \<Rightarrow> if h \<noteq> 0 then filter (\<lambda>t. fst t \<noteq> h) ts else ts)"

text \<open>Every active repeating timer is one of the chaos loops' own: its handle is held by
  one of the three handle variables.\<close>

definition timers_tracked :: "game \<Rightarrow> bool" where
  "timers_tracked g =
     (\<forall>t\<in>set (intervals g). fst t \<noteq> 0 \<and>
        (floodInterval g = Some (fst t) \<or> rulesInterval g = Some (fst t)
         \<or> explosionCheckInterval g = Some (fst t)))"

text \<open>The state after the page has mounted: chaos is off and the explosion watcher is already
  running, as \<^verbatim>\<open>src/app/game/page.js\<close> starts it.\<close>

definition mounted :: game where
  "mounted = startExplosionChain (world_of [ground, crate])"

section \<open>Notions used to state the properties of the black holes\<close>

text \<open>The vector from a body to the centre at \<open>bhPos\<close>, and the velocity increment of the
  pull: the unit vector toward the centre times \<open>min(8, 400 / distance) * 0.3\<close>.\<close>

definition toward :: "vector \<Rightarrow> body \<Rightarrow> vector" where
  "toward bhPos b = Vector_sub bhPos (position b)"

definition pull_increment :: "vector \<Rightarrow> body \<Rightarrow> vector" where
  "pull_increment bhPos b =
     (fst (Vector_normalise (toward bhPos b))
        * (min 8 (400 / Vector_magnitude (toward bhPos b)) * (3 / 10)),
      snd (Vector_normalise (toward bhPos b))
        * (min 8 (400 / Vector_magnitude (toward bhPos b)) * (3 / 10)))"

text \<open>The callback draws a random number for \<open>b\<close>: a dynamic body that is not a black hole,
  at a distance from 20 up to but not including 250. \<open>spin_draw\<close> is the draw the callback
  gets for the body at index \<open>i\<close> of the list \<open>bs\<close>, when the loop starts in state \<open>g\<close>: the
  bodies before it have taken one draw each where they are in that range.\<close>

definition spins :: "vector \<Rightarrow> body \<Rightarrow> bool" where
  "spins bhPos b =
     (\<not> isStatic b \<and> label b \<noteq> ''blackhole'' \<and> 20 \<le> Vector_magnitude (toward bhPos b)
      \<and> Vector_magnitude (toward bhPos b) < 250)"

definition spin_draw :: "vector \<Rightarrow> body list \<Rightarrow> nat \<Rightarrow> game \<Rightarrow> real" where
  "spin_draw bhPos bs i g =
     frac (random g (drawn g + length (filter (spins bhPos) (take i bs))))"

text \<open>The state a tick of \<^verbatim>\<open>updateBlackHoles\<close> has reached when the callback of its
  \<^verbatim>\<open>filter\<close> has run for the black holes \<open>done\<close>, the first ones of the list; and the
  bodies a black hole has marked as consumed in state \<open>g\<close>.\<close>

definition turn :: "blackhole list \<Rightarrow> game \<Rightarrow> game" where
  "turn done g = snd (update_each (clock g) done g)"

definition marked_by :: "blackhole \<Rightarrow> game \<Rightarrow> nat list" where
  "marked_by bh g = concat (map consumedBodies (filter (same_hole bh) (activeBlackHoles g)))"

section \<open>Notions used to state the properties of the chain reaction\<close>

text \<open>A body that the rescan and the watcher look at: explosive and not static. Its blast
  radius is \<^verbatim>\<open>body.explosionRadius || 200\<close>.\<close>

definition eligible :: "body \<Rightarrow> bool" where
  "eligible b = (isExplosive b \<and> \<not> isStatic b)"

definition blast_radius :: "body \<Rightarrow> real" where
  "blast_radius b = or_else (explosionRadius b) 200"

text \<open>The rescan after the explosion of \<open>a\<close> finds \<open>b\<close>: \<open>b\<close> is closer to \<open>a\<close> than 0.8
  times the blast radius of \<open>a\<close>.\<close>

definition triggers :: "body \<Rightarrow> body \<Rightarrow> bool" where
  "triggers a b = nearby (position a) (blast_radius a) b"

text \<open>A linear chain: distinct explosive dynamic bodies, each within triggering distance of
  its neighbours in the list, and of no other body of the list.\<close>

definition linear_chain :: "body list \<Rightarrow> bool" where
  "linear_chain cs =
     (distinct (map bodyId cs) \<and> (\<forall>b\<in>set cs. eligible b) \<and>
      (\<forall>i<length cs. \<forall>j<length cs. i \<noteq> j \<longrightarrow>
         (triggers (cs ! i) (cs ! j) \<longleftrightarrow> (i = Suc j \<or> j = Suc i))))"

text \<open>The chain is in the world and makes up all its explosive dynamic bodies; every object
  is in the world once; no timeout is pending.\<close>

definition chain_in_world :: "body list \<Rightarrow> game \<Rightarrow> bool" where
  "chain_in_world cs g =
     (engine g \<noteq> None \<and> distinct (map bodyId (getAllBodies g)) \<and>
      set cs \<subseteq> set (getAllBodies g) \<and>
      (\<forall>b\<in>set (getAllBodies g). eligible b \<longrightarrow> b \<in> set cs) \<and>
      timeouts g = [])"

text \<open>What the chain reaction reads of a body: its identity, whether it is explosive and
  dynamic, where it is, and its blast radius.\<close>

definition core :: "body \<Rightarrow> nat \<times> bool \<times> vector \<times> real" where
  "core b = (bodyId b, eligible b, position b, blast_radius b)"

definition cores :: "game \<Rightarrow> (nat \<times> bool \<times> vector \<times> real) list" where
  "cores g = map core (getAllBodies g)"

text \<open>The body of the chain at index \<open>i\<close> is still in the world.\<close>

definition live :: "body list \<Rightarrow> game \<Rightarrow> nat \<Rightarrow> bool" where
  "live cs g i = (bodyId (cs ! i) \<in> fst ` set (cores g))"

text \<open>A pending callback that will explode the body at index \<open>j\<close> or, being a rescan, will
  schedule its explosion; and the number of such callbacks among the pending ones.\<close>

definition hits :: "body list \<Rightarrow> nat \<Rightarrow> task \<Rightarrow> bool" where
  "hits cs j t =
     (case t of
        Explode b \<Rightarrow> bodyId b = bodyId (cs ! j)
      | Rescan p r \<Rightarrow> nearby p r (cs ! j)
      | LaterParticles px py n col \<Rightarrow> False)"

definition hits_count :: "body list \<Rightarrow> nat \<Rightarrow> (nat \<times> task) list \<Rightarrow> nat" where
  "hits_count cs j ts = length (filter (\<lambda>t. hits cs j (snd t)) ts)"

text \<open>A pending callback fits the state of the chain: an explosion is of a body still in
  the world, a rescan is around a body that has exploded.\<close>

definition task_ok :: "body list \<Rightarrow> game \<Rightarrow> task \<Rightarrow> bool" where
  "task_ok cs g t =
     (case t of
        Explode b \<Rightarrow> (\<exists>i<length cs. live cs g i \<and> bodyId b = bodyId (cs ! i))
      | Rescan p r \<Rightarrow> (\<exists>i<length cs. \<not> live cs g i \<and> p = position (cs ! i)
                           \<and> r = blast_radius (cs ! i))
      | LaterParticles px py n col \<Rightarrow> False)"

text \<open>The body at index \<open>m\<close> has a neighbour among the indices from \<open>l\<close> up to \<open>r\<close>.\<close>

definition front :: "nat \<Rightarrow> nat \<Rightarrow> nat \<Rightarrow> nat \<Rightarrow> bool" where
  "front l r n m = ((Suc m < n \<and> l \<le> Suc m \<and> Suc m < r) \<or> (0 < m \<and> l \<le> m - 1 \<and> m - 1 < r))"

text \<open>
  The invariant of the chain reaction, once a body of the chain has exploded. The bodies
  that have exploded are those at the indices from \<open>l\<close> up to \<open>r\<close>; \<open>pre\<close> is the log
  of explosions before the ignition. Every body of the chain still in the world is as the
  chain has it; every pending callback fits; a body still in the world is awaited by
  exactly one pending callback if it has an exploded neighbour, and by none otherwise; and
  the log lists each exploded body once.
\<close>

definition chain_inv :: "body list \<Rightarrow> nat list \<Rightarrow> nat \<Rightarrow> nat \<Rightarrow> game \<Rightarrow> bool" where
  "chain_inv cs pre l r g =
     (engine g \<noteq> None \<and> l < r \<and> r \<le> length cs \<and>
      distinct (map fst (cores g)) \<and>
      (\<forall>c\<in>set (cores g). fst (snd c) \<longrightarrow> (\<exists>i<length cs. c = core (cs ! i))) \<and>
      (\<forall>c\<in>set (cores g). \<forall>i<length cs. fst c = bodyId (cs ! i) \<longrightarrow> c = core (cs ! i)) \<and>
      (\<forall>i<length cs. live cs g i \<longleftrightarrow> \<not> (l \<le> i \<and> i < r)) \<and>
      (\<forall>t\<in>set (timeouts g). task_ok cs g (snd t)) \<and>
      (\<forall>j<length cs. live cs g j \<longrightarrow>
         hits_count cs j (timeouts g) = (if front l r (length cs) j then 1 else 0)) \<and>
      (\<exists>xs. exploded g = pre @ xs \<and> distinct xs \<and>
            set xs = {bodyId (cs ! i) | i. l \<le> i \<and> i < r}))"

text \<open>The number of callbacks the chain reaction has still to run, at most.\<close>

fun is_rescan :: "task \<Rightarrow> bool" where
  "is_rescan (Rescan p r) = True"
| "is_rescan (Explode b) = False"
| "is_rescan (LaterParticles px py n col) = False"

definition to_run :: "body list \<Rightarrow> nat \<Rightarrow> nat \<Rightarrow> game \<Rightarrow> nat" where
  "to_run cs l r g = 2 * (length cs - (r - l)) + length (filter (\<lambda>t. is_rescan (snd t)) (timeouts g))"

text \<open>The state in which the host calls a due callback: the callback is off the table and
  the clock has reached its time.\<close>

definition pop :: "nat \<times> task \<Rightarrow> game \<Rightarrow> game" where
  "pop e g = g\<lparr>timeouts := remove1 e (timeouts g), clock := max (clock g) (fst e)\<rparr>"

text \<open>The part of the state the chain reaction is about, besides the world.\<close>

definition cascade_view :: "game \<Rightarrow> (nat \<times> task) list \<times> nat list \<times> nat \<times> bool" where
  "cascade_view g = (timeouts g, exploded g, clock g, engine g = None)"

text \<open>Three barrels one unit apart, all within triggering distance of each other; the
  fourth random draw is 0.99, all others are 0.\<close>

definition cluster :: game where
  "cluster = (world_of [barrel 1 0, barrel 2 1, barrel 3 2])
     \<lparr>random := (\<lambda>k. if k = 3 then 99 / 100 else 0)\<rparr>"

text \<open>Three barrels 100 units apart: the outer two are 200 apart, beyond the 160 of the
  rescan.\<close>

definition row :: "body list" where
  "row = [barrel 11 0, barrel 12 100, barrel 13 200]"

section \<open>Properties\<close>

lemma getPlayerId_set:
  "pid \<noteq> [] \<Longrightarrow> getPlayerId (setPlayerId (Some pid) s) now = pid"
  by (simp add: getPlayerId_def setPlayerId_def)

lemma decimal_0: "decimal 0 = ''0''"
  by code_simp

lemma decimal_1: "decimal (Suc 0) = ''1''"
  by code_simp

text \<open>
  Without an identifier the id is re-derived from the clock on every call: an event built
  at one millisecond and handled at another is dispatched to its handler.
\<close>

lemma unset_id_not_suppressed:
  "calls (handleSyncEvent \<lparr>localPlayerId = None\<rparr> 1
            (createEvent \<lparr>localPlayerId = None\<rparr> 0 SPAWN ()) all_handlers)
   = [Invoked OnSpawn () ''player_0'']"
  by (simp add: calls_def handleSyncEvent_def createEvent_def getPlayerId_def decimal_0
      decimal_1 dispatch_def all_handlers_def SPAWN_def)

text \<open>
  C1 (echo suppression). An event whose \<^verbatim>\<open>senderId\<close> equals the local player identifier,
  that is the value \<^verbatim>\<open>getPlayerId()\<close> has when the event is handled, makes
  \<^verbatim>\<open>handleSyncEvent\<close> return at once: no handler is invoked, nothing is logged. Once
  \<^verbatim>\<open>setPlayerId\<close> has stored a non-empty identifier, that value is the stored identifier
  at every clock reading, so every event carrying it is discarded whenever it arrives.
\<close>

theorem handleSyncEvent_echo_suppressed:
  "(senderId ev = getPlayerId s now \<longrightarrow> handleSyncEvent s now ev hs = ([], Returned))
   \<and> (pid \<noteq> [] \<and> senderId ev = pid \<longrightarrow>
        handleSyncEvent (setPlayerId (Some pid) s) now ev hs = ([], Returned))"
  by (simp add: handleSyncEvent_def getPlayerId_set)

theorem handleSyncEvent_echo_suppressed_witness:
  "senderId \<lparr>evtype = FORCE, timestamp = 7, senderId = ''alice'', payload = ()\<rparr>
     = getPlayerId \<lparr>localPlayerId = Some ''alice''\<rparr> 9
   \<and> ''alice'' \<noteq> []
   \<and> handleSyncEvent \<lparr>localPlayerId = Some ''alice''\<rparr> 9
        \<lparr>evtype = FORCE, timestamp = 7, senderId = ''alice'', payload = ()\<rparr> all_handlers
       = ([], Returned)
   \<and> handleSyncEvent (setPlayerId (Some ''alice'') \<lparr>localPlayerId = None\<rparr>) 9
        \<lparr>evtype = FORCE, timestamp = 7, senderId = ''alice'', payload = ()\<rparr> all_handlers
       = ([], Returned)"
  using handleSyncEvent_echo_suppressed
    [of "\<lparr>evtype = FORCE, timestamp = 7, senderId = ''alice'', payload = ()\<rparr>"
        "\<lparr>localPlayerId = Some ''alice''\<rparr>" 9 all_handlers "''alice''"]
  by (simp add: getPlayerId_def setPlayerId_def)


lemma unknown_type:
  "ty \<notin> set SYNC_EVENTS \<longleftrightarrow>
   ty \<noteq> SPAWN \<and> ty \<noteq> FORCE \<and> ty \<noteq> TOOL \<and> ty \<noteq> GRAVITY \<and> ty \<noteq> CURSOR"
  by (auto simp add: SYNC_EVENTS_def)

text \<open>
  C8 (as amended). An event whose type is none of the five recognised types never reaches
  a handler and never makes \<^verbatim>\<open>handleSyncEvent\<close> throw. If its \<^verbatim>\<open>senderId\<close> differs from
  the local identifier, the call logs one warning naming the type; if it equals the local
  identifier, the event is dropped by the echo check before the \<^verbatim>\<open>switch\<close>, and nothing
  is logged.
\<close>

theorem handleSyncEvent_unknown_type:
  assumes "evtype ev \<notin> set SYNC_EVENTS"
  shows "handleSyncEvent s now ev hs
     = (if senderId ev = getPlayerId s now then [] else [Warned (evtype ev)], Returned)"
  using assms by (simp add: handleSyncEvent_def unknown_type)

theorem handleSyncEvent_unknown_type_witness:
  "evtype \<lparr>evtype = ''teleport'', timestamp = 3, senderId = ''bob'', payload = ()\<rparr> \<notin> set SYNC_EVENTS
   \<and> handleSyncEvent \<lparr>localPlayerId = Some ''alice''\<rparr> 9
        \<lparr>evtype = ''teleport'', timestamp = 3, senderId = ''bob'', payload = ()\<rparr> all_handlers
       = ([Warned ''teleport''], Returned)"
proof -
  have u: "evtype \<lparr>evtype = ''teleport'', timestamp = 3, senderId = ''bob'', payload = ()\<rparr>
      \<notin> set SYNC_EVENTS"
    by (simp add: SYNC_EVENTS_def SPAWN_def FORCE_def TOOL_def GRAVITY_def CURSOR_def)
  show ?thesis
    using handleSyncEvent_unknown_type [OF u, of "\<lparr>localPlayerId = Some ''alice''\<rparr>" 9 all_handlers] u
    by (simp add: getPlayerId_def)
qed

text \<open>An event of unknown type that carries the local identifier: no warning is logged.\<close>

theorem handleSyncEvent_unknown_type_counterexample:
  "evtype \<lparr>evtype = ''teleport'', timestamp = 3, senderId = ''alice'', payload = ()\<rparr> \<notin> set SYNC_EVENTS
   \<and> warnings (handleSyncEvent \<lparr>localPlayerId = Some ''alice''\<rparr> 9
        \<lparr>evtype = ''teleport'', timestamp = 3, senderId = ''alice'', payload = ()\<rparr> all_handlers)
       = []"
  by (simp add: SYNC_EVENTS_def SPAWN_def FORCE_def TOOL_def GRAVITY_def CURSOR_def
      handleSyncEvent_def getPlayerId_def warnings_def)

subsection \<open>Facts about the state used throughout\<close>

lemma engine_emit [simp]: "engine (emit e g) = engine g"
  by (simp add: emit_def)

lemma engine_win_particles [simp]: "engine (win_particles a b n c g) = engine g"
  by (simp add: win_particles_def)

lemma engine_win_shake [simp]: "engine (win_shake a g) = engine g"
  by (simp add: win_shake_def)

lemma engine_win_status [simp]: "engine (win_status a g) = engine g"
  by (simp add: win_status_def)

lemma getAllBodies_putBodies:
  "getAllBodies (putBodies bs g) = (if engine g = None then [] else bs)"
  by (auto simp add: getAllBodies_def putBodies_def split: option.splits)

lemma getAllBodies_emit [simp]: "getAllBodies (emit e g) = getAllBodies g"
  by (simp add: getAllBodies_def)

lemma getAllBodies_win_particles [simp]: "getAllBodies (win_particles a b n c g) = getAllBodies g"
  by (simp add: getAllBodies_def)

lemma getAllBodies_win_shake [simp]: "getAllBodies (win_shake a g) = getAllBodies g"
  by (simp add: getAllBodies_def)

lemma getAllBodies_win_status [simp]: "getAllBodies (win_status a g) = getAllBodies g"
  by (simp add: getAllBodies_def)

subsection \<open>\<^verbatim>\<open>clearWorld\<close>\<close>

lemma World_remove_append:
  "\<forall>c\<in>set cs. bodyId c \<noteq> bodyId a \<Longrightarrow> World_remove a (cs @ a # bs) = cs @ bs"
  by (induction cs) auto

text \<open>Removing the dynamic bodies one by one leaves the static ones, in their order. The
  list \<open>cs\<close> is the part of the world already passed, all of it static.\<close>

lemma foldl_World_remove:
  "same_object_same_state (cs @ bs) \<Longrightarrow> \<forall>c\<in>set cs. isStatic c \<Longrightarrow>
   foldl (\<lambda>w b. World_remove b w) (cs @ bs) (filter (\<lambda>b. \<not> isStatic b) bs) = cs @ filter isStatic bs"
proof (induction bs arbitrary: cs)
  case Nil
  then show ?case by simp
next
  case (Cons a bs)
  show ?case
  proof (cases "isStatic a")
    case True
    have "same_object_same_state ((cs @ [a]) @ bs)"
      using Cons.prems(1) by simp
    moreover have "\<forall>c\<in>set (cs @ [a]). isStatic c"
      using Cons.prems(2) True by simp
    ultimately have
      "foldl (\<lambda>w b. World_remove b w) ((cs @ [a]) @ bs) (filter (\<lambda>b. \<not> isStatic b) bs)
        = (cs @ [a]) @ filter isStatic bs"
      by (rule Cons.IH)
    then show ?thesis using True by simp
  next
    case False
    have other: "\<forall>c\<in>set cs. bodyId c \<noteq> bodyId a"
    proof
      fix c assume c: "c \<in> set cs"
      then have "isStatic c" using Cons.prems(2) by simp
      then have "c \<noteq> a" using False by auto
      then show "bodyId c \<noteq> bodyId a"
        using Cons.prems(1) c unfolding same_object_same_state_def by auto
    qed
    have "same_object_same_state (cs @ bs)"
      using Cons.prems(1) unfolding same_object_same_state_def by auto
    then have "foldl (\<lambda>w b. World_remove b w) (cs @ bs) (filter (\<lambda>b. \<not> isStatic b) bs)
        = cs @ filter isStatic bs"
      using Cons.prems(2) by (rule Cons.IH)
    then show ?thesis using False by (simp add: World_remove_append [OF other])
  qed
qed

text \<open>
  C9. \<^verbatim>\<open>clearWorld\<close> removes exactly the dynamic bodies: the world afterwards is the list
  of the static bodies, each as it was and in the same order, and nothing else of the state
  changes. Without an engine the call changes nothing. The world is one in which a
  \<open>bodyId\<close> names one object.
\<close>

theorem clearWorld_removes_exactly_non_static:
  "(engine g = None \<longrightarrow> clearWorld g = g)
   \<and> (\<forall>e. engine g = Some e \<and> same_object_same_state (bodies e) \<longrightarrow>
        clearWorld g = g\<lparr>engine := Some (e\<lparr>bodies := filter isStatic (bodies e)\<rparr>)\<rparr>)"
  using foldl_World_remove [of "[]"]
  by (simp add: clearWorld_def)

theorem clearWorld_removes_exactly_non_static_witness:
  "engine ((world_of [])\<lparr>engine := None\<rparr>) = None
   \<and> clearWorld ((world_of [])\<lparr>engine := None\<rparr>) = (world_of [])\<lparr>engine := None\<rparr>
   \<and> engine (world_of [crate, ground, barrel 3 0])
        = Some \<lparr>bodies = [crate, ground, barrel 3 0], gravity = PHYSICS_GRAVITY, timeScale = 1\<rparr>
   \<and> same_object_same_state [crate, ground, barrel 3 0]
   \<and> clearWorld (world_of [crate, ground, barrel 3 0]) = world_of [ground]"
proof -
  have n: "engine ((world_of [])\<lparr>engine := None\<rparr>) = None"
    by simp
  have e: "engine (world_of [crate, ground, barrel 3 0])
        = Some \<lparr>bodies = [crate, ground, barrel 3 0], gravity = PHYSICS_GRAVITY, timeScale = 1\<rparr>"
    by (simp add: world_of_def)
  have d: "same_object_same_state [crate, ground, barrel 3 0]"
    by (simp add: same_object_same_state_def crate_def ground_def barrel_def Bodies_new_def)
  have s: "filter isStatic [crate, ground, barrel 3 0] = [ground]"
    by (simp add: crate_def ground_def barrel_def Bodies_new_def)
  have "clearWorld ((world_of [])\<lparr>engine := None\<rparr>) = (world_of [])\<lparr>engine := None\<rparr>"
    using clearWorld_removes_exactly_non_static [of "(world_of [])\<lparr>engine := None\<rparr>"] n
    by blast
  moreover have "clearWorld (world_of [crate, ground, barrel 3 0]) = world_of [ground]"
    using clearWorld_removes_exactly_non_static [of "world_of [crate, ground, barrel 3 0]"] e d s
    by (simp add: world_of_def)
  ultimately show ?thesis using n e d by blast
qed

subsection \<open>The bounding box of a new body\<close>

text \<open>A rectangle's centre of mass is its middle, so its bounding box lies evenly about the
  position; a trapezoid's does not: the default anvil at (100, 100) reaches from 64.79
  to 129.79 in y.\<close>

lemma rectangle_centre:
  assumes "w \<noteq> 0" "h \<noteq> 0"
  shows "Vertices_centre (rectangle_path w h) = (w / 2, h / 2)"
  using assms
  by (simp add: Vertices_centre_def Vertices_area_def rectangle_path_def Vector_cross_def Let_def
      field_simps)

lemma Body_create_rectangle:
  assumes "0 < w" "0 < h"
  shows "Body_create i p (rectangle_path w h) = Bodies_new i p (w / 2, h / 2)"
proof -
  have c: "Vertices_centre (rectangle_path w h) = (w / 2, h / 2)"
    using assms by (simp add: rectangle_centre)
  have "Bounds_create (map (\<lambda>v. (fst v - w / 2 + fst p, snd v - h / 2 + snd p)) (rectangle_path w h))
      = ((fst p - w / 2, snd p - h / 2), (fst p + w / 2, snd p + h / 2))"
    using assms by (simp add: Bounds_create_def rectangle_path_def)
  then show ?thesis
    by (simp add: Body_create_def Bodies_new_def c Let_def)
qed

lemma anvil_path: "trapezoid_path 105 65 (2 / 5) = [(0, 0), (21, - 65), (84, - 65), (105, 0)]"
  by (simp add: trapezoid_path_def Let_def)

lemma anvil_centre: "Vertices_centre [(0, 0), (21, - 65), (84, - 65), (105, 0)] = (105 / 2, - (715 / 24))"
  by (simp add: Vertices_centre_def Vertices_area_def Vector_cross_def Let_def)

lemma anvil_body:
  "fst (createAnvil 100 100 no_options g)
     = (Body_create (nextBodyId g) (100, 100) (trapezoid_path 105 65 (2 / 5)))
          \<lparr>label := ''anvil'', customId := fst (generateId g), friction := 9 / 10,
           restitution := 5 / 100, density := 1 / 100, fillStyle := ''#2c3e50''\<rparr>"
  by (simp add: createAnvil_def create_def generateId_def Common_choose_def Common_random_def
      Let_def split_beta spread_def no_options_def with_default_def
      OBJECTS_ANVIL_def blank_def or_else_def)

lemma anvil_bounds:
  "bounds (fst (createAnvil 100 100 no_options g))
     = ((95 / 2, 100 - 845 / 24), (305 / 2, 100 + 715 / 24))"
  by (simp add: anvil_body anvil_path Body_create_def anvil_centre Bounds_create_def Let_def)

text \<open>The triangle is a polygon of three sides on a circle of half its size, its vertices
  written with three decimals: the default triangle at (100, 100) reaches from 75 to 112.5
  in x and from 78.349 to 121.651 in y.\<close>

lemma sqrt3_bounds: "173204 / 100000 < sqrt 3" "sqrt 3 < 173212 / 100000"
proof -
  show "173204 / 100000 < sqrt 3"
    by (rule real_less_rsqrt) (simp add: power2_eq_square)
  show "sqrt 3 < 173212 / 100000"
    by (rule real_less_lsqrt) (simp_all add: power2_eq_square)
qed

lemma toFixed3_sqrt3: "toFixed3 (sqrt 3 / 2 * 25) = 21651 / 1000"
proof -
  have pos: "0 < sqrt 3 / 2 * 25" by simp
  have "\<lfloor>sqrt 3 / 2 * 25 * 1000 + 1 / 2\<rfloor> = 21651"
    using sqrt3_bounds by (intro floor_unique) simp_all
  then show ?thesis
    using pos by (simp add: toFixed3_def)
qed

lemma toFixed3_neg: "toFixed3 (- a) = - toFixed3 a"
  by (simp add: toFixed3_def sgn_minus)

lemma toFixed3_simple: "toFixed3 (25 / 2) = 25 / 2" "toFixed3 25 = 25" "toFixed3 0 = 0"
  by (simp_all add: toFixed3_def)

lemma triangle_angles:
  "cos (5 * pi / 3) = 1 / 2" "sin (5 * pi / 3) = - (sqrt 3 / 2)"
proof -
  have e: "5 * pi / 3 = 2 * pi - pi / 3" by simp
  have "cos (2 * pi - pi / 3) = 1 / 2"
    unfolding cos_diff cos_two_pi sin_two_pi cos_60 sin_60 by simp
  then show "cos (5 * pi / 3) = 1 / 2" by (simp only: e)
  have "sin (2 * pi - pi / 3) = - (sqrt 3 / 2)"
    unfolding sin_diff cos_two_pi sin_two_pi cos_60 sin_60 by simp
  then show "sin (5 * pi / 3) = - (sqrt 3 / 2)" by (simp only: e)
qed

lemma triangle_path:
  "polygon_path 3 25 = [(25 / 2, 21651 / 1000), (- 25, 0), (25 / 2, - (21651 / 1000))]"
proof -
  have u: "[0..<3] = [0, 1, 2]" by (simp add: upt_rec)
  have a: "2 * pi / 3 * (1 / 2) = pi / 3" "pi / 3 + 2 * pi / 3 = pi"
    "pi / 3 + 2 * (2 * pi / 3) = 5 * pi / 3"
    by simp_all
  have "polygon_path 3 25
      = [(toFixed3 (cos (pi / 3) * 25), toFixed3 (sin (pi / 3) * 25)),
         (toFixed3 (cos pi * 25), toFixed3 (sin pi * 25)),
         (toFixed3 (cos (5 * pi / 3) * 25), toFixed3 (sin (5 * pi / 3) * 25))]"
    using a by (simp add: polygon_path_def Let_def u)
  also have "\<dots> = [(25 / 2, 21651 / 1000), (- 25, 0), (25 / 2, - (21651 / 1000))]"
    using toFixed3_sqrt3 toFixed3_neg [of "sqrt 3 / 2 * 25"]
    by (simp add: cos_60 sin_60 triangle_angles toFixed3_simple toFixed3_neg)
  finally show ?thesis .
qed


lemma triangle_centre:
  "Vertices_centre [(25 / 2, 21651 / 1000), (- 25, 0), (25 / 2, - (21651 / 1000))] = (0, 0)"
  by (simp add: Vertices_centre_def Vertices_area_def Vector_cross_def Let_def)

lemma triangle_body:
  "fst (createTriangle 100 100 no_options g)
     = (Body_create (nextBodyId g) (100, 100) (polygon_path 3 25))
          \<lparr>label := ''triangle'', customId := fst (generateId g), friction := 4 / 10,
           restitution := 2 / 10, density := 1 / 1000, fillStyle := ''#ffe66d''\<rparr>"
  by (simp add: createTriangle_def create_def generateId_def Common_choose_def Common_random_def
      Let_def split_beta spread_def no_options_def with_default_def OBJECTS_TRIANGLE_def blank_def)

lemma triangle_bounds:
  "bounds (fst (createTriangle 100 100 no_options g))
     = ((75, 78349 / 1000), (225 / 2, 121651 / 1000))"
  by (simp add: triangle_body triangle_path Body_create_def triangle_centre Bounds_create_def Let_def)

text \<open>A new body's fill colour is never empty: a falsy colour is replaced by one of the
  palette.\<close>

lemma Common_choose_palette: "fst (Common_choose palette g) \<in> set palette"
proof -
  define u where "u = fst (Common_random g)"
  have "(matterSeed g * 9301 + 49297) mod 233280 < 233280" by simp
  then have u: "0 \<le> u" "u < 1"
    by (simp_all add: u_def Common_random_def Let_def)
  have len: "real (length palette) = 5" by (simp add: palette_def)
  have "u * 5 < 5" using u by simp
  then have "\<lfloor>u * 5\<rfloor> < 5" by (simp add: floor_less_iff)
  then have "nat \<lfloor>u * 5\<rfloor> < 5" by linarith
  then have "nat \<lfloor>u * real (length palette)\<rfloor> < length palette"
    by (simp only: len) (simp add: palette_def)
  then have "palette ! nat \<lfloor>u * real (length palette)\<rfloor> \<in> set palette"
    by (rule nth_mem)
  then show ?thesis
    by (simp only: Common_choose_def u_def split_beta Let_def fst_conv)
qed

lemma create_fillStyle: "fillStyle (fst (create lbl config p vs g)) \<noteq> []"
proof -
  have "fst (Common_choose palette (snd (generateId g))) \<noteq> []"
    using Common_choose_palette [of "snd (generateId g)"] by (auto simp add: palette_def)
  then show ?thesis
    by (simp add: create_def Let_def split_beta Body_create_def)
qed

subsection \<open>\<^verbatim>\<open>createObject\<close> and \<^verbatim>\<open>toolSpawn\<close>\<close>

lemma createObject_default:
  "ty \<notin> set archetype_tags \<Longrightarrow> createObject ty px py opts g = createBox px py opts g"
  by (simp add: createObject_def archetype_tags_def OBJECTS_BOX_def OBJECTS_CIRCLE_def
      OBJECTS_TRIANGLE_def OBJECTS_PLANK_def OBJECTS_BALLOON_def OBJECTS_EXPLOSIVE_def
      OBJECTS_JELLY_def OBJECTS_ANVIL_def blank_def)

lemma createBox_label: "label (fst (createBox px py opts g)) = ''box''"
  by (simp add: createBox_def create_def generateId_def Body_create_def Common_choose_def
      Common_random_def Let_def split_beta)

lemma createBox_position: "position (fst (createBox px py opts g)) = (px, py)"
  by (simp add: createBox_def create_def generateId_def Body_create_def Common_choose_def
      Common_random_def Let_def split_beta)

lemma createBox_engine: "engine (snd (createBox px py opts g)) = engine g"
  by (simp add: createBox_def create_def generateId_def Common_choose_def Common_random_def
      Let_def split_beta)

text \<open>
  C10. A type that is none of the eight archetype tags takes the \<^verbatim>\<open>default\<close> arm of
  \<^verbatim>\<open>createObject\<close>: the result is what \<^verbatim>\<open>createBox\<close> gives for the same position and
  options, a body labelled \<^verbatim>\<open>box\<close> at that position. \<^verbatim>\<open>toolSpawn\<close> with such a type returns
  its result record, carrying the type as given and the new body's identifier, and with an
  engine the body is appended to the world.
\<close>

theorem createObject_falls_back_to_box:
  assumes "ty \<notin> set archetype_tags"
  shows "createObject ty px py opts g = createBox px py opts g
     \<and> label (fst (createObject ty px py opts g)) = ''box''
     \<and> position (fst (createObject ty px py opts g)) = (px, py)
     \<and> fst (toolSpawn ty (px, py) opts g)
         = \<lparr>sp_type = ty, sp_position = (px, py), sp_id = customId (fst (createBox px py opts g))\<rparr>
     \<and> (\<forall>e. engine g = Some e \<longrightarrow>
          getAllBodies (snd (toolSpawn ty (px, py) opts g)) = bodies e @ [fst (createBox px py opts g)])"
  using assms createBox_engine [of px py opts g]
  by (auto simp add: createObject_default createBox_label createBox_position toolSpawn_def
      Let_def split_beta getAllBodies_def addBody_def)

theorem createObject_falls_back_to_box_witness:
  "''rocket'' \<notin> set archetype_tags
   \<and> createObject ''rocket'' 100 100 no_options (world_of [ground])
       = createBox 100 100 no_options (world_of [ground])
   \<and> label (fst (createObject ''rocket'' 100 100 no_options (world_of [ground]))) = ''box''
   \<and> position (fst (createObject ''rocket'' 100 100 no_options (world_of [ground]))) = (100, 100)
   \<and> fst (toolSpawn ''rocket'' (100, 100) no_options (world_of [ground]))
         = \<lparr>sp_type = ''rocket'', sp_position = (100, 100), sp_id = ''obj_0_0''\<rparr>
   \<and> map label (getAllBodies (snd (toolSpawn ''rocket'' (100, 100) no_options (world_of [ground]))))
         = [''ground'', ''box'']"
proof -
  have t: "''rocket'' \<notin> set archetype_tags"
    by (simp add: archetype_tags_def OBJECTS_BOX_def OBJECTS_CIRCLE_def
      OBJECTS_TRIANGLE_def OBJECTS_PLANK_def OBJECTS_BALLOON_def OBJECTS_EXPLOSIVE_def
      OBJECTS_JELLY_def OBJECTS_ANVIL_def blank_def)
  have e: "engine (world_of [ground])
      = Some \<lparr>bodies = [ground], gravity = PHYSICS_GRAVITY, timeScale = 1\<rparr>"
    by (simp add: world_of_def)
  have c: "customId (fst (createBox 100 100 no_options (world_of [ground]))) = ''obj_0_0''"
    by (simp add: createBox_def create_def generateId_def Let_def world_of_def decimal_0
        Body_create_def Common_choose_def Common_random_def split_beta)
  have l: "label ground = ''ground''"
    by (simp add: ground_def Bodies_new_def)
  show ?thesis
    using createObject_falls_back_to_box [OF t, of 100 100 no_options "world_of [ground]"] e c t l
    by (simp add: createBox_label createBox_position)
qed

subsection \<open>\<^verbatim>\<open>toolScale\<close>\<close>

lemma currentScale_Some: "s \<noteq> 0 \<Longrightarrow> currentScale (b\<lparr>customScale := Some s\<rparr>) = s"
  by (simp add: currentScale_def or_else_def)

lemma toolScale_rejects:
  assumes "getBodyAtPosition pos g = Some b"
    and "\<not> (3 / 10 \<le> currentScale b * scale_factor (with_default gopt True)
            \<and> currentScale b * scale_factor (with_default gopt True) \<le> 3)"
  shows "toolScale pos gopt g = (None, g)"
  using assms by (cases "with_default gopt True") (auto simp add: toolScale_def Let_def)

lemma toolScale_bounded:
  assumes "scales_bounded g"
  shows "scales_bounded (snd (toolScale pos gopt g))"
proof (cases "getBodyAtPosition pos g")
  case None
  then show ?thesis using assms by (simp add: toolScale_def)
next
  case (Some b)
  let ?n = "currentScale b * scale_factor (with_default gopt True)"
  show ?thesis
  proof (cases "\<not> isStatic b \<and> 3 / 10 \<le> ?n \<and> ?n \<le> 3")
    case False
    then show ?thesis using assms Some by (auto simp add: toolScale_def Let_def)
  next
    case True
    then have n0: "?n \<noteq> 0" by auto
    have cs: "currentScale ((Body_scale b s s)\<lparr>customScale := Some ?n\<rparr>) = ?n" for s
      using n0 by (rule currentScale_Some)
    show ?thesis
      using assms Some True cs
      by (auto simp add: toolScale_def Let_def scaleBody_def updateBody_def scales_bounded_def
          getAllBodies_putBodies)
  qed
qed

lemma toolScale_calls_bounded:
  "scales_bounded g \<Longrightarrow> scales_bounded (toolScale_calls cs g)"
  by (induction cs arbitrary: g) (simp_all add: toolScale_bounded)

text \<open>A body that was never scaled tracks the scale 1, so a world of such bodies is within
  the limits.\<close>

lemma unscaled_bounded:
  "\<forall>b\<in>set (getAllBodies g). customScale b = None \<Longrightarrow> scales_bounded g"
  by (simp add: scales_bounded_def currentScale_def or_else_def)

text \<open>
  C3. If every body's tracked cumulative scale lies in [0.3, 3], it still does after any
  sequence of \<^verbatim>\<open>toolScale\<close> calls, growing or shrinking, at any positions: growing never
  takes a body above 3 and shrinking never below 0.3. A call on a body whose new cumulative
  scale would leave [0.3, 3] returns \<^verbatim>\<open>null\<close> and leaves the whole state as it was: no
  \<^verbatim>\<open>scaleBody\<close> call enters the trace and the body keeps its scale.
\<close>

theorem toolScale_keeps_scale_in_bounds:
  "(scales_bounded g \<longrightarrow> scales_bounded (toolScale_calls cs g))
   \<and> (\<forall>b. getBodyAtPosition pos g = Some b
          \<and> \<not> (3 / 10 \<le> currentScale b * scale_factor (with_default gopt True)
               \<and> currentScale b * scale_factor (with_default gopt True) \<le> 3)
        \<longrightarrow> toolScale pos gopt g = (None, g))"
  using toolScale_calls_bounded toolScale_rejects by blast

theorem toolScale_keeps_scale_in_bounds_witness:
  "scales_bounded (world_of [ground, scaled_crate])
   \<and> scales_bounded (toolScale_calls [((100, 100), Some True), ((100, 100), Some False)]
        (world_of [ground, scaled_crate]))
   \<and> getBodyAtPosition (100, 100) (world_of [ground, scaled_crate]) = Some scaled_crate
   \<and> \<not> (3 / 10 \<le> currentScale scaled_crate * scale_factor (with_default (Some True) True)
          \<and> currentScale scaled_crate * scale_factor (with_default (Some True) True) \<le> 3)
   \<and> toolScale (100, 100) (Some True) (world_of [ground, scaled_crate])
       = (None, world_of [ground, scaled_crate])"
proof -
  have sb: "scales_bounded (world_of [ground, scaled_crate])"
    by (simp add: scales_bounded_def world_of_def getAllBodies_def currentScale_def or_else_def
        ground_def scaled_crate_def crate_def Bodies_new_def)
  have gb: "getBodyAtPosition (100, 100) (world_of [ground, scaled_crate]) = Some scaled_crate"
    by (simp add: getBodyAtPosition_def world_of_def ground_def scaled_crate_def crate_def
        Bodies_new_def Bounds_contains_def)
  have out: "\<not> (3 / 10 \<le> currentScale scaled_crate * scale_factor (with_default (Some True) True)
          \<and> currentScale scaled_crate * scale_factor (with_default (Some True) True) \<le> 3)"
    by (simp add: currentScale_def or_else_def scaled_crate_def scale_factor_def
        with_default_def TOOLS_SCALE_scaleFactor_def)
  show ?thesis
    using toolScale_keeps_scale_in_bounds [of "world_of [ground, scaled_crate]"
        "[((100, 100), Some True), ((100, 100), Some False)]" "(100, 100)" "Some True"] sb gb out
    by blast
qed

subsection \<open>\<^verbatim>\<open>toolExplode\<close>\<close>

lemma Math_random_range: "0 \<le> fst (Math_random g) \<and> fst (Math_random g) < 1"
  by (simp add: Math_random_def frac_lt_1)

lemma length_forEach_draw [simp]: "length (fst (forEach_draw P f bs g)) = length bs"
  by (induction bs arbitrary: g) (auto simp add: split_beta Let_def)

lemma engine_Math_random [simp]: "engine (snd (Math_random g)) = engine g"
  by (simp add: Math_random_def)

lemma engine_forEach_draw [simp]: "engine (snd (forEach_draw P f bs g)) = engine g"
  by (induction bs arbitrary: g) (auto simp add: split_beta Let_def)



lemma magnitude_scaled:
  "Vector_magnitude (fst v * k, snd v * k) = Vector_magnitude v * \<bar>k\<bar>"
proof -
  have "fst v * k * (fst v * k) + snd v * k * (snd v * k) = (fst v * fst v + snd v * snd v) * (k * k)"
    by (simp add: algebra_simps)
  then show ?thesis
    by (simp add: Vector_magnitude_def real_sqrt_mult)
qed

lemma magnitude_normalise:
  assumes nz: "Vector_magnitude v \<noteq> 0"
  shows "Vector_magnitude (Vector_normalise v) = 1"
proof -
  define m where "m = Vector_magnitude v"
  have sq: "m * m = fst v * fst v + snd v * snd v"
    by (simp add: m_def Vector_magnitude_def)
  have m0: "m \<noteq> 0" using nz by (simp add: m_def)
  have n: "Vector_normalise v = (fst v / m, snd v / m)"
    using m0 by (simp add: Vector_normalise_def Let_def m_def)
  have "fst v / m * (fst v / m) + snd v / m * (snd v / m) = (fst v * fst v + snd v * snd v) / (m * m)"
    by (simp add: add_divide_distrib)
  also have "\<dots> = 1" using m0 by (simp only: sq [symmetric]) simp
  finally have "sqrt (fst v / m * (fst v / m) + snd v / m * (snd v / m)) = 1" by simp
  then show ?thesis
    by (simp only: n Vector_magnitude_def fst_conv snd_conv)
qed









lemma magnitude_axis: "Vector_magnitude (a, 0) = \<bar>a\<bar>"
  by (simp add: Vector_magnitude_def)



lemma engine_world_of: "engine (world_of bs) = Some \<lparr>bodies = bs, gravity = PHYSICS_GRAVITY, timeScale = 1\<rparr>"
  by (simp add: world_of_def)



subsection \<open>\<^verbatim>\<open>toolPush\<close>\<close>

lemma toolPush_bodies:
  assumes "engine g = Some e"
  shows "getAllBodies (snd (toolPush c dir fopt g))
     = map (\<lambda>b. if pushed c b then push c dir (with_default fopt TOOLS_PUSH_force) b else b) (bodies e)"
  using assms
  by (simp add: toolPush_def Let_def getAllBodies_putBodies) (simp add: getAllBodies_def)

lemma pushed_iff: "pushed c b \<longleftrightarrow> \<not> isStatic b \<and> distance_from c b < 120"
  by (simp add: pushed_def distance_from_def)

lemma received_push:
  "received b (push c dir f b)
     = (fst dir * f * (1 - distance_from c b / 120) * (15 / 10),
        snd dir * f * (1 - distance_from c b / 120) * (15 / 10))"
  by (simp add: received_def push_def Let_def applyForce_def Body_applyForce_def Vector_sub_def
      distance_from_def)

text \<open>
  C5 (as amended). \<^verbatim>\<open>toolPush\<close> adds to every dynamic body closer than 120 to the push
  position the force \<open>direction * force * (1 - distance / 120) * 1.5\<close>, where
  \<open>direction\<close> is the argument of the call: the force has the same direction for every
  body and is attenuated by the linear falloff. Static bodies and bodies at distance 120
  or more are left as they were.
\<close>

theorem toolPush_force_along_direction:
  assumes "engine g = Some e" and "i < length (bodies e)"
  shows "(\<not> isStatic (bodies e ! i) \<and> distance_from c (bodies e ! i) < 120 \<longrightarrow>
            received (bodies e ! i) (getAllBodies (snd (toolPush c dir fopt g)) ! i)
              = (fst dir * with_default fopt TOOLS_PUSH_force
                   * (1 - distance_from c (bodies e ! i) / 120) * (15 / 10),
                 snd dir * with_default fopt TOOLS_PUSH_force
                   * (1 - distance_from c (bodies e ! i) / 120) * (15 / 10)))
     \<and> (isStatic (bodies e ! i) \<or> 120 \<le> distance_from c (bodies e ! i) \<longrightarrow>
            getAllBodies (snd (toolPush c dir fopt g)) ! i = bodies e ! i)"
  using assms by (auto simp add: toolPush_bodies pushed_iff received_push)

lemma distance_crate: "distance_from (90, 100) crate = 10"
  by (simp add: distance_from_def crate_def Bodies_new_def Vector_sub_def magnitude_axis)

lemma crate_dynamic: "\<not> isStatic crate"
  by (simp add: crate_def Bodies_new_def)

theorem toolPush_force_along_direction_witness:
  "engine (world_of [crate, ground]) = Some \<lparr>bodies = [crate, ground], gravity = PHYSICS_GRAVITY, timeScale = 1\<rparr>
   \<and> \<not> isStatic crate \<and> distance_from (90, 100) crate < 120
   \<and> received crate (getAllBodies (snd (toolPush (90, 100) (0, - 1) None (world_of [crate, ground]))) ! 0)
       = (0, - (11 / 160))
   \<and> isStatic ground
   \<and> getAllBodies (snd (toolPush (90, 100) (0, - 1) None (world_of [crate, ground]))) ! 1 = ground"
  using toolPush_force_along_direction [OF engine_world_of, of 0 "[crate, ground]" "(90, 100)" "(0, - 1)" None]
    toolPush_force_along_direction [OF engine_world_of, of 1 "[crate, ground]" "(90, 100)" "(0, - 1)" None]
  by (simp add: distance_crate crate_dynamic engine_world_of with_default_def TOOLS_PUSH_force_def)
     (simp add: ground_def)

text \<open>A push at (90, 100) with direction (0, -1): the box at (100, 100) lies to the right of
  the push position, and the force it receives points straight up, not to the right.\<close>

theorem toolPush_not_radial_counterexample:
  "\<not> isStatic crate \<and> distance_from (90, 100) crate < 120
   \<and> Vector_sub (position crate) (90, 100) = (10, 0)
   \<and> received crate (getAllBodies (snd (toolPush (90, 100) (0, - 1) None (world_of [crate, ground]))) ! 0)
       = (0, - (11 / 160))
   \<and> \<not> along (received crate
              (getAllBodies (snd (toolPush (90, 100) (0, - 1) None (world_of [crate, ground]))) ! 0))
            (Vector_sub (position crate) (90, 100))"
proof -
  have r: "received crate (getAllBodies (snd (toolPush (90, 100) (0, - 1) None (world_of [crate, ground]))) ! 0)
       = (0, - (11 / 160))"
    by (simp add: toolPush_bodies [OF engine_world_of] pushed_iff distance_crate crate_dynamic
        received_push with_default_def TOOLS_PUSH_force_def)
  have v: "Vector_sub (position crate) (90, 100) = (10, 0)"
    by (simp add: crate_def Bodies_new_def Vector_sub_def)
  show ?thesis
    by (simp add: r v crate_dynamic distance_crate along_def)
qed

subsection \<open>\<^verbatim>\<open>toggleChaos\<close>\<close>

lemma view_emit [simp]: "chaos_view (emit e g) = chaos_view g"
  by (simp add: chaos_view_def emit_def)

lemma view_putBodies [simp]: "chaos_view (putBodies bs g) = chaos_view g"
  by (simp add: chaos_view_def putBodies_def split: option.splits)

lemma view_setGravity [simp]: "chaos_view (setGravity v g) = chaos_view g"
  by (simp add: chaos_view_def setGravity_def split: option.splits)

lemma view_Math_random [simp]: "chaos_view (snd (Math_random g)) = chaos_view g"
  by (simp add: chaos_view_def Math_random_def)

lemma view_forEach_draw [simp]: "chaos_view (snd (forEach_draw P f bs g)) = chaos_view g"
  by (induction bs arbitrary: g) (auto simp add: split_beta Let_def)

lemma view_win_particles [simp]: "chaos_view (win_particles a b n c g) = chaos_view g"
  by (simp add: win_particles_def)

lemma view_win_shake [simp]: "chaos_view (win_shake a g) = chaos_view g"
  by (simp add: win_shake_def)

lemma view_triggerScreenShake [simp]: "chaos_view (triggerScreenShake a g) = chaos_view g"
  by (simp add: triggerScreenShake_def)

lemma view_spawnParticles [simp]: "chaos_view (spawnParticles a b n c g) = chaos_view g"
  by (simp add: spawnParticles_def)

lemma view_showStatus [simp]: "chaos_view (showStatus m g) = chaos_view g"
  by (simp add: showStatus_def)

lemma view_toolExplode [simp]: "chaos_view (snd (toolExplode c fo ro g)) = chaos_view g"
  by (simp add: toolExplode_def Let_def split_beta)

lemma view_random_index [simp]: "chaos_view (snd (random_index n g)) = chaos_view g"
  by (simp add: random_index_def split_beta)

lemma random_index_less: "0 < n \<Longrightarrow> fst (random_index n g) < n"
proof -
  assume n: "0 < n"
  let ?u = "fst (Math_random g)"
  have u: "0 \<le> ?u" "?u < 1" using Math_random_range [of g] by simp_all
  have "?u * real n < real n" using u n by simp
  then have "\<lfloor>?u * real n\<rfloor> < int n" by (simp add: floor_less_iff)
  moreover have "0 \<le> \<lfloor>?u * real n\<rfloor>" using u by simp
  ultimately have "nat \<lfloor>?u * real n\<rfloor> < n" by linarith
  then show ?thesis by (simp add: random_index_def split_beta)
qed

lemma view_rules: "\<forall>rule\<in>set RULES. \<forall>g. chaos_view (snd rule g) = chaos_view g"
  by (simp add: RULES_def flipGravityRule_def spinAllObjects_def explodeRandomObject_def
      makeEverythingFloaty_def makeEverythingBouncy_def removeFriction_def launchEverythingUp_def
      Let_def split_beta)

lemma view_applyRandomRule [simp]: "chaos_view (applyRandomRule g) = chaos_view g"
proof -
  have "fst (random_index (length RULES) g) < length RULES"
    by (rule random_index_less) (simp add: RULES_def)
  then have "RULES ! fst (random_index (length RULES) g) \<in> set RULES"
    by (rule nth_mem)
  then have "chaos_view (snd (RULES ! fst (random_index (length RULES) g)) h) = chaos_view h" for h
    using view_rules by blast
  then have "chaos_view (applyRandomRule g)
     = chaos_view ((snd (random_index (length RULES) g))\<lparr>currentRule := Some (fst (random_index (length RULES) g))\<rparr>)"
    by (simp add: applyRandomRule_def Let_def split_beta)
  also have "\<dots> = chaos_view g"
    using view_random_index [of "length RULES" g] by (simp add: chaos_view_def)
  finally show ?thesis .
qed

lemma intervals_clear_if_held: "intervals (clear_if_held v g) = drop_held v (intervals g)"
  by (simp add: clear_if_held_def drop_held_def clearInterval_def split: option.splits)

lemma view_clear_if_held:
  "chaos_view (clear_if_held v g) = (drop_held v (intervals g), nextTimer g, floodInterval g,
     rulesInterval g, explosionCheckInterval g, chaosEnabled g, statusCallback g)"
  by (simp add: chaos_view_def clear_if_held_def drop_held_def clearInterval_def split: option.splits)

lemma view_startObjectFlood:
  "chaos_view (startObjectFlood n ms g)
     = (drop_held (floodInterval g) (intervals g) @ [(nextTimer g + 1, ms, FloodTick n)],
        nextTimer g + 1, Some (nextTimer g + 1), rulesInterval g, explosionCheckInterval g,
        chaosEnabled g, statusCallback g)"
  using view_clear_if_held [of "floodInterval g" g]
  by (simp add: startObjectFlood_def Let_def setInterval_def chaos_view_def showStatus_def emit_def)

lemma view_startSuddenRules:
  "chaos_view (startSuddenRules ms g)
     = (drop_held (rulesInterval g) (intervals g) @ [(nextTimer g + 1, ms, RulesTick)],
        nextTimer g + 1, floodInterval g, Some (nextTimer g + 1), explosionCheckInterval g,
        chaosEnabled g, statusCallback g)"
proof -
  let ?g2 = "showStatus ''SUDDEN RULES MODE!'' ((clear_if_held (rulesInterval g) g)\<lparr>suddenRulesEnabled := True\<rparr>)"
  have "chaos_view (applyRandomRule ?g2) = chaos_view ?g2" by simp
  also have "\<dots> = (drop_held (rulesInterval g) (intervals g), nextTimer g, floodInterval g,
     rulesInterval g, explosionCheckInterval g, chaosEnabled g, statusCallback g)"
    using view_clear_if_held [of "rulesInterval g" g]
    by (simp add: chaos_view_def showStatus_def emit_def)
  finally show ?thesis
    by (simp add: startSuddenRules_def Let_def setInterval_def chaos_view_def)
qed

lemma view_startExplosionChain:
  "chaos_view (startExplosionChain g)
     = (drop_held (explosionCheckInterval g) (intervals g) @ [(nextTimer g + 1, 100, ExplosionCheck)],
        nextTimer g + 1, floodInterval g, rulesInterval g, Some (nextTimer g + 1),
        chaosEnabled g, statusCallback g)"
  using view_clear_if_held [of "explosionCheckInterval g" g]
  by (simp add: startExplosionChain_def Let_def setInterval_def chaos_view_def)

lemma view_stopObjectFlood:
  "chaos_view (stopObjectFlood g)
     = (drop_held (floodInterval g) (intervals g), nextTimer g,
        (if held (floodInterval g) then None else floodInterval g), rulesInterval g,
        explosionCheckInterval g, chaosEnabled g, statusCallback g)"
  using view_clear_if_held [of "floodInterval g" g]
  by (auto simp add: stopObjectFlood_def Let_def chaos_view_def held_def drop_held_def split: option.splits)

lemma view_stopSuddenRules:
  "chaos_view (stopSuddenRules g)
     = (drop_held (rulesInterval g) (intervals g), nextTimer g, floodInterval g,
        (if held (rulesInterval g) then None else rulesInterval g),
        explosionCheckInterval g, chaosEnabled g, statusCallback g)"
proof -
  have "chaos_view (stopSuddenRules g) = chaos_view
     ((if held (rulesInterval g) then (clear_if_held (rulesInterval g) g)\<lparr>rulesInterval := None\<rparr> else g)
        \<lparr>suddenRulesEnabled := False\<rparr>)"
    by (simp add: stopSuddenRules_def Let_def)
  then show ?thesis
    using view_clear_if_held [of "rulesInterval g" g]
    by (auto simp add: chaos_view_def held_def drop_held_def split: option.splits)
qed

lemma view_stopExplosionChain:
  "chaos_view (stopExplosionChain g)
     = (drop_held (explosionCheckInterval g) (intervals g), nextTimer g, floodInterval g,
        rulesInterval g, (if held (explosionCheckInterval g) then None else explosionCheckInterval g),
        chaosEnabled g, statusCallback g)"
  using view_clear_if_held [of "explosionCheckInterval g" g]
  by (auto simp add: stopExplosionChain_def Let_def chaos_view_def held_def drop_held_def split: option.splits)

lemma view_fields:
  "chaos_view g = (a, b, c, d, e, f, s) \<Longrightarrow>
   intervals g = a \<and> nextTimer g = b \<and> floodInterval g = c \<and> rulesInterval g = d
   \<and> explosionCheckInterval g = e \<and> chaosEnabled g = f \<and> statusCallback g = s"
  by (simp add: chaos_view_def)

lemma view_enableChaos:
  "chaos_view (enableChaos g)
     = (drop_held (explosionCheckInterval g)
          (drop_held (rulesInterval g)
             (drop_held (floodInterval g) (intervals g) @ [(nextTimer g + 1, 3000, FloodTick 3)])
           @ [(nextTimer g + 2, 12000, RulesTick)])
        @ [(nextTimer g + 3, 100, ExplosionCheck)],
        nextTimer g + 3, Some (nextTimer g + 1), Some (nextTimer g + 2), Some (nextTimer g + 3),
        True, statusCallback g)"
proof -
  define s1 where "s1 = startObjectFlood 3 3000 (g\<lparr>chaosEnabled := True\<rparr>)"
  define s2 where "s2 = startSuddenRules 12000 s1"
  define s3 where "s3 = startExplosionChain s2"
  have v1: "chaos_view s1 = (drop_held (floodInterval g) (intervals g) @ [(nextTimer g + 1, 3000, FloodTick 3)],
        nextTimer g + 1, Some (nextTimer g + 1), rulesInterval g, explosionCheckInterval g,
        True, statusCallback g)"
    by (simp add: s1_def view_startObjectFlood)
  have v2: "chaos_view s2 = (drop_held (rulesInterval g)
             (drop_held (floodInterval g) (intervals g) @ [(nextTimer g + 1, 3000, FloodTick 3)])
           @ [(nextTimer g + 2, 12000, RulesTick)],
        nextTimer g + 2, Some (nextTimer g + 1), Some (nextTimer g + 2), explosionCheckInterval g,
        True, statusCallback g)"
    using view_fields [OF v1] by (simp add: s2_def view_startSuddenRules)
  have v3: "chaos_view s3 = (drop_held (explosionCheckInterval g)
          (drop_held (rulesInterval g)
             (drop_held (floodInterval g) (intervals g) @ [(nextTimer g + 1, 3000, FloodTick 3)])
           @ [(nextTimer g + 2, 12000, RulesTick)])
        @ [(nextTimer g + 3, 100, ExplosionCheck)],
        nextTimer g + 3, Some (nextTimer g + 1), Some (nextTimer g + 2), Some (nextTimer g + 3),
        True, statusCallback g)"
    using view_fields [OF v2] by (simp add: s3_def view_startExplosionChain)
  have "enableChaos g = showStatus ''CHAOS MODE ENABLED!'' s3"
    by (simp add: enableChaos_def s3_def s2_def s1_def)
  then show ?thesis using v3 by simp
qed

lemma view_disableChaos:
  "chaos_view (disableChaos g)
     = (drop_held (explosionCheckInterval g) (drop_held (rulesInterval g)
          (drop_held (floodInterval g) (intervals g))),
        nextTimer g,
        (if held (floodInterval g) then None else floodInterval g),
        (if held (rulesInterval g) then None else rulesInterval g),
        (if held (explosionCheckInterval g) then None else explosionCheckInterval g),
        False, statusCallback g)"
proof -
  define s1 where "s1 = stopObjectFlood (g\<lparr>chaosEnabled := False\<rparr>)"
  define s2 where "s2 = stopSuddenRules s1"
  define s3 where "s3 = stopExplosionChain s2"
  have v1: "chaos_view s1 = (drop_held (floodInterval g) (intervals g), nextTimer g,
        (if held (floodInterval g) then None else floodInterval g), rulesInterval g,
        explosionCheckInterval g, False, statusCallback g)"
    by (simp add: s1_def view_stopObjectFlood)
  have v2: "chaos_view s2 = (drop_held (rulesInterval g) (drop_held (floodInterval g) (intervals g)),
        nextTimer g, (if held (floodInterval g) then None else floodInterval g),
        (if held (rulesInterval g) then None else rulesInterval g),
        explosionCheckInterval g, False, statusCallback g)"
    using view_fields [OF v1] by (simp add: s2_def view_stopSuddenRules)
  have v3: "chaos_view s3 = (drop_held (explosionCheckInterval g) (drop_held (rulesInterval g)
          (drop_held (floodInterval g) (intervals g))),
        nextTimer g,
        (if held (floodInterval g) then None else floodInterval g),
        (if held (rulesInterval g) then None else rulesInterval g),
        (if held (explosionCheckInterval g) then None else explosionCheckInterval g),
        False, statusCallback g)"
    using view_fields [OF v2] by (simp add: s3_def view_stopExplosionChain)
  have "disableChaos g = showStatus ''Chaos disabled'' s3"
    by (simp add: disableChaos_def s3_def s2_def s1_def)
  then show ?thesis using v3 by simp
qed

lemma toggleChaos_flag: "chaosEnabled (snd (toggleChaos g)) = (\<not> chaosEnabled g)"
  using view_fields [OF view_enableChaos [of g]] view_fields [OF view_disableChaos [of g]]
  by (simp add: toggleChaos_def Let_def)

lemma toggleChaos_result: "fst (toggleChaos g) = chaosEnabled (snd (toggleChaos g))"
  by (simp add: toggleChaos_def Let_def)

lemma set_drop_held:
  "set (drop_held v ts) = {t \<in> set ts. \<not> (held v \<and> v = Some (fst t))}"
  by (auto simp add: drop_held_def held_def split: option.splits)

lemma drop_held_tracked:
  assumes "timers_tracked g"
  shows "drop_held (Some (nextTimer g + 3)) (drop_held (Some (nextTimer g + 2))
           (drop_held (Some (nextTimer g + 1))
              (drop_held (explosionCheckInterval g)
                (drop_held (rulesInterval g)
                   (drop_held (floodInterval g) (intervals g) @ [(nextTimer g + 1, 3000, FloodTick 3)])
                 @ [(nextTimer g + 2, 12000, RulesTick)])
               @ [(nextTimer g + 3, 100, ExplosionCheck)]))) = []"
proof -
  have "set (drop_held (Some (nextTimer g + 3)) (drop_held (Some (nextTimer g + 2))
           (drop_held (Some (nextTimer g + 1))
              (drop_held (explosionCheckInterval g)
                (drop_held (rulesInterval g)
                   (drop_held (floodInterval g) (intervals g) @ [(nextTimer g + 1, 3000, FloodTick 3)])
                 @ [(nextTimer g + 2, 12000, RulesTick)])
               @ [(nextTimer g + 3, 100, ExplosionCheck)])))) = {}"
    using assms by (auto simp add: set_drop_held timers_tracked_def held_def)
  then show ?thesis by simp
qed

lemma tracked_view:
  "chaos_view g' = (ts, n, fi, ri, ei, c, s) \<Longrightarrow>
   timers_tracked g' \<longleftrightarrow> (\<forall>t\<in>set ts. fst t \<noteq> 0 \<and> (fi = Some (fst t) \<or> ri = Some (fst t) \<or> ei = Some (fst t)))"
  by (simp add: chaos_view_def timers_tracked_def)

text \<open>Every operation of the module keeps each active timer held by a handle variable:
  a start clears the timer its variable holds before it stores the new handle, and a stop
  clears the timer before it resets the variable.\<close>

lemma timers_tracked_start:
  assumes "timers_tracked g"
  shows "timers_tracked (startObjectFlood n ms g)" and "timers_tracked (startSuddenRules ms g)"
    and "timers_tracked (startExplosionChain g)"
  using assms
  unfolding tracked_view [OF view_startObjectFlood] tracked_view [OF view_startSuddenRules]
    tracked_view [OF view_startExplosionChain]
  by (auto simp add: timers_tracked_def set_drop_held held_def)

lemma timers_tracked_stop:
  assumes "timers_tracked g"
  shows "timers_tracked (stopObjectFlood g)" and "timers_tracked (stopSuddenRules g)"
    and "timers_tracked (stopExplosionChain g)"
  using assms
  unfolding tracked_view [OF view_stopObjectFlood] tracked_view [OF view_stopSuddenRules]
    tracked_view [OF view_stopExplosionChain]
  by (auto simp add: timers_tracked_def set_drop_held held_def)

lemma timers_tracked_toggle:
  assumes "timers_tracked g"
  shows "timers_tracked (snd (toggleChaos g))"
proof -
  have "timers_tracked (enableChaos g)"
    using assms unfolding tracked_view [OF view_enableChaos]
    by (auto simp add: timers_tracked_def set_drop_held held_def)
  moreover have "timers_tracked (disableChaos g)"
    using assms unfolding tracked_view [OF view_disableChaos]
    by (auto simp add: timers_tracked_def set_drop_held held_def)
  ultimately show ?thesis by (simp add: toggleChaos_def Let_def)
qed

text \<open>
  C6. Two calls of \<^verbatim>\<open>toggleChaos\<close> in a row return the chaos flag to its value before
  the first call, and the second call reports that value. If chaos was disabled before
  the first call, the flood, rules and explosion-check handle variables are all \<^verbatim>\<open>null\<close>
  after the second call, and no repeating timer is active: the timers the first call
  started are cleared by the second, and a timer that was running before (held by one of
  the three handle variables, as every timer the module starts is) is cleared by the
  first.
\<close>

theorem toggleChaos_twice:
  "chaosEnabled (snd (toggleChaos (snd (toggleChaos g)))) = chaosEnabled g
   \<and> fst (toggleChaos (snd (toggleChaos g))) = chaosEnabled g
   \<and> (\<not> chaosEnabled g \<longrightarrow>
        floodInterval (snd (toggleChaos (snd (toggleChaos g)))) = None
        \<and> rulesInterval (snd (toggleChaos (snd (toggleChaos g)))) = None
        \<and> explosionCheckInterval (snd (toggleChaos (snd (toggleChaos g)))) = None
        \<and> (timers_tracked g \<longrightarrow> intervals (snd (toggleChaos (snd (toggleChaos g)))) = []))"
proof (intro conjI impI)
  show "chaosEnabled (snd (toggleChaos (snd (toggleChaos g)))) = chaosEnabled g"
    by (simp add: toggleChaos_flag)
  then show "fst (toggleChaos (snd (toggleChaos g))) = chaosEnabled g"
    by (simp add: toggleChaos_result)
next
  assume a: "\<not> chaosEnabled g"
  have on: "snd (toggleChaos g) = enableChaos g"
    using a by (simp add: toggleChaos_def Let_def)
  note f = view_fields [OF view_enableChaos [of g]]
  have off: "snd (toggleChaos (enableChaos g)) = disableChaos (enableChaos g)"
    using f by (simp add: toggleChaos_def Let_def)
  have v: "chaos_view (disableChaos (enableChaos g))
      = (drop_held (Some (nextTimer g + 3)) (drop_held (Some (nextTimer g + 2))
           (drop_held (Some (nextTimer g + 1))
              (drop_held (explosionCheckInterval g)
                (drop_held (rulesInterval g)
                   (drop_held (floodInterval g) (intervals g) @ [(nextTimer g + 1, 3000, FloodTick 3)])
                 @ [(nextTimer g + 2, 12000, RulesTick)])
               @ [(nextTimer g + 3, 100, ExplosionCheck)]))),
         nextTimer g + 3, None, None, None, False, statusCallback g)"
    using f by (simp add: view_disableChaos held_def)
  note r = view_fields [OF v]
  show "floodInterval (snd (toggleChaos (snd (toggleChaos g)))) = None"
    using r by (simp add: on off)
  show "rulesInterval (snd (toggleChaos (snd (toggleChaos g)))) = None"
    using r by (simp add: on off)
  show "explosionCheckInterval (snd (toggleChaos (snd (toggleChaos g)))) = None"
    using r by (simp add: on off)
  assume t: "timers_tracked g"
  show "intervals (snd (toggleChaos (snd (toggleChaos g)))) = []"
    using r drop_held_tracked [OF t] by (simp add: on off)
qed

lemma mounted_view:
  "chaos_view mounted = ([(1, 100, ExplosionCheck)], 1, None, None, Some 1, False, True)"
  by (simp add: mounted_def view_startExplosionChain world_of_def drop_held_def)

theorem toggleChaos_twice_witness:
  "\<not> chaosEnabled mounted \<and> timers_tracked mounted
   \<and> intervals mounted = [(1, 100, ExplosionCheck)]
   \<and> chaosEnabled (snd (toggleChaos (snd (toggleChaos mounted)))) = chaosEnabled mounted
   \<and> intervals (snd (toggleChaos (snd (toggleChaos mounted)))) = []
   \<and> floodInterval (snd (toggleChaos (snd (toggleChaos mounted)))) = None
   \<and> rulesInterval (snd (toggleChaos (snd (toggleChaos mounted)))) = None
   \<and> explosionCheckInterval (snd (toggleChaos (snd (toggleChaos mounted)))) = None"
proof -
  note f = view_fields [OF mounted_view]
  have t: "timers_tracked mounted"
    using f by (simp add: timers_tracked_def)
  show ?thesis
    using toggleChaos_twice [of mounted] f t by simp
qed

subsection \<open>\<^verbatim>\<open>updateBlackHoles\<close>\<close>

lemma pull_one_skip:
  "isStatic b \<or> label b = ''blackhole'' \<Longrightarrow> pull_one p b cs g = (b, cs, g)"
  by (simp add: pull_one_def)

lemma pull_one_centre:
  assumes "\<not> isStatic b" "label b \<noteq> ''blackhole''" "Vector_magnitude (toward p b) < 20"
  shows "velocity (fst (pull_one p b cs g)) = (0, 0)"
    and "bodyId b \<in> set (fst (snd (pull_one p b cs g)))"
    and "angularVelocity (fst (pull_one p b cs g)) = angularVelocity b"
  using assms by (simp_all add: pull_one_def toward_def Let_def Body_setVelocity_def)

lemma pull_one_velocity:
  assumes "\<not> isStatic b" "label b \<noteq> ''blackhole''" "20 \<le> Vector_magnitude (toward p b)"
  shows "velocity (fst (pull_one p b cs g))
     = (fst (velocity b) + fst (pull_increment p b), snd (velocity b) + snd (pull_increment p b))"
  using assms
  by (simp add: pull_one_def toward_def pull_increment_def Let_def Body_setVelocity_def
      Body_setAngularVelocity_def split_beta)

lemma pull_one_consumed:
  assumes "\<not> isStatic b" "label b \<noteq> ''blackhole''" "Vector_magnitude (toward p b) < 80"
  shows "bodyId b \<in> set (fst (snd (pull_one p b cs g)))"
  using assms by (auto simp add: pull_one_def toward_def Let_def split_beta)

lemma pull_one_mono: "set cs \<subseteq> set (fst (snd (pull_one p b cs g)))"
  by (auto simp add: pull_one_def Let_def split_beta)

lemma pull_one_spin:
  "\<bar>angularVelocity (fst (pull_one p b cs g)) - angularVelocity b\<bar> \<le> 15 / 200"
proof -
  let ?u = "fst (Math_random g)"
  have u: "0 \<le> ?u" "?u < 1" using Math_random_range [of g] by simp_all
  have "(?u - 5 / 10) * (15 / 100) \<le> 15 / 200" using u by (simp add: field_simps)
  moreover have "- ((?u - 5 / 10) * (15 / 100)) \<le> 15 / 200" using u by (simp add: field_simps)
  ultimately have "\<bar>(?u - 5 / 10) * (15 / 100)\<bar> \<le> 15 / 200"
    by (rule abs_leI)
  then show ?thesis
    by (simp add: pull_one_def Let_def split_beta Body_setVelocity_def Body_setAngularVelocity_def)
qed

lemma pull_one_no_spin:
  assumes "250 \<le> Vector_magnitude (toward p b)"
  shows "angularVelocity (fst (pull_one p b cs g)) = angularVelocity b"
  using assms
  by (simp add: pull_one_def toward_def Let_def split_beta Body_setVelocity_def)

lemma magnitude_sq: "Vector_magnitude v * Vector_magnitude v = fst v * fst v + snd v * snd v"
  by (simp add: Vector_magnitude_def)

lemma pull_increment_magnitude:
  assumes "0 < Vector_magnitude (toward p b)"
  shows "Vector_magnitude (pull_increment p b) = min 8 (400 / Vector_magnitude (toward p b)) * (3 / 10)"
proof -
  have nz: "Vector_magnitude (toward p b) \<noteq> 0" using assms by simp
  have "0 \<le> min 8 (400 / Vector_magnitude (toward p b)) * (3 / 10)"
    using assms by simp
  then show ?thesis
    unfolding pull_increment_def
    by (simp only: magnitude_scaled magnitude_normalise [OF nz])
qed

lemma pull_increment_along:
  assumes "0 < Vector_magnitude (toward p b)"
  shows "along (pull_increment p b) (toward p b)"
proof -
  define t where "t = toward p b"
  define d where "d = Vector_magnitude t"
  define k where "k = min 8 (400 / d) * (3 / 10)"
  have d: "0 < d" using assms by (simp add: d_def t_def)
  have k: "0 < k" using d by (simp add: k_def)
  have sq: "d * d = fst t * fst t + snd t * snd t"
    by (simp add: d_def magnitude_sq)
  have inc: "pull_increment p b = (fst t / d * k, snd t / d * k)"
    using d by (simp add: pull_increment_def Vector_normalise_def Let_def t_def d_def k_def)
  have "fst t / d * k * fst t + snd t / d * k * snd t = (fst t * fst t + snd t * snd t) * (k / d)"
    by (simp add: algebra_simps add_divide_distrib)
  also have "\<dots> = d * d * (k / d)" by (simp only: sq)
  also have "\<dots> > 0" using d k by simp
  finally have dot: "0 < fst t / d * k * fst t + snd t / d * k * snd t" .
  have cross: "fst t / d * k * snd t - snd t / d * k * fst t = 0"
    by (simp add: algebra_simps)
  show ?thesis
    using dot cross by (simp add: along_def inc t_def [symmetric])
qed


lemma length_pull_each [simp]: "length (fst (pull_each p bs cs g)) = length bs"
  by (induction bs arbitrary: cs g) (auto simp add: split_beta Let_def)

lemma pull_each_mono: "set cs \<subseteq> set (fst (snd (pull_each p bs cs g)))"
proof (induction bs arbitrary: cs g)
  case Nil
  then show ?case by simp
next
  case (Cons b bs)
  have "set cs \<subseteq> set (fst (snd (pull_one p b cs g)))" by (rule pull_one_mono)
  also have "\<dots> \<subseteq> set (fst (snd (pull_each p bs (fst (snd (pull_one p b cs g)))
      (snd (snd (pull_one p b cs g))))))"
    by (rule Cons.IH)
  finally show ?case by (simp add: split_beta Let_def)
qed

lemma engine_pull_one [simp]: "engine (snd (snd (pull_one p b cs g))) = engine g"
  by (simp add: pull_one_def Let_def split_beta)

lemma engine_pull_each [simp]: "engine (snd (snd (pull_each p bs cs g))) = engine g"
  by (induction bs arbitrary: cs g) (auto simp add: split_beta Let_def)

lemma pull_one_draws:
  "random (snd (snd (pull_one p b cs g))) = random g"
  "drawn (snd (snd (pull_one p b cs g))) = drawn g + (if spins p b then 1 else 0)"
  by (auto simp add: pull_one_def spins_def toward_def Let_def split_beta Math_random_def)

lemma pull_one_spin_exact:
  assumes "spins p b"
  shows "angularVelocity (fst (pull_one p b cs g))
       = angularVelocity b + (frac (random g (drawn g)) - 1 / 2) * (15 / 100)"
  using assms
  by (simp add: pull_one_def spins_def toward_def Let_def split_beta Math_random_def
      Body_setVelocity_def Body_setAngularVelocity_def)

lemma pull_one_frame:
  "(fst (pull_one p b cs g))\<lparr>velocity := velocity b, angularVelocity := angularVelocity b\<rparr> = b"
  by (simp add: pull_one_def Let_def split_beta Body_setVelocity_def Body_setAngularVelocity_def)

lemma pull_each_nth_draw:
  "i < length bs \<Longrightarrow>
   \<exists>cs0 g0. fst (pull_each p bs cs g) ! i = fst (pull_one p (bs ! i) cs0 g0)
     \<and> random g0 = random g
     \<and> drawn g0 = drawn g + length (filter (spins p) (take i bs))
     \<and> set (fst (snd (pull_one p (bs ! i) cs0 g0))) \<subseteq> set (fst (snd (pull_each p bs cs g)))"
proof (induction bs arbitrary: i cs g)
  case Nil
  then show ?case by simp
next
  case (Cons b bs)
  let ?cs1 = "fst (snd (pull_one p b cs g))" and ?g1 = "snd (snd (pull_one p b cs g))"
  show ?case
  proof (cases i)
    case 0
    have "set ?cs1 \<subseteq> set (fst (snd (pull_each p bs ?cs1 ?g1)))" by (rule pull_each_mono)
    then have "fst (pull_each p (b # bs) cs g) ! i = fst (pull_one p ((b # bs) ! i) cs g)
      \<and> random g = random g
      \<and> drawn g = drawn g + length (filter (spins p) (take i (b # bs)))
      \<and> set (fst (snd (pull_one p ((b # bs) ! i) cs g))) \<subseteq> set (fst (snd (pull_each p (b # bs) cs g)))"
      using 0 by (simp add: split_beta Let_def)
    then show ?thesis by blast
  next
    case (Suc k)
    then have "k < length bs" using Cons.prems by simp
    from Cons.IH [OF this, of ?cs1 ?g1] obtain cs0 g0 where
      h: "fst (pull_each p bs ?cs1 ?g1) ! k = fst (pull_one p (bs ! k) cs0 g0)"
        "random g0 = random ?g1"
        "drawn g0 = drawn ?g1 + length (filter (spins p) (take k bs))"
        "set (fst (snd (pull_one p (bs ! k) cs0 g0))) \<subseteq> set (fst (snd (pull_each p bs ?cs1 ?g1)))"
      by blast
    have "fst (pull_each p (b # bs) cs g) ! i = fst (pull_one p ((b # bs) ! i) cs0 g0)
      \<and> random g0 = random g
      \<and> drawn g0 = drawn g + length (filter (spins p) (take i (b # bs)))
      \<and> set (fst (snd (pull_one p ((b # bs) ! i) cs0 g0))) \<subseteq> set (fst (snd (pull_each p (b # bs) cs g)))"
      using h Suc by (simp add: split_beta Let_def pull_one_draws)
    then show ?thesis by blast
  qed
qed

lemma update_each_append:
  "update_each now (xs @ ys) g
     = (fst (update_each now xs g) @ fst (update_each now ys (snd (update_each now xs g))),
        snd (update_each now ys (snd (update_each now xs g))))"
proof (induction xs arbitrary: g)
  case Nil
  then show ?case by simp
next
  case (Cons bh xs)
  show ?case
    by (cases "bh_body bh") (simp_all add: Cons.IH split_beta Let_def)
qed

lemma update_each_pull:
  assumes "bh_body bh = Some hb" "real now - real (createdAt bh) \<le> lifetime bh"
  shows "update_each now (bh # rest) g
     = (bh\<lparr>consumedBodies := fst (snd (pull_each (position hb) (getAllBodies g) (consumedBodies bh) g))\<rparr>
          # fst (update_each now rest
              (putBodies (fst (pull_each (position hb) (getAllBodies g) (consumedBodies bh) g))
                 (snd (snd (pull_each (position hb) (getAllBodies g) (consumedBodies bh) g))))),
        snd (update_each now rest
              (putBodies (fst (pull_each (position hb) (getAllBodies g) (consumedBodies bh) g))
                 (snd (snd (pull_each (position hb) (getAllBodies g) (consumedBodies bh) g))))))"
  using assms by (simp add: split_beta Let_def)

lemma explodeBlackHole_empty:
  "getAllBodies g = [] \<Longrightarrow> getAllBodies (explodeBlackHole bh g) = []"
  by (cases "engine g"; cases "bh_body bh")
    (simp_all add: explodeBlackHole_def getAllBodies_def Let_def split_beta putBodies_def
      win_shake_def win_status_def emit_def setTimeout_def removeBodyInternal_def removeBody_def)

lemma update_each_empty:
  "getAllBodies g = [] \<Longrightarrow> getAllBodies (snd (update_each now hs g)) = []"
proof (induction hs arbitrary: g)
  case Nil
  then show ?case by simp
next
  case (Cons bh hs)
  have p: "getAllBodies (putBodies [] g) = []"
    using Cons.prems by (cases "engine g") (simp_all add: putBodies_def getAllBodies_def)
  show ?case
    using Cons.prems
    by (cases "bh_body bh")
      (simp_all add: Cons.IH explodeBlackHole_empty split_beta Let_def p)
qed


lemma world_after_putBodies:
  "engine g \<noteq> None \<Longrightarrow> getAllBodies (putBodies bs g) = bs"
  by (auto simp add: getAllBodies_def putBodies_def)

lemma marked_by_kept:
  assumes "activeBlackHoles g = ks @ bh\<lparr>consumedBodies := cs\<rparr> # ls"
  shows "set cs \<subseteq> set (marked_by bh g)"
  using assms by (auto simp add: marked_by_def same_hole_def)

text \<open>
  C7. One tick of \<^verbatim>\<open>updateBlackHoles\<close>, at the turn of any active black hole whose
  lifetime has not run out (a black hole whose lifetime has run out is exploded by the tick
  instead), whatever black holes come before and after it in the list: for a dynamic body
  that is not a black hole, at distance \<open>d\<close> from the centre when the turn begins, below 20
  its velocity becomes zero and it is marked consumed; from 20 on its velocity is its old
  velocity plus an increment of magnitude \<open>min(8, 400 / d) * 0.3\<close> that points toward the
  centre; below 80 it is marked consumed; from 20 up to 250 its angular velocity grows by
  \<open>(r - 0.5) * 0.15\<close>, where \<open>r\<close> is the \<^verbatim>\<open>Math.random()\<close> draw the loop has reached, which is
  at most 0.075 either way; below 20 and from 250 on the angular velocity stays; nothing
  else of the body changes. When the black hole is the last of the list, the world after
  its turn is the world after the tick.
\<close>

theorem updateBlackHoles_pull:
  assumes "activeBlackHoles g = pre @ bh # post" and "bh_body bh = Some hb"
    and "real (clock g) - real (createdAt bh) \<le> lifetime bh"
    and "i < length (getAllBodies (turn pre g))"
    and "\<not> isStatic (getAllBodies (turn pre g) ! i)"
    and "label (getAllBodies (turn pre g) ! i) \<noteq> ''blackhole''"
  shows "let before = getAllBodies (turn pre g);
             b = before ! i;
             b' = getAllBodies (turn (pre @ [bh]) g) ! i;
             d = Vector_magnitude (toward (position hb) b);
             marked = marked_by bh (updateBlackHoles g)
         in (d < 20 \<longrightarrow> velocity b' = (0, 0) \<and> bodyId b \<in> set marked)
          \<and> (20 \<le> d \<longrightarrow>
                velocity b' = (fst (velocity b) + fst (pull_increment (position hb) b),
                               snd (velocity b) + snd (pull_increment (position hb) b))
                \<and> Vector_magnitude (pull_increment (position hb) b) = min 8 (400 / d) * (3 / 10)
                \<and> along (pull_increment (position hb) b) (toward (position hb) b))
          \<and> (d < 80 \<longrightarrow> bodyId b \<in> set marked)
          \<and> (20 \<le> d \<and> d < 250 \<longrightarrow>
                angularVelocity b'
                  = angularVelocity b
                    + (spin_draw (position hb) before i (turn pre g) - 1 / 2) * (15 / 100))
          \<and> \<bar>angularVelocity b' - angularVelocity b\<bar> \<le> 15 / 200
          \<and> (d < 20 \<or> 250 \<le> d \<longrightarrow> angularVelocity b' = angularVelocity b)
          \<and> b'\<lparr>velocity := velocity b, angularVelocity := angularVelocity b\<rparr> = b
          \<and> (post = [] \<longrightarrow>
                getAllBodies (updateBlackHoles g) = getAllBodies (turn (pre @ [bh]) g))"
proof -
  define g1 where "g1 = turn pre g"
  define bs where "bs = getAllBodies g1"
  define p where "p = position hb"
  define b where "b = bs ! i"
  define d where "d = Vector_magnitude (toward p b)"
  define out where "out = pull_each p bs (consumedBodies bh) g1"
  define kept where "kept = bh\<lparr>consumedBodies := fst (snd out)\<rparr>"
  define g2 where "g2 = putBodies (fst out) (snd (snd out))"
  have i: "i < length bs" using assms(4) by (simp add: bs_def g1_def)
  have dyn: "\<not> isStatic b" "label b \<noteq> ''blackhole''"
    using assms(5,6) by (simp_all add: b_def bs_def g1_def)
  have g1: "g1 = snd (update_each (clock g) pre g)" by (simp add: g1_def turn_def)
  have ne: "getAllBodies g1 \<noteq> []" using i by (auto simp add: bs_def)
  then have world: "getAllBodies g \<noteq> []"
    using update_each_empty [of g "clock g" pre] by (auto simp add: g1)
  have eng: "engine g1 \<noteq> None"
    using ne by (cases "engine g1") (simp_all add: getAllBodies_def)
  have step: "update_each (clock g) (bh # rest) g1
      = (kept # fst (update_each (clock g) rest g2), snd (update_each (clock g) rest g2))" for rest
    using update_each_pull [OF assms(2,3), of rest g1]
    by (simp add: kept_def g2_def out_def p_def bs_def)
  have t2: "turn (pre @ [bh]) g = g2"
    using step [of "[]"] by (simp add: turn_def update_each_append g1 [symmetric])
  have w2: "getAllBodies g2 = fst out"
    using eng by (simp add: g2_def out_def world_after_putBodies)
  have all: "update_each (clock g) (pre @ bh # post) g
      = (fst (update_each (clock g) pre g) @ kept # fst (update_each (clock g) post g2),
         snd (update_each (clock g) post g2))"
    using step [of post] by (simp add: update_each_append g1 [symmetric])
  have act: "activeBlackHoles (updateBlackHoles g)
      = fst (update_each (clock g) pre g) @ kept # fst (update_each (clock g) post g2)"
    using world by (simp add: updateBlackHoles_def assms(1) all)
  have sub0: "set (fst (snd out)) \<subseteq> set (marked_by bh (updateBlackHoles g))"
    using act unfolding kept_def by (rule marked_by_kept)
  have "getAllBodies (updateBlackHoles g) = getAllBodies (snd (update_each (clock g) post g2))"
    using world by (simp add: updateBlackHoles_def assms(1) all getAllBodies_def)
  then have fin: "post = [] \<longrightarrow> getAllBodies (updateBlackHoles g) = getAllBodies g2"
    by simp
  obtain cs0 g0 where
    nth: "fst out ! i = fst (pull_one p b cs0 g0)"
    and rnd: "random g0 = random g1"
    and drw: "drawn g0 = drawn g1 + length (filter (spins p) (take i bs))"
    and sub1: "set (fst (snd (pull_one p b cs0 g0))) \<subseteq> set (fst (snd out))"
    using pull_each_nth_draw [OF i, of p "consumedBodies bh" g1] unfolding b_def out_def by blast
  have sub: "set (fst (snd (pull_one p b cs0 g0))) \<subseteq> set (marked_by bh (updateBlackHoles g))"
    using sub0 sub1 by blast
  have draw: "frac (random g0 (drawn g0)) = spin_draw p bs i g1"
    by (simp add: spin_draw_def rnd drw)
  have c1: "d < 20 \<longrightarrow> velocity (fst (pull_one p b cs0 g0)) = (0, 0)
      \<and> bodyId b \<in> set (marked_by bh (updateBlackHoles g))"
    using pull_one_centre(1,2) [OF dyn, of p cs0 g0] sub unfolding d_def by blast
  have c2: "20 \<le> d \<longrightarrow>
      velocity (fst (pull_one p b cs0 g0))
        = (fst (velocity b) + fst (pull_increment p b), snd (velocity b) + snd (pull_increment p b))
      \<and> Vector_magnitude (pull_increment p b) = min 8 (400 / d) * (3 / 10)
      \<and> along (pull_increment p b) (toward p b)"
  proof
    assume far: "20 \<le> d"
    then have pos: "0 < Vector_magnitude (toward p b)" unfolding d_def by linarith
    show "velocity (fst (pull_one p b cs0 g0))
        = (fst (velocity b) + fst (pull_increment p b), snd (velocity b) + snd (pull_increment p b))
      \<and> Vector_magnitude (pull_increment p b) = min 8 (400 / d) * (3 / 10)
      \<and> along (pull_increment p b) (toward p b)"
      using pull_one_velocity [OF dyn, of p cs0 g0] far pull_increment_magnitude [OF pos]
        pull_increment_along [OF pos]
      unfolding d_def by blast
  qed
  have c3: "d < 80 \<longrightarrow> bodyId b \<in> set (marked_by bh (updateBlackHoles g))"
    using pull_one_consumed [OF dyn, of p cs0 g0] sub unfolding d_def by blast
  have c4: "20 \<le> d \<and> d < 250 \<longrightarrow>
      angularVelocity (fst (pull_one p b cs0 g0))
        = angularVelocity b + (spin_draw p bs i g1 - 1 / 2) * (15 / 100)"
    using pull_one_spin_exact [of p b cs0 g0] dyn draw by (simp add: spins_def d_def)
  have c5: "\<bar>angularVelocity (fst (pull_one p b cs0 g0)) - angularVelocity b\<bar> \<le> 15 / 200"
    by (rule pull_one_spin)
  have c6: "d < 20 \<or> 250 \<le> d \<longrightarrow> angularVelocity (fst (pull_one p b cs0 g0)) = angularVelocity b"
    using pull_one_centre(3) [OF dyn, of p cs0 g0] pull_one_no_spin [of p b cs0 g0]
    unfolding d_def by blast
  have c7: "(fst (pull_one p b cs0 g0))\<lparr>velocity := velocity b,
      angularVelocity := angularVelocity b\<rparr> = b"
    by (rule pull_one_frame)
  have after: "getAllBodies g2 ! i = fst (pull_one p b cs0 g0)"
    by (simp add: w2 nth)
  show ?thesis
    unfolding Let_def after g1_def [symmetric] bs_def [symmetric] b_def [symmetric]
      p_def [symmetric] d_def [symmetric] t2
    using c1 c2 c3 c4 c5 c6 c7 fin by blast
qed

lemma toward_box: "toward (500, 300) (box_at i px) = (500 - px, 0)"
  by (simp add: toward_def box_at_def Bodies_new_def Vector_sub_def)

lemma two_hole_first:
  "getAllBodies (turn [hole] two_hole_world)
     = [hole_body, hole2_body, (box_at 1 510)\<lparr>velocity := (0, 0)\<rparr>,
        (box_at 2 600)\<lparr>velocity := (- (1 / 5), 2), angularVelocity := - (3 / 40)\<rparr>]"
  "drawn (turn [hole] two_hole_world) = 1"
  "random (turn [hole] two_hole_world) = (\<lambda>k. real k / 4)"
  by (simp_all add: turn_def two_hole_world_def world_of_def hole_def hole_body_def hole2_body_def
      box_at_def Bodies_new_def getAllBodies_def putBodies_def pull_one_def Let_def split_beta
      Vector_sub_def magnitude_axis Vector_normalise_def Math_random_def Body_setVelocity_def
      Body_setAngularVelocity_def)


theorem updateBlackHoles_pull_witness:
  "activeBlackHoles two_hole_world = [hole] @ hole2 # [] \<and> bh_body hole2 = Some hole2_body
   \<and> real (clock two_hole_world) - real (createdAt hole2) \<le> lifetime hole2
   \<and> getAllBodies (turn [hole] two_hole_world) ! 2 = (box_at 1 510)\<lparr>velocity := (0, 0)\<rparr>
   \<and> \<not> isStatic (getAllBodies (turn [hole] two_hole_world) ! 2)
   \<and> label (getAllBodies (turn [hole] two_hole_world) ! 2) \<noteq> ''blackhole''
   \<and> Vector_magnitude (toward (position hole2_body) (getAllBodies (turn [hole] two_hole_world) ! 2))
        = 190
   \<and> velocity (getAllBodies (updateBlackHoles two_hole_world) ! 2) = (12 / 19, 0)
   \<and> angularVelocity (getAllBodies (updateBlackHoles two_hole_world) ! 2) = - (3 / 80)"
proof -
  have h: "activeBlackHoles two_hole_world = [hole] @ hole2 # []" "bh_body hole2 = Some hole2_body"
    "real (clock two_hole_world) - real (createdAt hole2) \<le> lifetime hole2"
    by (simp_all add: two_hole_world_def hole2_def hole_def world_of_def)
  have p: "position hole2_body = (700, 300)"
    by (simp add: hole2_body_def Bodies_new_def)
  have n: "getAllBodies (turn [hole] two_hole_world) ! 2 = (box_at 1 510)\<lparr>velocity := (0, 0)\<rparr>"
    by (simp add: two_hole_first(1))
  have i: "2 < length (getAllBodies (turn [hole] two_hole_world))"
    by (simp add: two_hole_first(1))
  have dyn: "\<not> isStatic (getAllBodies (turn [hole] two_hole_world) ! 2)"
    "label (getAllBodies (turn [hole] two_hole_world) ! 2) \<noteq> ''blackhole''"
    by (simp_all add: n box_at_def Bodies_new_def)
  have t: "toward (700, 300) ((box_at k 510)\<lparr>velocity := (0, 0)\<rparr>) = (190, 0)" for k
    by (simp add: toward_def box_at_def Bodies_new_def Vector_sub_def)
  have d: "Vector_magnitude (toward (position hole2_body)
      (getAllBodies (turn [hole] two_hole_world) ! 2)) = 190"
    by (simp add: n p t magnitude_axis)
  have inc: "pull_increment (700, 300) ((box_at k 510)\<lparr>velocity := (0, 0)\<rparr>) = (12 / 19, 0)" for k
    by (simp add: pull_increment_def t Vector_normalise_def magnitude_axis)
  have s: "\<not> spins (700, 300) hole_body" "\<not> spins (700, 300) hole2_body"
    by (simp_all add: spins_def hole_body_def hole2_body_def)
  have "frac (1 / 4 :: real) = 1 / 4" by (simp add: frac_eq)
  then have draw: "spin_draw (700, 300) (getAllBodies (turn [hole] two_hole_world)) 2
      (turn [hole] two_hole_world) = 1 / 4"
    by (simp add: spin_draw_def two_hole_first s numeral_2_eq_2)
  have v: "velocity ((box_at k 510)\<lparr>velocity := (0, 0)\<rparr>) = (0, 0)"
    "angularVelocity ((box_at k 510)\<lparr>velocity := (0, 0)\<rparr>) = 0" for k
    by (simp_all add: box_at_def Bodies_new_def)
  have "velocity (getAllBodies (updateBlackHoles two_hole_world) ! 2) = (12 / 19, 0)
     \<and> angularVelocity (getAllBodies (updateBlackHoles two_hole_world) ! 2) = - (3 / 80)"
    using updateBlackHoles_pull [OF h i dyn] d draw
    by (simp add: Let_def n p inc v)
  then show ?thesis
    using h n dyn d by blast
qed

subsection \<open>A tick after the lifetime has run out\<close>

lemma expel_one_keeps:
  "bodyId (fst (expel_one bh b g)) = bodyId b"
  "bodyId b \<notin> set (consumedBodies bh) \<Longrightarrow> velocity (fst (expel_one bh b g)) = velocity b"
  "engine (snd (expel_one bh b g)) = engine g"
  "activeBlackHoles (snd (expel_one bh b g)) = activeBlackHoles g"
  by (simp_all add: expel_one_def Let_def split_beta Math_random_def Body_applyForce_def
      Body_setAngularVelocity_def Body_setVelocity_def Body_setPosition_def)

lemma expel_each_keeps:
  "map bodyId (fst (expel_each bh bs g)) = map bodyId bs"
  "set (map bodyId bs) \<inter> set (consumedBodies bh) = {}
     \<Longrightarrow> map velocity (fst (expel_each bh bs g)) = map velocity bs"
  "engine (snd (expel_each bh bs g)) = engine g"
  "activeBlackHoles (snd (expel_each bh bs g)) = activeBlackHoles g"
  by (induction bs arbitrary: g) (simp_all add: split_beta Let_def expel_one_keeps)

lemma explodeBlackHole_world:
  assumes "engine g = Some e" "bh_body bh = Some hb"
  shows "getAllBodies (explodeBlackHole bh g) = World_remove hb (fst (expel_each bh (bodies e) g))"
    and "activeBlackHoles (explodeBlackHole bh g)
         = filter (\<lambda>c. \<not> same_hole c bh) (activeBlackHoles g)"
  using assms
  by (simp_all add: explodeBlackHole_def getAllBodies_def Let_def split_beta putBodies_def
      expel_each_keeps win_shake_def win_status_def emit_def setTimeout_def removeBodyInternal_def
      removeBody_def)


lemma late_hole_world_engine:
  "engine late_hole_world = Some \<lparr>bodies = [hole_body, box_at 1 510, box_at 2 600],
     gravity = PHYSICS_GRAVITY, timeScale = 1\<rparr>"
  by (simp add: late_hole_world_def hole_world_def world_of_def)

text \<open>
  A tick that finds the black hole with its lifetime run out explodes it instead of pulling:
  the box 10 units from the centre keeps its velocity, and no black hole is left that
  could have marked it as consumed.
\<close>

theorem updateBlackHoles_expired_counterexample:
  "getAllBodies late_hole_world = [hole_body, box_at 1 510, box_at 2 600]
   \<and> activeBlackHoles late_hole_world = [hole] \<and> bh_body hole = Some hole_body
   \<and> real (clock late_hole_world) - real (createdAt hole) = 7000 \<and> lifetime hole = 6000
   \<and> \<not> isStatic (box_at 1 510) \<and> label (box_at 1 510) \<noteq> ''blackhole''
   \<and> Vector_magnitude (toward (position hole_body) (box_at 1 510)) = 10
   \<and> velocity (box_at 1 510) = (1, 2)
   \<and> map bodyId (getAllBodies (updateBlackHoles late_hole_world)) = [1, 2]
   \<and> map velocity (getAllBodies (updateBlackHoles late_hole_world)) = [(1, 2), (1, 2)]
   \<and> activeBlackHoles (updateBlackHoles late_hole_world) = []"
proof -
  have h: "activeBlackHoles late_hole_world = [hole]" "bh_body hole = Some hole_body"
    "real (clock late_hole_world) - real (createdAt hole) = 7000" "lifetime hole = 6000"
    "consumedBodies hole = []"
    by (simp_all add: late_hole_world_def hole_world_def hole_def world_of_def)
  have w: "getAllBodies late_hole_world = [hole_body, box_at 1 510, box_at 2 600]"
    by (simp add: getAllBodies_def late_hole_world_engine)
  have b: "\<not> isStatic (box_at 1 510)" "label (box_at 1 510) \<noteq> ''blackhole''"
    "velocity (box_at i px) = (1, 2)" "bodyId (box_at i px) = i" "bodyId hole_body = 9" for i px
    by (simp_all add: box_at_def hole_body_def Bodies_new_def)
  have d: "Vector_magnitude (toward (position hole_body) (box_at 1 510)) = 10"
    by (simp add: hole_body_def Bodies_new_def toward_box magnitude_axis)
  have tick: "updateBlackHoles late_hole_world
      = (explodeBlackHole hole late_hole_world)\<lparr>activeBlackHoles := []\<rparr>"
    using h by (simp add: updateBlackHoles_def w)
  define out where "out = fst (expel_each hole [hole_body, box_at 1 510, box_at 2 600] late_hole_world)"
  have "map bodyId out = map bodyId [hole_body, box_at 1 510, box_at 2 600]"
    unfolding out_def by (rule expel_each_keeps(1))
  then have ids: "map bodyId out = [9, 1, 2]"
    by (simp add: b)
  have "map velocity out = map velocity [hole_body, box_at 1 510, box_at 2 600]"
    unfolding out_def by (rule expel_each_keeps(2)) (simp add: h)
  then have vs: "map velocity out = [velocity hole_body, (1, 2), (1, 2)]"
    by (simp add: b)
  obtain o0 o1 o2 where out3: "out = [o0, o1, o2]"
    using ids by (auto simp add: map_eq_Cons_conv)
  have "getAllBodies (explodeBlackHole hole late_hole_world) = World_remove hole_body out"
    using explodeBlackHole_world(1) [OF late_hole_world_engine h(2)]
    by (simp only: out_def engine_t.simps)
  then have "getAllBodies (explodeBlackHole hole late_hole_world) = [o1, o2]"
    using ids by (simp add: out3 b)
  then have after: "getAllBodies (updateBlackHoles late_hole_world) = [o1, o2]"
    by (simp add: tick getAllBodies_def)
  have fin: "map bodyId (getAllBodies (updateBlackHoles late_hole_world)) = [1, 2]"
    "map velocity (getAllBodies (updateBlackHoles late_hole_world)) = [(1, 2), (1, 2)]"
    using ids vs by (simp_all add: after out3)
  have none: "activeBlackHoles (updateBlackHoles late_hole_world) = []"
    by (simp add: tick)
  show ?thesis
    using h w b d fin none by simp
qed

subsection \<open>The chain reaction\<close>

lemma cview_emit [simp]: "cascade_view (emit e g) = cascade_view g"
  by (simp add: cascade_view_def emit_def)

lemma cview_putBodies [simp]: "cascade_view (putBodies bs g) = cascade_view g"
  by (simp add: cascade_view_def putBodies_def split: option.splits)

lemma cview_Math_random [simp]: "cascade_view (snd (Math_random g)) = cascade_view g"
  by (simp add: cascade_view_def Math_random_def)

lemma cview_forEach_draw [simp]: "cascade_view (snd (forEach_draw P f bs g)) = cascade_view g"
  by (induction bs arbitrary: g) (auto simp add: split_beta Let_def)

lemma cview_win_particles [simp]: "cascade_view (win_particles a b n c g) = cascade_view g"
  by (simp add: win_particles_def)

lemma cview_win_shake [simp]: "cascade_view (win_shake a g) = cascade_view g"
  by (simp add: win_shake_def)

lemma cview_triggerScreenShake [simp]: "cascade_view (triggerScreenShake a g) = cascade_view g"
  by (simp add: triggerScreenShake_def)

lemma cview_spawnParticles [simp]: "cascade_view (spawnParticles a b n c g) = cascade_view g"
  by (simp add: spawnParticles_def)

lemma cview_toolExplode [simp]: "cascade_view (snd (toolExplode c fo ro g)) = cascade_view g"
  by (simp add: toolExplode_def Let_def split_beta)

lemma cview_removeBody [simp]: "cascade_view (removeBody b g) = cascade_view g"
  by (simp add: cascade_view_def removeBody_def split: option.splits)

lemma cview_fields:
  "cascade_view g = (a, b, c, d) \<Longrightarrow>
   timeouts g = a \<and> exploded g = b \<and> clock g = c \<and> (engine g = None) = d"
  by (simp add: cascade_view_def)

lemma getAllBodies_triggerScreenShake [simp]: "getAllBodies (triggerScreenShake a g) = getAllBodies g"
  by (simp add: triggerScreenShake_def)

lemma getAllBodies_spawnParticles [simp]: "getAllBodies (spawnParticles a b n c g) = getAllBodies g"
  by (simp add: spawnParticles_def)

lemma getAllBodies_Math_random [simp]: "getAllBodies (snd (Math_random g)) = getAllBodies g"
  by (simp add: getAllBodies_def)

lemma getAllBodies_forEach_draw [simp]: "getAllBodies (snd (forEach_draw P f bs g)) = getAllBodies g"
  by (simp add: getAllBodies_def)

lemma getAllBodies_removeBody:
  "getAllBodies (removeBody b g) = World_remove b (getAllBodies g)"
  by (simp add: getAllBodies_def removeBody_def split: option.splits)

lemma getAllBodies_setTimeout [simp]: "getAllBodies (setTimeout t ms g) = getAllBodies g"
  by (simp add: getAllBodies_def setTimeout_def)

lemma getAllBodies_exploded [simp]: "getAllBodies (g\<lparr>exploded := xs\<rparr>) = getAllBodies g"
  by (simp add: getAllBodies_def)

lemma getAllBodies_toolExplode:
  "getAllBodies (snd (toolExplode c (Some f) (Some r) g))
     = (if engine g = None then [] else fst (forEach_draw (hit c r) (blast c f r) (getAllBodies g) g))"
  by (simp add: toolExplode_def Let_def split_beta getAllBodies_putBodies with_default_def)

lemma core_blast [simp]: "core (blast c f r u b) = core b"
  by (simp add: core_def blast_def Let_def applyForce_def Body_applyForce_def
      Body_setAngularVelocity_def eligible_def blast_radius_def)

lemma map_core_forEach_draw:
  "(\<And>u b. core (f u b) = core b) \<Longrightarrow> map core (fst (forEach_draw P f bs g)) = map core bs"
  by (induction bs arbitrary: g) (auto simp add: split_beta Let_def)

lemma bodyId_core: "bodyId b = fst (core b)"
  by (simp add: core_def)

lemma map_core_World_remove:
  "map core bs = map core cs \<Longrightarrow> map core (World_remove b bs) = map core (World_remove b cs)"
proof (induction bs arbitrary: cs)
  case Nil
  then show ?case by simp
next
  case (Cons a bs)
  then obtain c cs' where cs: "cs = c # cs'" by auto
  then have "core a = core c" "map core bs = map core cs'" using Cons.prems by simp_all
  then show ?case using Cons.IH [of cs'] cs by (auto simp add: bodyId_core)
qed

text \<open>What one call of \<^verbatim>\<open>explodeBody\<close> does, as far as the chain reaction goes.\<close>

lemma explodeBody_effect:
  assumes "engine g \<noteq> None"
  shows "map core (getAllBodies (explodeBody ref g)) = map core (World_remove ref (getAllBodies g))"
    and "timeouts (explodeBody ref g)
       = timeouts g @ [(clock g + 50, Rescan (position (deref ref g)) (blast_radius (deref ref g)))]"
    and "exploded (explodeBody ref g) = exploded g @ [bodyId ref]"
    and "engine (explodeBody ref g) \<noteq> None"
proof -
  define b where "b = deref ref g"
  define f where "f = or_else (explosionForce b) (5 / 10)"
  define g1 where "g1 = spawnParticles (fst (position b)) (snd (position b)) 20 ''#ff4757''
                 (triggerScreenShake (f * 2) (g\<lparr>exploded := exploded g @ [bodyId b]\<rparr>))"
  define g2 where "g2 = snd (toolExplode (position b) (Some f) (Some (blast_radius b)) g1)"
  have idb: "bodyId b = bodyId ref"
    unfolding b_def deref_def
    by (auto split: option.splits dest: find_Some_iff [THEN iffD1])
  have eb: "explodeBody ref g = setTimeout (Rescan (position b) (blast_radius b)) 50 (removeBody b g2)"
    by (simp add: explodeBody_def Let_def split_beta b_def f_def g1_def g2_def blast_radius_def)
  have v1: "cascade_view g1 = (timeouts g, exploded g @ [bodyId b], clock g, False)"
    using assms by (simp add: g1_def) (simp add: cascade_view_def)
  have v2: "cascade_view (removeBody b g2) = (timeouts g, exploded g @ [bodyId b], clock g, False)"
    using v1 by (simp add: g2_def)
  note fs = cview_fields [OF v2]
  show "timeouts (explodeBody ref g)
       = timeouts g @ [(clock g + 50, Rescan (position (deref ref g)) (blast_radius (deref ref g)))]"
    using fs by (simp add: eb setTimeout_def b_def)
  show "exploded (explodeBody ref g) = exploded g @ [bodyId ref]"
    using fs idb by (simp add: eb setTimeout_def)
  show "engine (explodeBody ref g) \<noteq> None"
    using fs by (simp add: eb setTimeout_def)
  have e1: "engine g1 \<noteq> None" using cview_fields [OF v1] by simp
  have b1: "getAllBodies g1 = getAllBodies g" by (simp add: g1_def)
  have "map core (getAllBodies g2) = map core (getAllBodies g)"
    using e1 b1 by (auto simp add: g2_def getAllBodies_toolExplode map_core_forEach_draw)
  then have "map core (World_remove b (getAllBodies g2)) = map core (World_remove b (getAllBodies g))"
    by (rule map_core_World_remove)
  moreover have "World_remove b w = World_remove ref w" for w
    using idb by (induction w) auto
  ultimately show "map core (getAllBodies (explodeBody ref g)) = map core (World_remove ref (getAllBodies g))"
    by (simp add: eb getAllBodies_removeBody)
qed


lemma rescan_each_effect:
  "map snd (timeouts (rescan_each p r bs g)) = map snd (timeouts g) @ map Explode (filter (nearby p r) bs)
   \<and> engine (rescan_each p r bs g) = engine g
   \<and> exploded (rescan_each p r bs g) = exploded g"
proof (induction bs arbitrary: g)
  case Nil
  then show ?case by simp
next
  case (Cons b bs)
  show ?case
  proof (cases "nearby p r b")
    case True
    let ?g1 = "setTimeout (Explode b) (nat \<lfloor>100 + fst (Math_random g) * 200\<rfloor>) (snd (Math_random g))"
    have "map snd (timeouts ?g1) = map snd (timeouts g) @ [Explode b]"
      "engine ?g1 = engine g" "exploded ?g1 = exploded g"
      by (simp_all add: setTimeout_def Math_random_def)
    then show ?thesis
      using Cons.IH [of ?g1] True by (simp add: split_beta Let_def)
  next
    case False
    then show ?thesis using Cons.IH [of g] by simp
  qed
qed

lemma rescan_effect:
  shows "map snd (timeouts (rescan p r g))
       = map snd (timeouts g) @ map Explode (filter (nearby p r) (getAllBodies g))"
    and "getAllBodies (rescan p r g) = getAllBodies g"
    and "exploded (rescan p r g) = exploded g"
    and "engine (rescan p r g) = engine g"
  using rescan_each_effect [of p r "getAllBodies g" g]
  by (simp_all add: rescan_def getAllBodies_def)

lemma earliest_mem: "earliest t ts \<in> set (t # ts)"
  by (induction ts arbitrary: t) auto

lemma fire_next_pop:
  assumes "timeouts g \<noteq> []"
  shows "\<exists>e\<in>set (timeouts g). fire_next g = run_task (snd e) (pop e g)"
proof -
  obtain t ts where ts: "timeouts g = t # ts" using assms by (cases "timeouts g") auto
  have "earliest t ts \<in> set (timeouts g)" using earliest_mem [of t ts] ts by simp
  moreover have "fire_next g = run_task (snd (earliest t ts)) (pop (earliest t ts) g)"
    using ts by (simp add: fire_next_def pop_def Let_def)
  ultimately show ?thesis by blast
qed

lemma pop_fields [simp]:
  "getAllBodies (pop e g) = getAllBodies g" "exploded (pop e g) = exploded g"
  "engine (pop e g) = engine g" "timeouts (pop e g) = remove1 e (timeouts g)"
  by (simp_all add: pop_def getAllBodies_def)

lemma cores_pop [simp]: "cores (pop e g) = cores g"
  by (simp add: cores_def)

lemma live_pop [simp]: "live cs (pop e g) i = live cs g i"
  by (simp add: live_def)

lemma hits_count_remove1:
  "e \<in> set ts \<Longrightarrow> hits_count cs j (remove1 e ts) + (if hits cs j (snd e) then 1 else 0) = hits_count cs j ts"
  unfolding hits_count_def
  by (induction ts) auto

lemma hits_count_append:
  "hits_count cs j (ts @ us) = hits_count cs j ts + hits_count cs j us"
  by (simp add: hits_count_def)

lemma rescans_remove1:
  "e \<in> set ts \<Longrightarrow>
   length (filter (\<lambda>t. is_rescan (snd t)) (remove1 e ts)) + (if is_rescan (snd e) then 1 else 0)
     = length (filter (\<lambda>t. is_rescan (snd t)) ts)"
  by (induction ts) auto

lemma front_after_explode:
  assumes "l < r" "r \<le> n" "j < n" "\<not> (l \<le> j \<and> j < r)" "front l r n j"
  shows "\<exists>l' r'. l' < r' \<and> r' \<le> n \<and> r' - l' = Suc (r - l) \<and> Suc (r - l) \<le> n \<and>
        (\<forall>i<n. (l' \<le> i \<and> i < r') \<longleftrightarrow> (l \<le> i \<and> i < r) \<or> i = j) \<and>
        (\<forall>m<n. m \<noteq> j \<longrightarrow> \<not> (l \<le> m \<and> m < r) \<longrightarrow>
            (front l' r' n m \<longleftrightarrow> front l r n m \<or> m = Suc j \<or> j = Suc m) \<and>
            ((m = Suc j \<or> j = Suc m) \<longrightarrow> \<not> front l r n m))"
proof -
  have "Suc j = l \<or> j = r" using assms unfolding front_def by auto
  then show ?thesis
  proof
    assume a: "Suc j = l"
    show ?thesis
      apply (rule exI [of _ j], rule exI [of _ r])
      using assms a unfolding front_def by auto
  next
    assume a: "j = r"
    show ?thesis
      apply (rule exI [of _ l], rule exI [of _ "Suc j"])
      using assms a unfolding front_def by auto
  qed
qed

lemma front_single: "k < n \<Longrightarrow> m < n \<Longrightarrow> m \<noteq> k \<Longrightarrow> front k (Suc k) n m \<longleftrightarrow> (k = Suc m \<or> m = Suc k)"
  unfolding front_def by auto


lemma chain_ids:
  "linear_chain cs \<Longrightarrow> i < length cs \<Longrightarrow> j < length cs \<Longrightarrow>
   (bodyId (cs ! i) = bodyId (cs ! j)) = (i = j)"
  using nth_eq_iff_index_eq [of "map bodyId cs" i j]
  by (simp add: linear_chain_def)

lemma chain_nearby:
  "linear_chain cs \<Longrightarrow> i < length cs \<Longrightarrow> m < length cs \<Longrightarrow> i \<noteq> m \<Longrightarrow>
   nearby (position (cs ! i)) (blast_radius (cs ! i)) (cs ! m) \<longleftrightarrow> (i = Suc m \<or> m = Suc i)"
  unfolding linear_chain_def triggers_def by blast

lemma nearby_core: "core a = core b \<Longrightarrow> nearby p r a = nearby p r b"
  by (auto simp add: core_def nearby_def eligible_def)

lemma nearby_eligible: "nearby p r b \<Longrightarrow> eligible b"
  by (simp add: nearby_def eligible_def)

lemma fst_cores: "map fst (cores g) = map bodyId (getAllBodies g)"
  by (simp add: cores_def core_def)

lemma set_World_remove:
  "distinct (map bodyId w) \<Longrightarrow> set (World_remove b w) = {c \<in> set w. bodyId c \<noteq> bodyId b}"
  by (induction w) (auto simp add: image_iff)

lemma distinct_World_remove:
  "distinct (map bodyId w) \<Longrightarrow> distinct (map bodyId (World_remove b w))"
proof (induction w)
  case Nil
  then show ?case by simp
next
  case (Cons a w)
  then show ?case by (auto simp add: set_World_remove)
qed

lemma cores_explodeBody:
  assumes "engine g \<noteq> None" "distinct (map fst (cores g))"
  shows "set (cores (explodeBody ref g)) = {c \<in> set (cores g). fst c \<noteq> bodyId ref}"
    and "distinct (map fst (cores (explodeBody ref g)))"
proof -
  have d: "distinct (map bodyId (getAllBodies g))" using assms(2) by (simp add: fst_cores)
  have c: "cores (explodeBody ref g) = map core (World_remove ref (getAllBodies g))"
    using explodeBody_effect(1) [OF assms(1)] by (simp add: cores_def)
  have "set (cores (explodeBody ref g)) = core ` {c \<in> set (getAllBodies g). bodyId c \<noteq> bodyId ref}"
    by (simp add: c set_World_remove [OF d])
  also have "\<dots> = {c \<in> set (cores g). fst c \<noteq> bodyId ref}"
    by (auto simp add: cores_def core_def)
  finally show "set (cores (explodeBody ref g)) = {c \<in> set (cores g). fst c \<noteq> bodyId ref}" .
  have "map fst (cores (explodeBody ref g)) = map bodyId (World_remove ref (getAllBodies g))"
    by (simp add: c core_def)
  then show "distinct (map fst (cores (explodeBody ref g)))"
    using distinct_World_remove [OF d] by simp
qed

lemma deref_in_world:
  assumes "bodyId ref \<in> fst ` set (cores g)"
  shows "core (deref ref g) \<in> set (cores g) \<and> fst (core (deref ref g)) = bodyId ref"
proof -
  obtain b where b: "b \<in> set (getAllBodies g)" "bodyId b = bodyId ref"
    using assms by (auto simp add: cores_def core_def)
  then obtain c where c: "find (\<lambda>c. bodyId c = bodyId ref) (getAllBodies g) = Some c"
    by (cases "find (\<lambda>c. bodyId c = bodyId ref) (getAllBodies g)") (auto simp add: find_None_iff)
  then have "c \<in> set (getAllBodies g)" "bodyId c = bodyId ref"
    by (auto simp add: find_Some_iff)
  moreover have "deref ref g = c" using c by (simp add: deref_def)
  ultimately show ?thesis by (simp add: cores_def) (simp add: core_def)
qed

lemma hits_count_tasks: "hits_count cs j ts = length (filter (hits cs j) (map snd ts))"
  by (simp add: hits_count_def filter_map comp_def)

lemma task_ok_simps [simp]:
  "task_ok cs g (Explode b) = (\<exists>i<length cs. live cs g i \<and> bodyId b = bodyId (cs ! i))"
  "task_ok cs g (Rescan p r) = (\<exists>i<length cs. \<not> live cs g i \<and> p = position (cs ! i)
                           \<and> r = blast_radius (cs ! i))"
  "task_ok cs g (LaterParticles px py n col) = False"
  by (simp_all add: task_ok_def)

lemma hits_simps [simp]:
  "hits cs j (Explode b) = (bodyId b = bodyId (cs ! j))"
  "hits cs j (Rescan p r) = nearby p r (cs ! j)"
  "hits cs j (LaterParticles px py n col) = False"
  by (simp_all add: hits_def)

lemma hits_count_pos:
  "t \<in> set ts \<Longrightarrow> hits cs j (snd t) \<Longrightarrow> 0 < hits_count cs j ts"
  unfolding hits_count_def by (induction ts) auto

lemma hits_count_single: "hits_count cs j [(d, t)] = (if hits cs j t then 1 else 0)"
  by (simp add: hits_count_def)

lemma chain_invD:
  assumes "chain_inv cs pre l r g"
  shows "engine g \<noteq> None" and "l < r" and "r \<le> length cs"
    and "distinct (map fst (cores g))"
    and "\<forall>c\<in>set (cores g). fst (snd c) \<longrightarrow> (\<exists>i<length cs. c = core (cs ! i))"
    and "\<forall>c\<in>set (cores g). \<forall>i<length cs. fst c = bodyId (cs ! i) \<longrightarrow> c = core (cs ! i)"
    and "\<forall>i<length cs. live cs g i \<longleftrightarrow> \<not> (l \<le> i \<and> i < r)"
    and "\<forall>t\<in>set (timeouts g). task_ok cs g (snd t)"
    and "\<forall>j<length cs. live cs g j \<longrightarrow>
           hits_count cs j (timeouts g) = (if front l r (length cs) j then 1 else 0)"
    and "\<exists>xs. exploded g = pre @ xs \<and> distinct xs \<and> set xs = {bodyId (cs ! i) | i. l \<le> i \<and> i < r}"
  using assms unfolding chain_inv_def by simp_all

lemma chain_invI:
  assumes "engine g \<noteq> None" and "l < r" and "r \<le> length cs"
    and "distinct (map fst (cores g))"
    and "\<forall>c\<in>set (cores g). fst (snd c) \<longrightarrow> (\<exists>i<length cs. c = core (cs ! i))"
    and "\<forall>c\<in>set (cores g). \<forall>i<length cs. fst c = bodyId (cs ! i) \<longrightarrow> c = core (cs ! i)"
    and "\<forall>i<length cs. live cs g i \<longleftrightarrow> \<not> (l \<le> i \<and> i < r)"
    and "\<forall>t\<in>set (timeouts g). task_ok cs g (snd t)"
    and "\<forall>j<length cs. live cs g j \<longrightarrow>
           hits_count cs j (timeouts g) = (if front l r (length cs) j then 1 else 0)"
    and "\<exists>xs. exploded g = pre @ xs \<and> distinct xs \<and> set xs = {bodyId (cs ! i) | i. l \<le> i \<and> i < r}"
  shows "chain_inv cs pre l r g"
  unfolding chain_inv_def using assms by (intro conjI)

lemma explode_step:
  assumes lc: "linear_chain cs" and inv: "chain_inv cs pre l r g"
    and e: "e \<in> set (timeouts g)" and ex: "snd e = Explode b"
  shows "\<exists>l' r'. chain_inv cs pre l' r' (explodeBody b (pop e g))
           \<and> to_run cs l' r' (explodeBody b (pop e g)) < to_run cs l r g"
proof -
  let ?n = "length cs"
  let ?g' = "explodeBody b (pop e g)"
  note eng = chain_invD(1) [OF inv] and lr = chain_invD(2,3) [OF inv]
    and dist = chain_invD(4) [OF inv] and elig = chain_invD(5) [OF inv]
    and same = chain_invD(6) [OF inv] and lv = chain_invD(7) [OF inv]
    and ok = chain_invD(8) [OF inv] and cnt = chain_invD(9) [OF inv]
    and log = chain_invD(10) [OF inv]
  have "task_ok cs g (Explode b)" using ok e ex by force
  then obtain j where j: "j < ?n" "live cs g j" "bodyId b = bodyId (cs ! j)"
    by auto
  have hj: "hits cs j (snd e)" using ex j(3) by simp
  have "hits_count cs j (remove1 e (timeouts g)) + 1 = hits_count cs j (timeouts g)"
    using hits_count_remove1 [OF e, of cs j] hj by simp
  moreover have "hits_count cs j (timeouts g) = (if front l r ?n j then 1 else 0)"
    using cnt j by blast
  ultimately have fj: "front l r ?n j" and zero: "hits_count cs j (remove1 e (timeouts g)) = 0"
    by (auto split: if_splits)
  have out: "\<not> (l \<le> j \<and> j < r)" using lv j by blast
  from front_after_explode [OF lr j(1) out fj] obtain l' r' where
    lr': "l' < r'" "r' \<le> ?n" "r' - l' = Suc (r - l)" "Suc (r - l) \<le> ?n"
    and iv: "\<forall>i<?n. (l' \<le> i \<and> i < r') \<longleftrightarrow> (l \<le> i \<and> i < r) \<or> i = j"
    and fr: "\<forall>m<?n. m \<noteq> j \<longrightarrow> \<not> (l \<le> m \<and> m < r) \<longrightarrow>
            (front l' r' ?n m \<longleftrightarrow> front l r ?n m \<or> m = Suc j \<or> j = Suc m) \<and>
            ((m = Suc j \<or> j = Suc m) \<longrightarrow> \<not> front l r ?n m)"
    by blast
  have engp: "engine (pop e g) \<noteq> None" using eng by simp
  have cs': "set (cores ?g') = {c \<in> set (cores g). fst c \<noteq> bodyId (cs ! j)}"
    and dist': "distinct (map fst (cores ?g'))"
    using cores_explodeBody [OF engp, of b] dist j(3) by simp_all
  have "bodyId b \<in> fst ` set (cores (pop e g))" using j by (simp add: live_def)
  from deref_in_world [OF this] same j have dc: "core (deref b (pop e g)) = core (cs ! j)"
    by simp
  then have dpos: "position (deref b (pop e g)) = position (cs ! j)"
    and drad: "blast_radius (deref b (pop e g)) = blast_radius (cs ! j)"
    by (simp_all add: core_def)
  have to': "timeouts ?g' = remove1 e (timeouts g)
      @ [(clock (pop e g) + 50, Rescan (position (cs ! j)) (blast_radius (cs ! j)))]"
    using explodeBody_effect(2) [OF engp, of b] dpos drad by simp
  have ex': "exploded ?g' = exploded g @ [bodyId (cs ! j)]"
    using explodeBody_effect(3) [OF engp, of b] j(3) by simp
  have eng': "engine ?g' \<noteq> None" by (rule explodeBody_effect(4) [OF engp])
  have live': "live cs ?g' i \<longleftrightarrow> live cs g i \<and> i \<noteq> j" if "i < ?n" for i
    using chain_ids [OF lc that j(1)] by (auto simp add: live_def cs')
  have i1: "\<forall>c\<in>set (cores ?g'). fst (snd c) \<longrightarrow> (\<exists>i<?n. c = core (cs ! i))"
    using elig by (simp add: cs')
  have i2: "\<forall>c\<in>set (cores ?g'). \<forall>i<?n. fst c = bodyId (cs ! i) \<longrightarrow> c = core (cs ! i)"
    using same by (simp add: cs')
  have i3: "\<forall>i<?n. live cs ?g' i \<longleftrightarrow> \<not> (l' \<le> i \<and> i < r')"
    using live' lv iv by blast
  have i4: "\<forall>t\<in>set (timeouts ?g'). task_ok cs ?g' (snd t)"
  proof
    fix t assume t: "t \<in> set (timeouts ?g')"
    show "task_ok cs ?g' (snd t)"
    proof (cases "t \<in> set (remove1 e (timeouts g))")
      case True
      then have tin: "t \<in> set (timeouts g)" using set_remove1_subset by fastforce
      then have old: "task_ok cs g (snd t)" using ok by blast
      show ?thesis
      proof (cases "snd t")
        case (Rescan p rad)
        then obtain i where "i < ?n" "\<not> live cs g i" "p = position (cs ! i)"
          "rad = blast_radius (cs ! i)" using old by auto
        then show ?thesis using Rescan live' [of i] by auto
      next
        case (Explode b2)
        then obtain i where i: "i < ?n" "live cs g i" "bodyId b2 = bodyId (cs ! i)"
          using old by auto
        have "i \<noteq> j"
        proof
          assume "i = j"
          then have "hits cs j (snd t)" using Explode i by simp
          then have "0 < hits_count cs j (remove1 e (timeouts g))"
            using True by (rule hits_count_pos [rotated])
          then show False using zero by simp
        qed
        then show ?thesis using Explode i live' [of i] by auto
      next
        case (LaterParticles px py n col)
        then show ?thesis using old by simp
      qed
    next
      case False
      then have "snd t = Rescan (position (cs ! j)) (blast_radius (cs ! j))"
        using t by (auto simp add: to')
      then show ?thesis using j(1) live' [of j] by auto
    qed
  qed
  have i5: "\<forall>m<?n. live cs ?g' m \<longrightarrow>
         hits_count cs m (timeouts ?g') = (if front l' r' ?n m then 1 else 0)"
  proof (intro allI impI)
    fix m assume m: "m < ?n" and lm: "live cs ?g' m"
    then have lm0: "live cs g m" and mj: "m \<noteq> j" using live' by blast+
    have outm: "\<not> (l \<le> m \<and> m < r)" using lv m lm0 by blast
    have "\<not> hits cs m (snd e)"
      using ex j(3) chain_ids [OF lc j(1) m] mj by simp
    then have a: "hits_count cs m (remove1 e (timeouts g)) = hits_count cs m (timeouts g)"
      using hits_count_remove1 [OF e, of cs m] by simp
    have b: "hits_count cs m (timeouts g) = (if front l r ?n m then 1 else 0)"
      using cnt m lm0 by blast
    have c: "hits cs m (Rescan (position (cs ! j)) (blast_radius (cs ! j))) \<longleftrightarrow> (j = Suc m \<or> m = Suc j)"
      using chain_nearby [OF lc j(1) m] mj by auto
    have "hits_count cs m (timeouts ?g')
        = (if front l r ?n m then 1 else 0) + (if j = Suc m \<or> m = Suc j then 1 else 0)"
      using a b c by (simp add: to' hits_count_append hits_count_single)
    then show "hits_count cs m (timeouts ?g') = (if front l' r' ?n m then 1 else 0)"
      using fr m mj outm by auto
  qed
  have i6: "\<exists>xs. exploded ?g' = pre @ xs \<and> distinct xs
        \<and> set xs = {bodyId (cs ! i) | i. l' \<le> i \<and> i < r'}"
  proof -
    from log obtain xs where xs: "exploded g = pre @ xs" "distinct xs"
      "set xs = {bodyId (cs ! i) | i. l \<le> i \<and> i < r}" by blast
    have new: "bodyId (cs ! j) \<notin> set xs"
    proof
      assume "bodyId (cs ! j) \<in> set xs"
      then obtain i where i: "l \<le> i" "i < r" "bodyId (cs ! j) = bodyId (cs ! i)"
        using xs(3) by auto
      then have "i < ?n" using lr by simp
      then have "j = i" using chain_ids [OF lc j(1), of i] i(3) by simp
      then show False using out i by simp
    qed
    have "set (xs @ [bodyId (cs ! j)]) = {bodyId (cs ! i) | i. l' \<le> i \<and> i < r'}"
    proof -
      have "l' \<le> i \<and> i < r' \<longleftrightarrow> (l \<le> i \<and> i < r) \<or> i = j" for i
      proof (cases "i < ?n")
        case True
        then show ?thesis using iv by blast
      next
        case False
        then show ?thesis using lr lr' j(1) by auto
      qed
      then show ?thesis using xs(3) by auto
    qed
    then show ?thesis using xs new by (intro exI [of _ "xs @ [bodyId (cs ! j)]"]) (simp add: ex')
  qed
  have inv': "chain_inv cs pre l' r' ?g'"
    using eng' lr'(1,2) dist' i1 i2 i3 i4 i5 i6 by (rule chain_invI)
  have "\<not> is_rescan (snd e)" using ex by simp
  then have "length (filter (\<lambda>t. is_rescan (snd t)) (remove1 e (timeouts g)))
      = length (filter (\<lambda>t. is_rescan (snd t)) (timeouts g))"
    using rescans_remove1 [OF e] by simp
  then have "to_run cs l' r' ?g' < to_run cs l r g"
    using lr' by (simp add: to_run_def to')
  then show ?thesis using inv' by blast
qed

lemma unique_by_id:
  "distinct (map bodyId w) \<Longrightarrow> c \<in> set w \<Longrightarrow> filter (\<lambda>b. bodyId b = bodyId c) w = [c]"
proof (induction w)
  case Nil
  then show ?case by simp
next
  case (Cons a w)
  show ?case
  proof (cases "a = c")
    case True
    then have "\<forall>b\<in>set w. bodyId b \<noteq> bodyId c" using Cons.prems(1) by (auto simp add: image_iff)
    then have "filter (\<lambda>b. bodyId b = bodyId c) w = []" by (simp add: filter_empty_conv)
    then show ?thesis using True by simp
  next
    case False
    then have c: "c \<in> set w" using Cons.prems(2) by simp
    then have "bodyId a \<noteq> bodyId c" using Cons.prems(1) by (auto simp add: image_iff)
    then show ?thesis using Cons.IH c Cons.prems(1) by simp
  qed
qed

lemma rescans_tasks:
  "length (filter (\<lambda>t. is_rescan (snd t)) ts) = length (filter is_rescan (map snd ts))"
  by (simp add: filter_map comp_def)

lemma task_ok_cong: "cores g' = cores g \<Longrightarrow> task_ok cs g' t = task_ok cs g t"
  by (cases t) (simp_all add: live_def)

lemma rescan_step:
  assumes lc: "linear_chain cs" and inv: "chain_inv cs pre l r g"
    and e: "e \<in> set (timeouts g)" and ex: "snd e = Rescan p rad"
  shows "chain_inv cs pre l r (rescan p rad (pop e g))
           \<and> to_run cs l r (rescan p rad (pop e g)) < to_run cs l r g"
proof -
  let ?n = "length cs"
  let ?g' = "rescan p rad (pop e g)"
  let ?w = "getAllBodies g"
  let ?found = "filter (nearby p rad) ?w"
  note eng = chain_invD(1) [OF inv] and lr = chain_invD(2,3) [OF inv]
    and dist = chain_invD(4) [OF inv] and elig = chain_invD(5) [OF inv]
    and same = chain_invD(6) [OF inv] and lv = chain_invD(7) [OF inv]
    and ok = chain_invD(8) [OF inv] and cnt = chain_invD(9) [OF inv]
    and log = chain_invD(10) [OF inv]
  have dw: "distinct (map bodyId ?w)" using dist by (simp add: fst_cores)
  have bodies': "getAllBodies ?g' = ?w" by (simp add: rescan_effect(2))
  then have cores': "cores ?g' = cores g" by (simp add: cores_def)
  then have live': "live cs ?g' i = live cs g i" for i by (simp add: live_def)
  have eng': "engine ?g' \<noteq> None" using eng by (simp add: rescan_effect(4))
  have ex': "exploded ?g' = exploded g" by (simp add: rescan_effect(3))
  have tasks': "map snd (timeouts ?g') = map snd (remove1 e (timeouts g)) @ map Explode ?found"
    by (simp add: rescan_effect(1))
  have i4: "\<forall>t\<in>set (timeouts ?g'). task_ok cs ?g' (snd t)"
  proof
    fix t assume "t \<in> set (timeouts ?g')"
    then have "snd t \<in> set (map snd (timeouts ?g'))" by simp
    then have "snd t \<in> snd ` set (remove1 e (timeouts g)) \<or> snd t \<in> Explode ` set ?found"
      unfolding tasks' by auto
    then show "task_ok cs ?g' (snd t)"
    proof
      assume "snd t \<in> snd ` set (remove1 e (timeouts g))"
      then obtain t0 where "t0 \<in> set (remove1 e (timeouts g))" "snd t = snd t0" by auto
      then have "t0 \<in> set (timeouts g)" "snd t = snd t0"
        using set_remove1_subset by fastforce+
      then have "task_ok cs g (snd t)" using ok by simp
      then show ?thesis by (simp add: task_ok_cong [OF cores'])
    next
      assume "snd t \<in> Explode ` set ?found"
      then obtain b where b: "b \<in> set ?w" "nearby p rad b" "snd t = Explode b" by auto
      have cb: "core b \<in> set (cores g)" using b(1) by (simp add: cores_def)
      have "fst (snd (core b))" using nearby_eligible [OF b(2)] by (simp add: core_def)
      then obtain m where m: "m < ?n" "core b = core (cs ! m)" using elig cb by blast
      then have "bodyId b = bodyId (cs ! m)" by (simp add: core_def)
      moreover have "live cs g m" using cb m(2) by (force simp add: live_def core_def)
      ultimately show ?thesis using m(1) b(3) live' by auto
    qed
  qed
  have i5: "\<forall>m<?n. live cs ?g' m \<longrightarrow>
         hits_count cs m (timeouts ?g') = (if front l r ?n m then 1 else 0)"
  proof (intro allI impI)
    fix m assume m: "m < ?n" and "live cs ?g' m"
    then have lm: "live cs g m" by (simp add: live')
    then obtain c where c: "c \<in> set ?w" "bodyId c = bodyId (cs ! m)"
      by (auto simp add: live_def cores_def core_def)
    have "core c \<in> set (cores g)" using c(1) by (simp add: cores_def)
    then have "core c = core (cs ! m)" using same m c(2) by (simp add: core_def)
    then have nc: "nearby p rad c = nearby p rad (cs ! m)" by (rule nearby_core)
    have "filter (\<lambda>b. bodyId b = bodyId (cs ! m)) ?found
        = filter (nearby p rad) (filter (\<lambda>b. bodyId b = bodyId c) ?w)"
      using c(2) by (simp add: conj_commute)
    also have "\<dots> = filter (nearby p rad) [c]"
      by (simp only: unique_by_id [OF dw c(1)])
    finally have "length (filter (\<lambda>b. bodyId b = bodyId (cs ! m)) ?found)
        = (if nearby p rad (cs ! m) then 1 else 0)"
      using nc by simp
    moreover have "filter (hits cs m) (map Explode ?found)
        = map Explode (filter (\<lambda>b. bodyId b = bodyId (cs ! m)) ?found)"
      by (simp add: filter_map comp_def)
    ultimately have new: "length (filter (hits cs m) (map Explode ?found))
        = (if nearby p rad (cs ! m) then 1 else 0)"
      by simp
    have "hits cs m (snd e) = nearby p rad (cs ! m)" using ex by simp
    then have old: "hits_count cs m (remove1 e (timeouts g)) + (if nearby p rad (cs ! m) then 1 else 0)
        = hits_count cs m (timeouts g)"
      using hits_count_remove1 [OF e, of cs m] by simp
    have "hits_count cs m (timeouts ?g')
        = length (filter (hits cs m) (map snd (remove1 e (timeouts g))))
          + length (filter (hits cs m) (map Explode ?found))"
      by (simp only: hits_count_tasks tasks' filter_append length_append)
    then have "hits_count cs m (timeouts ?g') = hits_count cs m (timeouts g)"
      using new old by (simp add: hits_count_tasks)
    then show "hits_count cs m (timeouts ?g') = (if front l r ?n m then 1 else 0)"
      using cnt m lm by simp
  qed
  have inv': "chain_inv cs pre l r ?g'"
  proof (rule chain_invI)
    show "engine ?g' \<noteq> None" by (rule eng')
    show "l < r" "r \<le> ?n" by (rule lr)+
    show "distinct (map fst (cores ?g'))" using dist by (simp add: cores')
    show "\<forall>c\<in>set (cores ?g'). fst (snd c) \<longrightarrow> (\<exists>i<?n. c = core (cs ! i))"
      using elig by (simp add: cores')
    show "\<forall>c\<in>set (cores ?g'). \<forall>i<?n. fst c = bodyId (cs ! i) \<longrightarrow> c = core (cs ! i)"
      using same by (simp add: cores')
    show "\<forall>i<?n. live cs ?g' i \<longleftrightarrow> \<not> (l \<le> i \<and> i < r)" using lv by (simp add: live')
    show "\<forall>t\<in>set (timeouts ?g'). task_ok cs ?g' (snd t)" by (rule i4)
    show "\<forall>j<?n. live cs ?g' j \<longrightarrow>
           hits_count cs j (timeouts ?g') = (if front l r ?n j then 1 else 0)" by (rule i5)
    show "\<exists>xs. exploded ?g' = pre @ xs \<and> distinct xs \<and> set xs = {bodyId (cs ! i) | i. l \<le> i \<and> i < r}"
      using log by (simp add: ex')
  qed
  have "filter is_rescan (map Explode ?found) = []"
    by (simp add: filter_empty_conv)
  then have "length (filter (\<lambda>t. is_rescan (snd t)) (timeouts ?g'))
      = length (filter (\<lambda>t. is_rescan (snd t)) (remove1 e (timeouts g)))"
    by (simp add: rescans_tasks tasks')
  moreover have "length (filter (\<lambda>t. is_rescan (snd t)) (remove1 e (timeouts g))) + 1
      = length (filter (\<lambda>t. is_rescan (snd t)) (timeouts g))"
    using rescans_remove1 [OF e] ex by simp
  ultimately have "to_run cs l r ?g' < to_run cs l r g"
    by (simp add: to_run_def)
  then show ?thesis using inv' by blast
qed

lemma run_timeouts_more:
  "run_timeouts n g = Some g' \<Longrightarrow> run_timeouts (n + k) g = Some g'"
proof (induction n arbitrary: g)
  case 0
  then have "timeouts g = []" by (auto simp add: run_timeouts.simps [of 0 g] split: if_splits)
  then have "run_timeouts m g = Some g" for m by (simp add: run_timeouts.simps [of m g])
  then show ?case using 0 by simp
next
  case (Suc n)
  show ?case
  proof (cases "timeouts g = []")
    case True
    then have "run_timeouts m g = Some g" for m by (simp add: run_timeouts.simps [of m g])
    then show ?thesis using Suc.prems by simp
  next
    case False
    then have "run_timeouts n (fire_next g) = Some g'"
      using Suc.prems by (simp add: run_timeouts.simps [of "Suc n" g])
    then have "run_timeouts (n + k) (fire_next g) = Some g'" by (rule Suc.IH)
    then show ?thesis using False by (simp add: run_timeouts.simps [of "Suc (n + k)" g])
  qed
qed

lemma run_chain:
  assumes lc: "linear_chain cs"
  shows "chain_inv cs pre l r g \<Longrightarrow>
     \<exists>n g'. run_timeouts n g = Some g' \<and> timeouts g' = [] \<and> (\<exists>l' r'. chain_inv cs pre l' r' g')"
proof (induction "to_run cs l r g" arbitrary: l r g rule: less_induct)
  case less
  show ?case
  proof (cases "timeouts g = []")
    case True
    then have "run_timeouts 0 g = Some g" by (simp add: run_timeouts.simps [of 0 g])
    then show ?thesis using True less.prems by blast
  next
    case False
    then obtain e where e: "e \<in> set (timeouts g)" "fire_next g = run_task (snd e) (pop e g)"
      using fire_next_pop by blast
    have ok: "task_ok cs g (snd e)" using chain_invD(8) [OF less.prems] e(1) by blast
    have "\<exists>l' r'. chain_inv cs pre l' r' (fire_next g) \<and> to_run cs l' r' (fire_next g) < to_run cs l r g"
    proof (cases "snd e")
      case (Rescan p rad)
      then show ?thesis
        using rescan_step [OF lc less.prems e(1) Rescan] e(2) by (auto simp add: run_task_def)
    next
      case (Explode b)
      then show ?thesis
        using explode_step [OF lc less.prems e(1) Explode] e(2) by (simp add: run_task_def)
    next
      case (LaterParticles px py n col)
      then show ?thesis using ok by simp
    qed
    then obtain l' r' where s: "chain_inv cs pre l' r' (fire_next g)"
      "to_run cs l' r' (fire_next g) < to_run cs l r g" by blast
    from less.hyps [OF s(2) s(1)] obtain n g' where
      r: "run_timeouts n (fire_next g) = Some g'" "timeouts g' = []"
      "\<exists>l' r'. chain_inv cs pre l' r' g'" by blast
    have "run_timeouts (Suc n) g = Some g'"
      using False r(1) by (simp add: run_timeouts.simps [of "Suc n" g])
    then show ?thesis using r(2,3) by blast
  qed
qed

lemma chain_done:
  assumes inv: "chain_inv cs pre l r g" and t: "timeouts g = []"
  shows "l = 0 \<and> r = length cs"
proof -
  let ?n = "length cs"
  note lr = chain_invD(2,3) [OF inv] and lv = chain_invD(7) [OF inv] and cnt = chain_invD(9) [OF inv]
  have none: "hits_count cs m (timeouts g) = 0" for m by (simp add: t hits_count_def)
  have "l = 0"
  proof (rule ccontr)
    assume "l \<noteq> 0"
    then obtain m where m: "l = Suc m" by (cases l) auto
    then have "m < ?n" "live cs g m" "front l r ?n m"
      using lr lv by (auto simp add: front_def)
    then show False using cnt none [of m] by simp
  qed
  moreover have "r = ?n"
  proof (rule ccontr)
    assume "r \<noteq> ?n"
    then have "r < ?n" using lr by simp
    moreover from this have "live cs g r" using lv by simp
    moreover have "front l r ?n r" using lr by (auto simp add: front_def)
    ultimately show False using cnt none [of r] by simp
  qed
  ultimately show ?thesis by simp
qed

lemma chain_result:
  assumes lc: "linear_chain cs" and inv: "chain_inv cs pre 0 (length cs) g"
  shows "\<exists>xs. exploded g = pre @ xs \<and> length xs = length cs \<and> distinct xs \<and> set xs = bodyId ` set cs"
    and "filter eligible (getAllBodies g) = []"
proof -
  let ?n = "length cs"
  from chain_invD(10) [OF inv] obtain xs where xs: "exploded g = pre @ xs" "distinct xs"
    "set xs = {bodyId (cs ! i) | i. 0 \<le> i \<and> i < ?n}" by blast
  have "{bodyId (cs ! i) | i. 0 \<le> i \<and> i < ?n} \<subseteq> bodyId ` set cs"
    using nth_mem by blast
  moreover have "bodyId ` set cs \<subseteq> {bodyId (cs ! i) | i. 0 \<le> i \<and> i < ?n}"
    by (auto simp add: in_set_conv_nth)
  ultimately have s: "set xs = bodyId ` set cs"
    using xs(3) by simp
  have "distinct (map bodyId cs)" using lc by (simp add: linear_chain_def)
  then have "card (set (map bodyId cs)) = ?n" using distinct_card by fastforce
  moreover have "card (set xs) = length xs" using xs(2) by (rule distinct_card)
  ultimately have "length xs = ?n" using s by simp
  then show "\<exists>xs. exploded g = pre @ xs \<and> length xs = length cs \<and> distinct xs \<and> set xs = bodyId ` set cs"
    using xs s by blast
  have "\<not> eligible b" if b: "b \<in> set (getAllBodies g)" for b
  proof
    assume "eligible b"
    then have "fst (snd (core b))" by (simp add: core_def)
    moreover have cb: "core b \<in> set (cores g)" using b by (simp add: cores_def)
    ultimately obtain i where i: "i < ?n" "core b = core (cs ! i)"
      using chain_invD(5) [OF inv] by blast
    then have "bodyId (cs ! i) = fst (core b)" by (simp add: core_def)
    then have "live cs g i" using cb by (force simp add: live_def)
    then show False using chain_invD(7) [OF inv] i(1) by simp
  qed
  then show "filter eligible (getAllBodies g) = []" by (simp add: filter_empty_conv)
qed

lemma ignite:
  assumes lc: "linear_chain cs" and w: "chain_in_world cs g" and k: "k < length cs"
  shows "chain_inv cs (exploded g) k (Suc k) (explodeBody (cs ! k) g)"
proof -
  let ?n = "length cs"
  let ?g' = "explodeBody (cs ! k) g"
  let ?w = "getAllBodies g"
  from w have eng: "engine g \<noteq> None" and dw: "distinct (map bodyId ?w)"
    and sub: "set cs \<subseteq> set ?w" and el: "\<forall>b\<in>set ?w. eligible b \<longrightarrow> b \<in> set cs"
    and t: "timeouts g = []"
    unfolding chain_in_world_def by simp_all
  have dist: "distinct (map fst (cores g))" using dw by (simp add: fst_cores)
  have inj: "inj_on bodyId (set ?w)" using dw by (simp add: distinct_map)
  have inw: "cs ! i \<in> set ?w" if "i < ?n" for i using sub that nth_mem by blast
  have elig: "\<forall>c\<in>set (cores g). fst (snd c) \<longrightarrow> (\<exists>i<?n. c = core (cs ! i))"
  proof (intro ballI impI)
    fix c assume "c \<in> set (cores g)" and f: "fst (snd c)"
    then obtain b where b: "b \<in> set ?w" "c = core b" by (auto simp add: cores_def)
    then have "eligible b" using f by (simp add: core_def)
    then have "b \<in> set cs" using el b(1) by blast
    then obtain i where "i < ?n" "cs ! i = b" by (auto simp add: in_set_conv_nth)
    then show "\<exists>i<?n. c = core (cs ! i)" using b(2) by blast
  qed
  have same: "\<forall>c\<in>set (cores g). \<forall>i<?n. fst c = bodyId (cs ! i) \<longrightarrow> c = core (cs ! i)"
  proof (intro ballI allI impI)
    fix c i assume "c \<in> set (cores g)" and i: "i < ?n" and f: "fst c = bodyId (cs ! i)"
    then obtain b where b: "b \<in> set ?w" "c = core b" by (auto simp add: cores_def)
    then have "bodyId b = bodyId (cs ! i)" using f by (simp add: core_def)
    then have "b = cs ! i" using inj b(1) inw [OF i] by (simp add: inj_on_def)
    then show "c = core (cs ! i)" using b(2) by simp
  qed
  have live0: "live cs g i" if "i < ?n" for i
    using inw [OF that] by (force simp add: live_def cores_def core_def)
  have cs': "set (cores ?g') = {c \<in> set (cores g). fst c \<noteq> bodyId (cs ! k)}"
    and dist': "distinct (map fst (cores ?g'))"
    using cores_explodeBody [OF eng dist, of "cs ! k"] by simp_all
  have "bodyId (cs ! k) \<in> fst ` set (cores g)" using live0 [OF k] by (simp add: live_def)
  from deref_in_world [OF this] same k have "core (deref (cs ! k) g) = core (cs ! k)"
    by simp
  then have dpos: "position (deref (cs ! k) g) = position (cs ! k)"
    and drad: "blast_radius (deref (cs ! k) g) = blast_radius (cs ! k)"
    by (simp_all add: core_def)
  have to': "timeouts ?g' = [(clock g + 50, Rescan (position (cs ! k)) (blast_radius (cs ! k)))]"
    using explodeBody_effect(2) [OF eng, of "cs ! k"] dpos drad t by simp
  have ex': "exploded ?g' = exploded g @ [bodyId (cs ! k)]"
    by (rule explodeBody_effect(3) [OF eng])
  have eng': "engine ?g' \<noteq> None" by (rule explodeBody_effect(4) [OF eng])
  have live': "live cs ?g' i \<longleftrightarrow> i \<noteq> k" if "i < ?n" for i
    using chain_ids [OF lc that k] live0 [OF that] by (auto simp add: live_def cs')
  show ?thesis
  proof (rule chain_invI)
    show "engine ?g' \<noteq> None" by (rule eng')
    show "k < Suc k" by simp
    show "Suc k \<le> ?n" using k by simp
    show "distinct (map fst (cores ?g'))" by (rule dist')
    show "\<forall>c\<in>set (cores ?g'). fst (snd c) \<longrightarrow> (\<exists>i<?n. c = core (cs ! i))"
      using elig by (simp add: cs')
    show "\<forall>c\<in>set (cores ?g'). \<forall>i<?n. fst c = bodyId (cs ! i) \<longrightarrow> c = core (cs ! i)"
      using same by (simp add: cs')
    show "\<forall>i<?n. live cs ?g' i \<longleftrightarrow> \<not> (k \<le> i \<and> i < Suc k)"
      using live' by auto
    show "\<forall>t\<in>set (timeouts ?g'). task_ok cs ?g' (snd t)"
      using k live' [OF k] by (auto simp add: to')
    show "\<forall>j<?n. live cs ?g' j \<longrightarrow>
           hits_count cs j (timeouts ?g') = (if front k (Suc k) ?n j then 1 else 0)"
    proof (intro allI impI)
      fix m assume m: "m < ?n" and "live cs ?g' m"
      then have mk: "m \<noteq> k" using live' by simp
      have "nearby (position (cs ! k)) (blast_radius (cs ! k)) (cs ! m) \<longleftrightarrow> (k = Suc m \<or> m = Suc k)"
        using chain_nearby [OF lc k m] mk by auto
      then show "hits_count cs m (timeouts ?g') = (if front k (Suc k) ?n m then 1 else 0)"
        using front_single [OF k m mk] by (simp add: to' hits_count_single)
    qed
    have "{bodyId (cs ! i) | i. k \<le> i \<and> i < Suc k} = {bodyId (cs ! k)}"
      by (auto simp add: less_Suc_eq_le)
    then show "\<exists>xs. exploded ?g' = exploded g @ xs \<and> distinct xs
        \<and> set xs = {bodyId (cs ! i) | i. k \<le> i \<and> i < Suc k}"
      by (intro exI [of _ "[bodyId (cs ! k)]"]) (simp add: ex')
  qed
qed

text \<open>
  C2 (as amended). In a world whose explosive dynamic bodies form a linear chain, each
  within 0.8 times the blast radius of its neighbours in the chain and of no other body of
  the chain, with no timeout pending and no body moving while the cascade runs: after
  \<^verbatim>\<open>explodeBody\<close> on any one body of the chain the pending timeouts run out, and then
  \<^verbatim>\<open>explodeBody\<close> has been called exactly once on each of the \<open>N\<close> bodies, and no
  explosive dynamic body is left in the world.
\<close>

theorem chain_reaction_explodes_each_body_once:
  assumes "linear_chain cs" and "chain_in_world cs g" and "k < length cs"
  shows "\<exists>n final.
           (\<forall>m\<ge>n. run_timeouts m (explodeBody (cs ! k) g) = Some final)
           \<and> timeouts final = []
           \<and> (\<exists>xs. exploded final = exploded g @ xs \<and> length xs = length cs \<and> distinct xs
                 \<and> set xs = bodyId ` set cs)
           \<and> filter eligible (getAllBodies final) = []"
proof -
  have "chain_inv cs (exploded g) k (Suc k) (explodeBody (cs ! k) g)"
    using assms by (rule ignite)
  from run_chain [OF assms(1) this] obtain n final l r where
    r: "run_timeouts n (explodeBody (cs ! k) g) = Some final" "timeouts final = []"
    "chain_inv cs (exploded g) l r final" by blast
  have "l = 0 \<and> r = length cs" using r(3,2) by (rule chain_done)
  then have inv: "chain_inv cs (exploded g) 0 (length cs) final" using r(3) by simp
  have "run_timeouts m (explodeBody (cs ! k) g) = Some final" if "n \<le> m" for m
    using run_timeouts_more [OF r(1), of "m - n"] that by simp
  then show ?thesis
    using r(2) chain_result [OF assms(1) inv] by blast
qed

lemma triggers_barrel: "triggers (barrel i a) (barrel j b) \<longleftrightarrow> \<bar>b - a\<bar> < 160"
  by (simp add: triggers_def nearby_def barrel_def Bodies_new_def blast_radius_def or_else_def
      Vector_sub_def magnitude_axis)

lemma eligible_barrel: "eligible (barrel i a)"
  by (simp add: eligible_def barrel_def Bodies_new_def)

lemma bodyId_barrel: "bodyId (barrel i a) = i"
  by (simp add: barrel_def Bodies_new_def)

lemma row_chain: "linear_chain row"
  by (simp add: linear_chain_def row_def eligible_barrel bodyId_barrel triggers_barrel
      All_less_Suc numeral_3_eq_3 nth_Cons')

lemma row_world: "chain_in_world row (world_of (ground # row))"
  by (auto simp add: chain_in_world_def row_def world_of_def getAllBodies_def bodyId_barrel
      ground_def Bodies_new_def eligible_def)

theorem chain_reaction_explodes_each_body_once_witness:
  "linear_chain row \<and> chain_in_world row (world_of (ground # row)) \<and> 1 < length row
   \<and> (\<exists>n final.
        (\<forall>m\<ge>n. run_timeouts m (explodeBody (row ! 1) (world_of (ground # row))) = Some final)
        \<and> timeouts final = []
        \<and> (\<exists>xs. exploded final = exploded (world_of (ground # row)) @ xs \<and> length xs = length row
               \<and> distinct xs \<and> set xs = bodyId ` set row)
        \<and> filter eligible (getAllBodies final) = [])"
proof -
  have k: "1 < length row" by (simp add: row_def)
  show ?thesis
    using chain_reaction_explodes_each_body_once [OF row_chain row_world k] row_chain row_world k
    by blast
qed

lemma cluster_run:
  "map_option (\<lambda>final. (exploded final, timeouts final, getAllBodies final))
        (run_timeouts 7 (explodeBody (barrel 1 0) cluster)) = Some ([1, 2, 3, 3], [], [])"
  by (simp add: run_timeouts.simps fire_next_def run_task_def explodeBody_def cluster_def world_of_def
      barrel_def Bodies_new_def deref_def getAllBodies_def or_else_def spawnParticles_def
      triggerScreenShake_def emit_def toolExplode_def with_default_def hit_def Vector_sub_def
      Vector_magnitude_def Let_def Math_random_def putBodies_def win_shake_def win_particles_def
      removeBody_def setTimeout_def rescan_def nearby_def blast_def Vector_normalise_def
      applyForce_def Body_applyForce_def Body_setAngularVelocity_def numeral_eq_Suc)

text \<open>
  Three barrels one unit apart, so that the third is in range of the first as well as of
  the second. The rescan after the first explosion schedules the second barrel at 150 ms
  and the third at 348 ms; the rescan after the second explosion, at 200 ms, finds the third
  still in the world and schedules it again, at 300 ms. The third barrel is removed at
  300 ms, and the callback of 348 ms explodes it a second time: four explosions of three
  bodies.
\<close>

theorem chain_reaction_double_explosion_counterexample:
  "eligible (barrel 1 0) \<and> eligible (barrel 2 1) \<and> eligible (barrel 3 2)
   \<and> triggers (barrel 1 0) (barrel 2 1) \<and> triggers (barrel 2 1) (barrel 3 2)
   \<and> getAllBodies cluster = [barrel 1 0, barrel 2 1, barrel 3 2] \<and> timeouts cluster = []
   \<and> map_option exploded (run_timeouts 7 (explodeBody (barrel 1 0) cluster)) = Some [1, 2, 3, 3]
   \<and> map_option timeouts (run_timeouts 7 (explodeBody (barrel 1 0) cluster)) = Some []
   \<and> map_option getAllBodies (run_timeouts 7 (explodeBody (barrel 1 0) cluster)) = Some []"
proof -
  have "getAllBodies cluster = [barrel 1 0, barrel 2 1, barrel 3 2]" "timeouts cluster = []"
    by (simp_all add: cluster_def world_of_def getAllBodies_def)
  moreover have "map_option exploded (run_timeouts 7 (explodeBody (barrel 1 0) cluster)) = Some [1, 2, 3, 3]"
    "map_option timeouts (run_timeouts 7 (explodeBody (barrel 1 0) cluster)) = Some []"
    "map_option getAllBodies (run_timeouts 7 (explodeBody (barrel 1 0) cluster)) = Some []"
    using cluster_run by auto
  ultimately show ?thesis
    by (simp add: eligible_barrel triggers_barrel)
qed

end
